(* ===== verification/Device_Keys.thy ===== *)
theory Device_Keys
  imports Prelude "HOL-Library.Word"
begin

section \<open>Gateway credentials: the device_keys table and the key cache\<close>

text \<open>
  Models \<^verbatim>\<open>src/fleet/store/device_keys.go\<close> (the SQL statements as functions on the rows of
  the table) and \<^verbatim>\<open>src/fleet/gateway/keys.go\<close> (the cache in front of it). A lookup takes the
  cache's lock twice and reads the store in between, so other lookups, revocations and
  invalidations interleave with it: the step relation below runs the phases of many
  lookups in any order, and the properties are about every interleaving. The function that
  opens a sealed secret is the parameter \<open>open_sealed\<close>.
\<close>

subsection \<open>The table\<close>

record DeviceKey =
  dk_AccessKeyID :: string
  dk_AgentID :: string
  dk_SealedSecret :: string
  dk_Prefix :: string
  dk_ReadOnly :: bool
  dk_CreatedAt :: gotime
  dk_DisabledAt :: "gotime option"

text \<open>Timestamps are stored as RFC 3339 text, to the second.\<close>

definition ts :: "gotime \<Rightarrow> gotime" where "ts t = t div second * second"

definition CreateDeviceKey :: "DeviceKey \<Rightarrow> DeviceKey list \<Rightarrow> DeviceKey list option" where
  "CreateDeviceKey k db =
     (if dk_AccessKeyID k \<in> dk_AccessKeyID ` set db then None
      else Some (db @ [k\<lparr>dk_CreatedAt := ts (dk_CreatedAt k), dk_DisabledAt := map_option ts (dk_DisabledAt k)\<rparr>]))"

definition lookup_DeviceKey :: "string \<Rightarrow> DeviceKey list \<Rightarrow> DeviceKey option" where
  "lookup_DeviceKey accessKeyID db =
     find (\<lambda>k. dk_AccessKeyID k = accessKeyID \<and> dk_DisabledAt k = None) db"

definition DeviceKeysForAgent :: "string \<Rightarrow> DeviceKey list \<Rightarrow> DeviceKey list" where
  "DeviceKeysForAgent agentID db =
     sort_key dk_CreatedAt (sort_key dk_AccessKeyID (filter (\<lambda>k. dk_AgentID k = agentID) db))"

definition DeleteDeviceKeysForAgent :: "string \<Rightarrow> DeviceKey list \<Rightarrow> nat \<times> DeviceKey list" where
  "DeleteDeviceKeysForAgent agentID db =
     (length (filter (\<lambda>k. dk_AgentID k = agentID) db), filter (\<lambda>k. dk_AgentID k \<noteq> agentID) db)"

definition DisableDeviceKeysForAgent :: "string \<Rightarrow> gotime \<Rightarrow> DeviceKey list \<Rightarrow> nat \<times> DeviceKey list" where
  "DisableDeviceKeysForAgent agentID at db =
     (length (filter (\<lambda>k. dk_AgentID k = agentID \<and> dk_DisabledAt k = None) db),
      map (\<lambda>k. if dk_AgentID k = agentID \<and> dk_DisabledAt k = None then k\<lparr>dk_DisabledAt := Some (ts at)\<rparr> else k) db)"

definition DisableDeviceKey :: "string \<Rightarrow> gotime \<Rightarrow> DeviceKey list \<Rightarrow> DeviceKey list" where
  "DisableDeviceKey accessKeyID at db =
     map (\<lambda>k. if dk_AccessKeyID k = accessKeyID \<and> dk_DisabledAt k = None
              then k\<lparr>dk_DisabledAt := Some (ts at)\<rparr> else k) db"

subsection \<open>The cache\<close>

definition cacheTTL :: duration where "cacheTTL = 5 * minute"

definition cacheSize :: nat where "cacheSize = 4096"

record keyEntry =
  ke_agentID :: string
  ke_prefix :: string
  ke_secret :: string
  ke_readOnly :: bool
  ke_expires :: gotime

record Keys =
  k_gen :: "64 word"
  k_cache :: "(string \<times> keyEntry) list"

definition NewKeys :: Keys where "NewKeys = \<lparr>k_gen = 0, k_cache = []\<rparr>"

definition forget :: "string \<Rightarrow> Keys \<Rightarrow> Keys" where
  "forget accessKeyID k = k\<lparr>k_cache := AList.delete accessKeyID (k_cache k)\<rparr>"

definition Invalidate :: "string \<Rightarrow> Keys \<Rightarrow> Keys" where
  "Invalidate agentID k =
     k\<lparr>k_gen := k_gen k + 1, k_cache := filter (\<lambda>(kid, e). ke_agentID e \<noteq> agentID) (k_cache k)\<rparr>"

definition InvalidateAll :: "Keys \<Rightarrow> Keys" where
  "InvalidateAll k = k\<lparr>k_gen := k_gen k + 1, k_cache := []\<rparr>"

text \<open>
  The two critical sections of a lookup, and the entry it builds from a row. A lookup
  that answers does so with the agent, prefix, secret and read-only flag of the entry.
\<close>

definition lookup_hit :: "gotime \<Rightarrow> string \<Rightarrow> Keys \<Rightarrow> keyEntry option" where
  "lookup_hit now accessKeyID k = (case map_of (k_cache k) accessKeyID of
     Some e \<Rightarrow> if now < ke_expires e then Some e else None
   | None \<Rightarrow> None)"

definition row_entry :: "gotime \<Rightarrow> DeviceKey \<Rightarrow> string \<Rightarrow> keyEntry" where
  "row_entry now row plain = \<lparr>ke_agentID = dk_AgentID row, ke_prefix = dk_Prefix row, ke_secret = plain,
     ke_readOnly = dk_ReadOnly row, ke_expires = now + cacheTTL\<rparr>"

definition lookup_store :: "string \<Rightarrow> 64 word \<Rightarrow> keyEntry \<Rightarrow> Keys \<Rightarrow> Keys" where
  "lookup_store accessKeyID gen e k =
     (if k_gen k = gen then
        let cache = (if length (k_cache k) \<ge> cacheSize then [] else k_cache k)
        in k\<lparr>k_cache := AList.update accessKeyID e cache\<rparr>
      else k)"

text \<open>A lookup that nothing interrupts; \<open>db_err\<close> is a failing query.\<close>

definition Lookup ::
  "(string \<Rightarrow> string option) \<Rightarrow> gotime \<Rightarrow> bool \<Rightarrow> DeviceKey list \<Rightarrow> string \<Rightarrow> Keys \<Rightarrow> keyEntry option \<times> Keys" where
  "Lookup open_sealed now db_err db accessKeyID k =
     (let gen = k_gen k in
      case lookup_hit now accessKeyID k of
        Some e \<Rightarrow> (Some e, k)
      | None \<Rightarrow>
          (case (if db_err then None else lookup_DeviceKey accessKeyID db) of
             None \<Rightarrow> (None, forget accessKeyID k)
           | Some row \<Rightarrow>
               (case open_sealed (dk_SealedSecret row) of
                  None \<Rightarrow> (None, forget accessKeyID k)
                | Some plain \<Rightarrow>
                    let e = row_entry now row plain in (Some e, lookup_store accessKeyID gen e k))))"

subsection \<open>Interleaved lookups\<close>

text \<open>
  A lookup between its critical sections: about to query the store, or holding the row it
  read. Lookups are numbered in the order they start. The system keeps the table, the
  cache, the clock, the number of the next lookup, the lookups in flight, and the agents
  that finished lookups resolved to.
\<close>

datatype pc = Querying string gotime "64 word" | HoldsRow string gotime "64 word" DeviceKey

record sys =
  s_db :: "DeviceKey list"
  s_keys :: Keys
  s_clock :: gotime
  s_next :: nat
  s_flight :: "(nat \<times> pc) list"
  s_answered :: "(nat \<times> string) list"

datatype action =
  Tick duration
| Start string                        \<comment> \<open>a lookup enters its first critical section\<close>
| Query nat bool                      \<comment> \<open>it reads the store, or the query fails\<close>
| Finish nat                          \<comment> \<open>it unseals the row and enters its second critical section\<close>
| Create DeviceKey
| Disable string                      \<comment> \<open>every key of an agent\<close>
| DisableOne string
| Delete string
| Drop string                         \<comment> \<open>Invalidate\<close>
| DropAll

fun exec :: "(string \<Rightarrow> string option) \<Rightarrow> action \<Rightarrow> sys \<Rightarrow> sys" where
  "exec u (Tick d) s = s\<lparr>s_clock := s_clock s + max 0 d\<rparr>"
| "exec u (Start kid) s =
     (case lookup_hit (s_clock s) kid (s_keys s) of
        Some e \<Rightarrow> s\<lparr>s_next := s_next s + 1, s_answered := (s_next s, ke_agentID e) # s_answered s\<rparr>
      | None \<Rightarrow> s\<lparr>s_next := s_next s + 1,
                   s_flight := (s_next s, Querying kid (s_clock s) (k_gen (s_keys s))) # s_flight s\<rparr>)"
| "exec u (Query i err) s =
     (case map_of (s_flight s) i of
        Some (Querying kid now gen) \<Rightarrow>
          (case (if err then None else lookup_DeviceKey kid (s_db s)) of
             None \<Rightarrow> s\<lparr>s_flight := AList.delete i (s_flight s), s_keys := forget kid (s_keys s)\<rparr>
           | Some row \<Rightarrow> s\<lparr>s_flight := AList.update i (HoldsRow kid now gen row) (s_flight s)\<rparr>)
      | _ \<Rightarrow> s)"
| "exec u (Finish i) s =
     (case map_of (s_flight s) i of
        Some (HoldsRow kid now gen row) \<Rightarrow>
          (case u (dk_SealedSecret row) of
             None \<Rightarrow> s\<lparr>s_flight := AList.delete i (s_flight s), s_keys := forget kid (s_keys s)\<rparr>
           | Some plain \<Rightarrow>
               s\<lparr>s_flight := AList.delete i (s_flight s),
                 s_keys := lookup_store kid gen (row_entry now row plain) (s_keys s),
                 s_answered := (i, dk_AgentID row) # s_answered s\<rparr>)
      | _ \<Rightarrow> s)"
| "exec u (Create k) s = (case CreateDeviceKey k (s_db s) of Some db \<Rightarrow> s\<lparr>s_db := db\<rparr> | None \<Rightarrow> s)"
| "exec u (Disable a) s = s\<lparr>s_db := snd (DisableDeviceKeysForAgent a (s_clock s) (s_db s))\<rparr>"
| "exec u (DisableOne kid) s = s\<lparr>s_db := DisableDeviceKey kid (s_clock s) (s_db s)\<rparr>"
| "exec u (Delete a) s = s\<lparr>s_db := snd (DeleteDeviceKeysForAgent a (s_db s))\<rparr>"
| "exec u (Drop a) s = s\<lparr>s_keys := Invalidate a (s_keys s)\<rparr>"
| "exec u DropAll s = s\<lparr>s_keys := InvalidateAll (s_keys s)\<rparr>"

definition initial :: "DeviceKey list \<Rightarrow> gotime \<Rightarrow> sys" where
  "initial db t = \<lparr>s_db = db, s_keys = NewKeys, s_clock = t, s_next = 0, s_flight = [], s_answered = []\<rparr>"

definition run :: "(string \<Rightarrow> string option) \<Rightarrow> action list \<Rightarrow> sys \<Rightarrow> sys" where
  "run u acts s = fold (exec u) acts s"

lemma run_Nil [simp]: "run u [] s = s"
  by (simp add: run_def)

lemma run_append [simp]: "run u (xs @ ys) s = run u ys (run u xs s)"
  by (simp add: run_def)

lemma run_Cons [simp]: "run u (x # xs) s = run u xs (exec u x s)"
  by (simp add: run_def)

text \<open>Preservation along a run of an invariant that may count the actions.\<close>

lemma run_invariant:
  assumes "P n s" and "\<And>x n s. x \<in> set acts \<Longrightarrow> P n s \<Longrightarrow> P (n + f x) (exec u x s)"
  shows "P (n + sum_list (map f acts)) (run u acts s)"
  using assms
proof (induction acts arbitrary: n s)
  case (Cons x xs)
  then have "P (n + f x + sum_list (map f xs)) (run u xs (exec u x s))" by simp
  then show ?case by (simp add: add.assoc)
qed simp

lemma set_update: "set (AList.update k v al) \<subseteq> insert (k, v) (set al)"
  by (induction al) auto

lemma set_delete: "set (AList.delete k al) \<subseteq> set al"
  by (auto simp: AList.delete_eq)

lemma lookup_DeviceKey_Some:
  "lookup_DeviceKey i db = Some row \<Longrightarrow> row \<in> set db \<and> dk_AccessKeyID row = i \<and> dk_DisabledAt row = None"
  by (auto simp: lookup_DeviceKey_def find_Some_iff)

subsection \<open>What every state satisfies\<close>

primrec pc_gen :: "pc \<Rightarrow> 64 word" where
  "pc_gen (Querying i t g) = g"
| "pc_gen (HoldsRow i t g r) = g"

primrec pc_now :: "pc \<Rightarrow> gotime" where
  "pc_now (Querying i t g) = t"
| "pc_now (HoldsRow i t g r) = t"

definition invalidations :: "action \<Rightarrow> nat" where
  "invalidations x = (case x of Drop _ \<Rightarrow> 1 | DropAll \<Rightarrow> 1 | _ \<Rightarrow> 0)"

text \<open>\<open>n\<close> is the number of invalidations so far.\<close>

definition base_inv :: "nat \<Rightarrow> sys \<Rightarrow> bool" where
  "base_inv n s \<longleftrightarrow> k_gen (s_keys s) = of_nat n
     \<and> (\<forall>i p. map_of (s_flight s) i = Some p \<longrightarrow>
          i < s_next s \<and> pc_now p \<le> s_clock s \<and> (\<exists>m \<le> n. pc_gen p = of_nat m))
     \<and> (\<forall>i a. (i, a) \<in> set (s_answered s) \<longrightarrow> i < s_next s)
     \<and> (\<forall>x \<in> set (k_cache (s_keys s)). ke_expires (snd x) \<le> s_clock s + cacheTTL)
     \<and> length (k_cache (s_keys s)) \<le> cacheSize"

lemma base_inv_keys:
  assumes "base_inv n s" and "k_gen k = of_nat n"
    and "\<forall>x \<in> set (k_cache k). x \<in> set (k_cache (s_keys s)) \<or> ke_expires (snd x) \<le> s_clock s + cacheTTL"
    and "length (k_cache k) \<le> cacheSize"
  shows "base_inv n (s\<lparr>s_keys := k\<rparr>)"
  using assms by (auto simp: base_inv_def)

lemma length_update: "length (AList.update k v al) \<le> Suc (length al)"
  by (induction al) auto

lemma length_delete: "length (AList.delete k al) \<le> length al"
  by (simp add: AList.delete_eq)

lemma lookup_store_cache:
  "x \<in> set (k_cache (lookup_store i g e k)) \<Longrightarrow> x \<in> set (k_cache k) \<or> x = (i, e) \<and> k_gen k = g"
  using set_update[of i e] by (auto simp: lookup_store_def Let_def split: if_splits)

lemma lookup_store_length:
  "length (k_cache k) \<le> cacheSize \<Longrightarrow> length (k_cache (lookup_store i g e k)) \<le> cacheSize"
  using length_update[of i e "k_cache k"] by (auto simp: lookup_store_def Let_def cacheSize_def)

lemma lookup_store_gen [simp]: "k_gen (lookup_store i g e k) = k_gen k"
  by (simp add: lookup_store_def Let_def)

lemma forget_simps [simp]: "k_gen (forget i k) = k_gen k" "length (k_cache (forget i k)) \<le> length (k_cache k)"
  "x \<in> set (k_cache (forget i k)) \<Longrightarrow> x \<in> set (k_cache k)"
  using set_delete[of i "k_cache k"] by (auto simp: forget_def length_delete)

lemma base_inv_Finish: "base_inv n s \<Longrightarrow> base_inv n (exec u (Finish i) s)"
proof (cases "map_of (s_flight s) i")
  case (Some p)
  assume inv: "base_inv n s"
  show ?thesis
  proof (cases p)
    case (HoldsRow kid now gen row)
    have now: "now + cacheTTL \<le> s_clock s + cacheTTL" using inv Some HoldsRow by (force simp: base_inv_def)
    show ?thesis
    proof (cases "u (dk_SealedSecret row)")
      case None
      with inv Some HoldsRow show ?thesis
        by (auto simp: base_inv_def delete_conv' split: if_splits intro: order_trans[OF forget_simps(2)])
    next
      case (Some plain)
      let ?e = "row_entry now row plain"
      have "ke_expires (snd x) \<le> s_clock s + cacheTTL" if "x \<in> set (k_cache (lookup_store kid gen ?e (s_keys s)))" for x
        using lookup_store_cache[OF that] inv now by (auto simp: base_inv_def row_entry_def)
      with inv \<open>map_of (s_flight s) i = Some p\<close> HoldsRow Some show ?thesis
        by (auto simp: base_inv_def delete_conv' lookup_store_length split: if_splits)
    qed
  qed (use Some inv in simp)
qed simp

lemma base_inv_Query: "base_inv n s \<Longrightarrow> base_inv n (exec u (Query i err) s)"
proof (cases "map_of (s_flight s) i")
  case (Some p)
  assume inv: "base_inv n s"
  show ?thesis
  proof (cases p)
    case (Querying kid now gen)
    show ?thesis
    proof (cases "if err then None else lookup_DeviceKey kid (s_db s)")
      case None
      with inv Some Querying show ?thesis
        by (auto simp: base_inv_def delete_conv' split: if_splits intro: order_trans[OF forget_simps(2)])
    next
      case row: (Some row)
      have "i < s_next s \<and> now \<le> s_clock s \<and> (\<exists>m \<le> n. gen = of_nat m)"
        using inv Some Querying by (force simp: base_inv_def)
      with inv Some Querying row show ?thesis
        by (auto simp: base_inv_def update_conv' split: if_splits)
    qed
  qed (use Some inv in simp)
qed simp

lemma base_inv_later:
  assumes "base_inv n s" and "k_gen k = of_nat (Suc n)" and "set (k_cache k) \<subseteq> set (k_cache (s_keys s))"
    and "length (k_cache k) \<le> cacheSize"
  shows "base_inv (Suc n) (s\<lparr>s_keys := k\<rparr>)"
proof -
  have "\<exists>m \<le> Suc n. pc_gen p = of_nat m" if "map_of (s_flight s) i = Some p" for i p
    using assms(1) that unfolding base_inv_def by (meson le_SucI)
  with assms show ?thesis by (auto simp: base_inv_def)
qed

lemma base_inv_Drop: "base_inv n s \<Longrightarrow> base_inv (Suc n) (exec u (Drop a) s)"
  unfolding exec.simps
  by (rule base_inv_later) (auto simp: base_inv_def Invalidate_def intro: order_trans[OF length_filter_le])

lemma base_inv_DropAll: "base_inv n s \<Longrightarrow> base_inv (Suc n) (exec u DropAll s)"
  unfolding exec.simps
  by (rule base_inv_later) (auto simp: base_inv_def InvalidateAll_def)

lemma base_inv_Start: "base_inv n s \<Longrightarrow> base_inv n (exec u (Start kid) s)"
  by (auto simp: base_inv_def less_Suc_eq split: option.split if_splits)

lemma base_inv_Tick: "base_inv n s \<Longrightarrow> base_inv n (exec u (Tick d) s)"
  by (force simp: base_inv_def)

lemma base_inv_db: "base_inv n s \<Longrightarrow> base_inv n (s\<lparr>s_db := db\<rparr>)"
  by (simp add: base_inv_def)

lemma base_inv_exec: "base_inv n s \<Longrightarrow> base_inv (n + invalidations x) (exec u x s)"
proof (cases x)
  case (Create k)
  assume "base_inv n s"
  with Create show ?thesis by (simp add: invalidations_def base_inv_db split: option.split)
qed (simp_all only: base_inv_Finish base_inv_Query base_inv_Drop base_inv_DropAll base_inv_Start base_inv_Tick
    invalidations_def action.case add_0_right One_nat_def add_Suc_right exec.simps(6-8) base_inv_db)

lemma base_inv_initial: "base_inv 0 (initial db t)"
  by (simp add: base_inv_def initial_def NewKeys_def)

lemma base_inv_run: "base_inv n s \<Longrightarrow> base_inv (n + sum_list (map invalidations acts)) (run u acts s)"
  by (rule run_invariant[where P = base_inv]) (auto intro: base_inv_exec)

end
