(* ===== verification/Key_Revocation.thy ===== *)
theory Key_Revocation
  imports Device_Keys
begin

section \<open>Revocation of gateway credentials\<close>

text \<open>
  The properties of \<^verbatim>\<open>src/fleet/gateway/keys.go\<close> under every interleaving of lookups with
  changes of the table and invalidations: a revocation is effective at once when the cache
  is invalidated, within the cache's time to live when it is not, and the cache is bounded.
\<close>

subsection \<open>Agents whose keys are all disabled\<close>

text \<open>No action of a list issues a new key to an agent.\<close>

definition no_new_key :: "string \<Rightarrow> action list \<Rightarrow> bool" where
  "no_new_key a acts \<longleftrightarrow> (\<forall>x \<in> set acts. case x of Create k \<Rightarrow> dk_AgentID k \<noteq> a | _ \<Rightarrow> True)"

definition all_disabled :: "string \<Rightarrow> DeviceKey list \<Rightarrow> bool" where
  "all_disabled a db \<longleftrightarrow> list_all (\<lambda>k. dk_AgentID k = a \<longrightarrow> dk_DisabledAt k \<noteq> None) db"

lemma all_disabled_now: "all_disabled a (snd (DisableDeviceKeysForAgent a t db))"
  unfolding all_disabled_def DisableDeviceKeysForAgent_def snd_conv by (induction db) auto

lemma all_disabled_agent: "all_disabled a db \<Longrightarrow> all_disabled a (snd (DisableDeviceKeysForAgent b t db))"
  unfolding all_disabled_def DisableDeviceKeysForAgent_def snd_conv by (induction db) auto

lemma all_disabled_one: "all_disabled a db \<Longrightarrow> all_disabled a (DisableDeviceKey kid t db)"
  unfolding all_disabled_def DisableDeviceKey_def by (induction db) auto

lemma all_disabled_delete: "all_disabled a db \<Longrightarrow> all_disabled a (snd (DeleteDeviceKeysForAgent b db))"
  by (simp add: all_disabled_def DeleteDeviceKeysForAgent_def list_all_iff)

lemma all_disabled_create:
  "all_disabled a db \<Longrightarrow> dk_AgentID k \<noteq> a \<Longrightarrow> CreateDeviceKey k db = Some db' \<Longrightarrow> all_disabled a db'"
  by (auto simp: all_disabled_def CreateDeviceKey_def split: if_splits)

lemma all_disabled_row: "all_disabled a db \<Longrightarrow> lookup_DeviceKey i db = Some row \<Longrightarrow> dk_AgentID row \<noteq> a"
  by (drule lookup_DeviceKey_Some) (auto simp: all_disabled_def list_all_iff)

lemma exec_db: "s_db (exec u x s) = (case x of
    Create k \<Rightarrow> (case CreateDeviceKey k (s_db s) of Some db \<Rightarrow> db | None \<Rightarrow> s_db s)
  | Disable a \<Rightarrow> snd (DisableDeviceKeysForAgent a (s_clock s) (s_db s))
  | DisableOne i \<Rightarrow> DisableDeviceKey i (s_clock s) (s_db s)
  | Delete a \<Rightarrow> snd (DeleteDeviceKeysForAgent a (s_db s))
  | _ \<Rightarrow> s_db s)"
  by (cases x) (simp_all split: option.split pc.split)

lemma all_disabled_exec:
  "all_disabled a (s_db s) \<Longrightarrow> no_new_key a [x] \<Longrightarrow> all_disabled a (s_db (exec u x s))"
  unfolding exec_db
  by (cases x) (auto simp: no_new_key_def all_disabled_agent all_disabled_one all_disabled_delete
      dest: all_disabled_create split: option.split)

text \<open>
  The common shape of the two revocation arguments: the agent's keys are disabled; a
  lookup that still holds one of its rows started before lookup \<open>start\<close>, and \<open>row_ok\<close> says
  what is known of its time and generation; cached entries of the agent satisfy
  \<open>entry_ok\<close>; and only lookups before \<open>start\<close> resolved to the agent.
\<close>

definition quiet_inv ::
  "string \<Rightarrow> nat \<Rightarrow> (gotime \<Rightarrow> 64 word \<Rightarrow> bool) \<Rightarrow> (keyEntry \<Rightarrow> bool) \<Rightarrow> sys \<Rightarrow> bool" where
  "quiet_inv a start row_ok entry_ok s \<longleftrightarrow> all_disabled a (s_db s)
     \<and> (\<forall>i kid t g row. map_of (s_flight s) i = Some (HoldsRow kid t g row) \<longrightarrow> dk_AgentID row = a \<longrightarrow>
          i < start \<and> row_ok t g)
     \<and> (\<forall>x \<in> set (k_cache (s_keys s)). ke_agentID (snd x) = a \<longrightarrow> entry_ok (snd x))
     \<and> (\<forall>i. (i, a) \<in> set (s_answered s) \<longrightarrow> i < start)"

lemma quiet_Finish:
  assumes "quiet_inv a start row_ok entry_ok s"
    and "\<And>t row plain. row_ok t (k_gen (s_keys s)) \<Longrightarrow> dk_AgentID row = a \<Longrightarrow> entry_ok (row_entry t row plain)"
  shows "quiet_inv a start row_ok entry_ok (exec u (Finish i) s)"
proof (cases "map_of (s_flight s) i")
  case (Some p)
  show ?thesis
  proof (cases p)
    case (HoldsRow kid now gen row)
    show ?thesis
    proof (cases "u (dk_SealedSecret row)")
      case None
      with assms(1) Some HoldsRow show ?thesis
        by (auto simp: quiet_inv_def delete_conv' split: if_splits)
    next
      case (Some plain)
      let ?e = "row_entry now row plain"
      have "entry_ok (snd x)" if "x \<in> set (k_cache (lookup_store kid gen ?e (s_keys s)))" "ke_agentID (snd x) = a" for x
        using lookup_store_cache[OF that(1)] that(2) assms \<open>map_of (s_flight s) i = Some p\<close> HoldsRow
        by (auto simp: quiet_inv_def row_entry_def)
      with assms(1) \<open>map_of (s_flight s) i = Some p\<close> HoldsRow Some show ?thesis
        by (auto simp: quiet_inv_def delete_conv' split: if_splits)
    qed
  qed (use Some assms in simp)
qed (use assms in simp)

lemma quiet_Query:
  assumes "quiet_inv a start row_ok entry_ok s"
  shows "quiet_inv a start row_ok entry_ok (exec u (Query i err) s)"
proof (cases "map_of (s_flight s) i")
  case (Some p)
  show ?thesis
  proof (cases p)
    case (Querying kid now gen)
    show ?thesis
    proof (cases "if err then None else lookup_DeviceKey kid (s_db s)")
      case None
      with assms Some Querying show ?thesis
        by (auto simp: quiet_inv_def delete_conv' split: if_splits)
    next
      case row: (Some row)
      then have "dk_AgentID row \<noteq> a" using assms by (auto simp: quiet_inv_def dest: all_disabled_row split: if_splits)
      with assms Some Querying row show ?thesis
        by (auto simp: quiet_inv_def update_conv' split: if_splits)
    qed
  qed (use Some assms in simp)
qed (use assms in simp)

lemma quiet_Start:
  assumes "quiet_inv a start row_ok entry_ok s"
    and "s_next s < start \<or> (\<forall>e. entry_ok e \<longrightarrow> ke_agentID e = a \<longrightarrow> ke_expires e \<le> s_clock s)"
  shows "quiet_inv a start row_ok entry_ok (exec u (Start kid) s)"
proof (cases "lookup_hit (s_clock s) kid (s_keys s)")
  case None
  with assms(1) show ?thesis by (simp add: quiet_inv_def)
next
  case (Some e)
  then have e: "(kid, e) \<in> set (k_cache (s_keys s))" "s_clock s < ke_expires e"
    by (auto simp: lookup_hit_def split: option.splits if_splits dest: map_of_SomeD)
  have "ke_agentID e \<noteq> a \<or> s_next s < start"
  proof (rule ccontr)
    assume *: "\<not> ?thesis"
    then have "ke_agentID e = a" by simp
    moreover have "\<forall>x \<in> set (k_cache (s_keys s)). ke_agentID (snd x) = a \<longrightarrow> entry_ok (snd x)"
      using assms(1) by (simp add: quiet_inv_def)
    ultimately have "entry_ok e" using e(1) by fastforce
    then show False using assms(2) * e(2) by auto
  qed
  with Some assms(1) show ?thesis by (auto simp: quiet_inv_def)
qed

lemma quiet_exec:
  assumes "quiet_inv a start row_ok entry_ok s" and "no_new_key a [x]"
    and "\<And>kid. x = Start kid \<Longrightarrow> s_next s < start \<or> (\<forall>e. entry_ok e \<longrightarrow> ke_agentID e = a \<longrightarrow> ke_expires e \<le> s_clock s)"
    and "\<And>t row plain. row_ok t (k_gen (s_keys s)) \<Longrightarrow> dk_AgentID row = a \<Longrightarrow> entry_ok (row_entry t row plain)"
  shows "quiet_inv a start row_ok entry_ok (exec u x s)"
proof (cases x)
  case (Finish i)
  then show ?thesis using quiet_Finish[OF assms(1,4)] by simp
next
  case (Query i err)
  then show ?thesis using quiet_Query[OF assms(1)] by simp
next
  case (Start kid)
  then show ?thesis using quiet_Start[OF assms(1) assms(3)[OF Start]] by simp
next
  case (Drop b)
  then show ?thesis using assms(1) by (auto simp: quiet_inv_def Invalidate_def)
next
  case DropAll
  then show ?thesis using assms(1) by (auto simp: quiet_inv_def InvalidateAll_def)
qed (use assms(1,2) all_disabled_exec[of a s x u] in \<open>simp_all add: quiet_inv_def split: option.splits\<close>)

lemma no_new_key_mem: "no_new_key a acts \<Longrightarrow> x \<in> set acts \<Longrightarrow> no_new_key a [x]"
  by (simp add: no_new_key_def)

lemma all_disabled_run:
  "all_disabled a (s_db s) \<Longrightarrow> no_new_key a acts \<Longrightarrow> all_disabled a (s_db (run u acts s))"
  using run_invariant[where P = "\<lambda>_ s. all_disabled a (s_db s)" and f = "\<lambda>_. 0" and n = 0]
    all_disabled_exec no_new_key_mem by blast

lemma of_nat_64_neq: "m < n \<Longrightarrow> n < 2 ^ 64 \<Longrightarrow> (of_nat m :: 64 word) \<noteq> of_nat n"
  by (simp add: word_of_nat_eq_iff take_bit_nat_eq_self)

text \<open>Right after the entries of an agent with disabled keys are dropped.\<close>

lemma quiet_dropped:
  assumes "base_inv n s" and "all_disabled a (s_db s)"
  shows "quiet_inv a (s_next s) (\<lambda>t g. \<exists>m \<le> n. g = of_nat m) (\<lambda>_. False) (exec u (Drop a) s)"
  using assms by (fastforce simp: quiet_inv_def base_inv_def Invalidate_def)

lemma quiet_dropped_run:
  assumes "base_inv n s" and "all_disabled a (s_db s)" and "no_new_key a acts"
    and "n + sum_list (map invalidations acts) + 1 < 2 ^ 64"
  shows "quiet_inv a (s_next s) (\<lambda>t g. \<exists>m \<le> n. g = of_nat m) (\<lambda>_. False) (run u (Drop a # acts) s)"
proof -
  let ?P = "\<lambda>k s'. k < 2 ^ 64 \<longrightarrow> n < k \<and> base_inv k s'
    \<and> quiet_inv a (s_next s) (\<lambda>t g. \<exists>m \<le> n. g = of_nat m) (\<lambda>_. False) s'"
  have "?P (Suc n + sum_list (map invalidations acts)) (run u acts (exec u (Drop a) s))"
  proof (rule run_invariant[where P = ?P])
    show "?P (Suc n) (exec u (Drop a) s)" using quiet_dropped[OF assms(1,2)] base_inv_Drop[OF assms(1)] by simp
  next
    fix x k s' assume x: "x \<in> set acts" and p: "?P k s'"
    show "?P (k + invalidations x) (exec u x s')"
    proof
      assume "k + invalidations x < 2 ^ 64"
      then have k: "k < 2 ^ 64" by simp
      with p have i: "n < k" "base_inv k s'" by auto
      have "\<not> (\<exists>m \<le> n. k_gen (s_keys s') = of_nat m)"
        using i k of_nat_64_neq by (metis base_inv_def le_less_trans)
      then have "quiet_inv a (s_next s) (\<lambda>t g. \<exists>m \<le> n. g = of_nat m) (\<lambda>_. False) (exec u x s')"
        by (intro quiet_exec no_new_key_mem[OF assms(3) x]) (use p k in auto)
      with i base_inv_exec[OF i(2), of x u] show "n < k + invalidations x \<and> base_inv (k + invalidations x) (exec u x s')
          \<and> quiet_inv a (s_next s) (\<lambda>t g. \<exists>m \<le> n. g = of_nat m) (\<lambda>_. False) (exec u x s')"
        by simp
    qed
  qed
  with assms(4) show ?thesis by simp
qed

text \<open>
  C17. A revocation takes effect at once and for good. Take any interleaving of lookups with
  changes of the table, in which the keys of an agent are disabled, later its cache entries
  are invalidated, and no new key is issued to it after the disabling. Then from the
  invalidation on the cache never again holds an entry of the agent, and no lookup that
  starts after it resolves to the agent, whatever lookups were under way at the time.
\<close>

theorem revocation_immediate:
  assumes "no_new_key a (mid @ post)"
    and "sum_list (map invalidations (pre @ mid @ post)) + 1 < 2 ^ 64"
    and "s = run u (pre @ Disable a # mid) (initial db t0)"
    and "s' = run u (Drop a # post) s"
  shows "(\<forall>i. (i, a) \<in> set (s_answered s') \<longrightarrow> i < s_next s)
    \<and> (\<forall>x \<in> set (k_cache (s_keys s')). ke_agentID (snd x) \<noteq> a)"
proof -
  let ?s1 = "exec u (Disable a) (run u pre (initial db t0))"
  have inv: "base_inv (0 + sum_list (map invalidations (pre @ Disable a # mid))) s"
    unfolding assms(3) by (rule base_inv_run[OF base_inv_initial])
  have "all_disabled a (s_db ?s1)" by (simp add: all_disabled_now)
  then have dis: "all_disabled a (s_db s)"
    unfolding assms(3) using assms(1) by (simp add: all_disabled_run no_new_key_def)
  have "quiet_inv a (s_next s) (\<lambda>t g. \<exists>m \<le> 0 + sum_list (map invalidations (pre @ Disable a # mid)). g = of_nat m)
      (\<lambda>_. False) s'"
    unfolding assms(4) by (rule quiet_dropped_run[OF inv dis]) (use assms(1,2) in \<open>simp_all add: no_new_key_def invalidations_def\<close>)
  then show ?thesis by (auto simp: quiet_inv_def)
qed

definition demo_key :: DeviceKey where
  "demo_key = \<lparr>dk_AccessKeyID = ''AK'', dk_AgentID = ''a'', dk_SealedSecret = ''x'', dk_Prefix = ''a/'',
     dk_ReadOnly = False, dk_CreatedAt = 0, dk_DisabledAt = None\<rparr>"

text \<open>The witness is the race the generation counter is for: lookup 0 read its row before the revocation.\<close>

definition race_before :: sys where
  "race_before = run Some ([Start ''AK'', Query 0 False] @ Disable ''a'' # []) (initial [demo_key] 0)"

definition race_after :: sys where
  "race_after = run Some (Drop ''a'' # [Finish 0, Start ''AK'', Query 1 False]) race_before"

theorem revocation_immediate_witness:
  "(1, ''a'') \<notin> set (s_answered race_after) \<and> (0, ''a'') \<in> set (s_answered race_after) \<and> s_next race_before = 1"
proof -
  have n: "s_next race_before = 1" and o: "(0, ''a'') \<in> set (s_answered race_after)"
    by code_simp+
  have "no_new_key ''a'' ([] @ [Finish 0, Start ''AK'', Query 1 False])"
    "sum_list (map invalidations ([Start ''AK'', Query 0 False] @ [] @ [Finish 0, Start ''AK'', Query 1 False])) + 1 < 2 ^ 64"
    by (simp_all add: no_new_key_def invalidations_def)
  from revocation_immediate[OF this race_before_def race_after_def] n o show ?thesis by fastforce
qed

subsection \<open>Expiry\<close>

lemma quiet_weaken: "quiet_inv a start r e s \<Longrightarrow> start \<le> start' \<Longrightarrow> quiet_inv a start' r e s"
  by (fastforce simp: quiet_inv_def)

lemma exec_next: "s_next (exec u x s) = s_next s + (case x of Start _ \<Rightarrow> 1 | _ \<Rightarrow> 0)"
  by (cases x) (simp_all split: option.split pc.split)

lemma exec_clock: "s_clock (exec u x s) = s_clock s + (case x of Tick d \<Rightarrow> max 0 d | _ \<Rightarrow> 0)"
  by (cases x) (simp_all split: option.split pc.split)

lemma run_clock: "s_clock s \<le> s_clock (run u acts s)"
proof (induction acts arbitrary: s)
  case (Cons x xs)
  have "s_clock s \<le> s_clock (exec u x s)" by (simp add: exec_clock split: action.split)
  also note Cons.IH[of "exec u x s"]
  finally show ?case by simp
qed simp

text \<open>
  After the keys of an agent are disabled at time \<open>T\<close>, its rows in flight are of lookups
  from before and its cached entries expire by \<open>T\<close> plus the time to live.
\<close>

lemma quiet_disabled:
  assumes "base_inv n s" and "T = s_clock s"
  shows "quiet_inv a (s_next s) (\<lambda>t g. t \<le> T) (\<lambda>e. ke_expires e \<le> T + cacheTTL) (exec u (Disable a) s)"
proof -
  have "i < s_next s \<and> t \<le> T" if "map_of (s_flight s) i = Some (HoldsRow kid t g row)" for i kid t g row
    using assms that unfolding base_inv_def by fastforce
  moreover have "\<forall>i. (i, a) \<in> set (s_answered s) \<longrightarrow> i < s_next s"
    and "\<forall>x \<in> set (k_cache (s_keys s)). ke_expires (snd x) \<le> T + cacheTTL"
    using assms by (auto simp: base_inv_def)
  ultimately show ?thesis by (simp add: quiet_inv_def all_disabled_now)
qed

lemma quiet_expiring_exec:
  assumes "quiet_inv a start (\<lambda>t g. t \<le> T) (\<lambda>e. ke_expires e \<le> T + cacheTTL) s" and "no_new_key a [x]"
    and "\<And>kid. x = Start kid \<Longrightarrow> s_next s < start \<or> T + cacheTTL \<le> s_clock s"
  shows "quiet_inv a start (\<lambda>t g. t \<le> T) (\<lambda>e. ke_expires e \<le> T + cacheTTL) (exec u x s)"
  by (rule quiet_exec[OF assms(1,2)]) (use assms(3) in \<open>force simp: row_entry_def\<close>)+

text \<open>
  C33. Expiry bounds a revocation even if the invalidation is missed: a lookup that starts
  five minutes or more after an agent's keys were disabled does not resolve to the agent,
  whatever was cached or under way at the time.
\<close>

theorem revocation_within_ttl:
  assumes "no_new_key a (mid @ post)"
    and "s1 = run u pre (initial db t0)" and "s = run u (Disable a # mid) s1"
    and "s_clock s1 + cacheTTL \<le> s_clock s" and "s' = run u post s"
  shows "\<forall>i. (i, a) \<in> set (s_answered s') \<longrightarrow> i < s_next s"
proof -
  let ?T = "s_clock s1"
  let ?Q = "\<lambda>start. quiet_inv a start (\<lambda>t g. t \<le> ?T) (\<lambda>e. ke_expires e \<le> ?T + cacheTTL)"
  have "base_inv (0 + sum_list (map invalidations pre)) s1"
    unfolding assms(2) by (rule base_inv_run[OF base_inv_initial])
  from quiet_disabled[OF this refl] have "?Q (s_next (exec u (Disable a) s1)) (exec u (Disable a) s1)" by simp
  then have "?Q (s_next s) s"
    unfolding assms(3) run_Cons
  proof (rule run_invariant[where P = "\<lambda>_ s. ?Q (s_next s) s" and f = "\<lambda>_. 0" and n = 0])
    fix x :: action and n and s2 assume x: "x \<in> set mid" and q: "?Q (s_next s2) s2"
    have nn: "no_new_key a [x]" using assms(1) x by (simp add: no_new_key_def)
    show "?Q (s_next (exec u x s2)) (exec u x s2)"
      by (rule quiet_expiring_exec[OF quiet_weaken[OF q] nn]) (simp_all only: exec_next action.case, simp_all)
  qed
  then have "?Q (s_next s) s \<and> ?T + cacheTTL \<le> s_clock s" using assms(4) by simp
  then have "?Q (s_next s) s' \<and> ?T + cacheTTL \<le> s_clock s'"
    unfolding assms(5)
  proof (rule run_invariant[where P = "\<lambda>_ s2. ?Q (s_next s) s2 \<and> ?T + cacheTTL \<le> s_clock s2" and f = "\<lambda>_. 0" and n = 0])
    fix x :: action and n and s2 assume x: "x \<in> set post" and q: "?Q (s_next s) s2 \<and> ?T + cacheTTL \<le> s_clock s2"
    have "no_new_key a [x]" using assms(1) x by (simp add: no_new_key_def)
    with q quiet_expiring_exec[of a "s_next s" ?T s2 x u] run_clock[of s2 u "[x]"]
    show "?Q (s_next s) (exec u x s2) \<and> ?T + cacheTTL \<le> s_clock (exec u x s2)" by auto
  qed
  then show ?thesis by (simp add: quiet_inv_def)
qed

definition expiry_cached :: sys where
  "expiry_cached = run Some [Start ''AK'', Query 0 False, Finish 0] (initial [demo_key] 0)"

definition expiry_before :: sys where
  "expiry_before = run Some (Disable ''a'' # [Tick cacheTTL]) expiry_cached"

definition expiry_after :: sys where
  "expiry_after = run Some [Start ''AK'', Query 1 False, Finish 1] expiry_before"

theorem revocation_within_ttl_witness:
  "(1, ''a'') \<notin> set (s_answered expiry_after) \<and> (0, ''a'') \<in> set (s_answered expiry_after)"
proof -
  have c: "s_clock expiry_cached + cacheTTL \<le> s_clock expiry_before" and n: "s_next expiry_before = 1"
    and o: "(0, ''a'') \<in> set (s_answered expiry_after)"
    by code_simp+
  have "no_new_key ''a'' ([Tick cacheTTL] @ [Start ''AK'', Query 1 False, Finish 1])"
    by (simp add: no_new_key_def)
  from revocation_within_ttl[OF this expiry_cached_def expiry_before_def c expiry_after_def] n o show ?thesis by fastforce
qed

text \<open>
  The cache stays within its size and holds nothing for longer than five minutes: in
  every reachable state it has at most 4096 entries and each expires within the time to
  live, and what the lookup function itself caches or answers comes from an entry that has
  not expired or from an active row of the table whose secret unseals.
\<close>

theorem cache_bounded:
  "length (k_cache (s_keys (run u acts (initial db t0)))) \<le> 4096
   \<and> (\<forall>kid e. (kid, e) \<in> set (k_cache (s_keys (run u acts (initial db t0)))) \<longrightarrow>
        ke_expires e \<le> s_clock (run u acts (initial db t0)) + 5 * minute)
   \<and> (\<forall>now db_err tbl kid k e k'. Lookup u now db_err tbl kid k = (Some e, k') \<longrightarrow>
        map_of (k_cache k) kid = Some e \<and> now < ke_expires e \<and> k' = k
        \<or> (\<exists>row \<in> set tbl. dk_AccessKeyID row = kid \<and> dk_DisabledAt row = None
             \<and> u (dk_SealedSecret row) = Some (ke_secret e) \<and> ke_agentID e = dk_AgentID row
             \<and> ke_prefix e = dk_Prefix row \<and> ke_readOnly e = dk_ReadOnly row))"
proof (intro conjI)
  let ?s = "run u acts (initial db t0)"
  have inv: "base_inv (0 + sum_list (map invalidations acts)) ?s" by (rule base_inv_run[OF base_inv_initial])
  then show "length (k_cache (s_keys ?s)) \<le> 4096" by (simp add: base_inv_def cacheSize_def)
  from inv show "\<forall>kid e. (kid, e) \<in> set (k_cache (s_keys ?s)) \<longrightarrow> ke_expires e \<le> s_clock ?s + 5 * minute"
    unfolding base_inv_def cacheTTL_def by fastforce
  show "\<forall>now db_err tbl kid k e k'. Lookup u now db_err tbl kid k = (Some e, k') \<longrightarrow>
        map_of (k_cache k) kid = Some e \<and> now < ke_expires e \<and> k' = k
        \<or> (\<exists>row \<in> set tbl. dk_AccessKeyID row = kid \<and> dk_DisabledAt row = None
             \<and> u (dk_SealedSecret row) = Some (ke_secret e) \<and> ke_agentID e = dk_AgentID row
             \<and> ke_prefix e = dk_Prefix row \<and> ke_readOnly e = dk_ReadOnly row)"
    by (fastforce simp: Lookup_def lookup_hit_def row_entry_def Let_def dest: lookup_DeviceKey_Some
        split: option.splits if_splits)
qed

theorem cache_bounded_witness:
  "length (k_cache (s_keys (run Some [Start ''AK'', Query 0 False, Finish 0] (initial [demo_key] 0)))) \<le> 4096"
  using cache_bounded[of Some "[Start ''AK'', Query 0 False, Finish 0]" "[demo_key]" 0] by blast

end
