(* ===== verification/Go_Strings.thy ===== *)
theory Go_Strings
  imports Prelude
begin

section \<open>The Go standard library on byte strings\<close>

text \<open>
  The functions of \<^verbatim>\<open>strings\<close>, \<^verbatim>\<open>unicode/utf8\<close>, \<^verbatim>\<open>strconv\<close>, \<^verbatim>\<open>encoding/hex\<close> and
  \<^verbatim>\<open>encoding/base64\<close> that the Fleet sources call, with the lemmas the components use.
  Every separator the sources cut or split at is one byte, so \<^verbatim>\<open>Cut\<close>, \<^verbatim>\<open>Split\<close> and
  \<^verbatim>\<open>Contains\<close> take a character.
\<close>

subsection \<open>Package strings\<close>

definition HasPrefix :: "string \<Rightarrow> string \<Rightarrow> bool" where
  "HasPrefix s p \<longleftrightarrow> take (length p) s = p"

definition HasSuffix :: "string \<Rightarrow> string \<Rightarrow> bool" where
  "HasSuffix s p \<longleftrightarrow> HasPrefix (rev s) (rev p)"

definition TrimPrefix :: "string \<Rightarrow> string \<Rightarrow> string" where
  "TrimPrefix s p = (if HasPrefix s p then drop (length p) s else s)"

definition TrimSuffix :: "string \<Rightarrow> string \<Rightarrow> string" where
  "TrimSuffix s p = (if HasSuffix s p then take (length s - length p) s else s)"

definition CutPrefix :: "string \<Rightarrow> string \<Rightarrow> string \<times> bool" where
  "CutPrefix s p = (if HasPrefix s p then (drop (length p) s, True) else (s, False))"

fun Cut :: "string \<Rightarrow> char \<Rightarrow> string \<times> string \<times> bool" where
  "Cut [] c = ([], [], False)"
| "Cut (x # xs) c =
     (if x = c then ([], xs, True)
      else (case Cut xs c of (a, b, f) \<Rightarrow> (x # a, b, f)))"

fun Split :: "string \<Rightarrow> char \<Rightarrow> string list" where
  "Split [] c = [[]]"
| "Split (x # xs) c =
     (if x = c then [] # Split xs c
      else (case Split xs c of [] \<Rightarrow> [[x]] | p # ps \<Rightarrow> (x # p) # ps))"

definition Contains :: "string \<Rightarrow> char \<Rightarrow> bool" where
  "Contains s c \<longleftrightarrow> c \<in> set s"

fun Join :: "string list \<Rightarrow> string \<Rightarrow> string" where
  "Join [] sep = []"
| "Join [x] sep = x"
| "Join (x # y # ys) sep = x @ sep @ Join (y # ys) sep"

lemma HasPrefix_iff: "HasPrefix s p \<longleftrightarrow> (\<exists>t. s = p @ t)"
proof
  assume "HasPrefix s p"
  then have "s = p @ drop (length p) s"
    by (metis HasPrefix_def append_take_drop_id)
  then show "\<exists>t. s = p @ t" by blast
qed (auto simp: HasPrefix_def)

lemma HasPrefix_simps [simp]:
  "HasPrefix s []"
  "HasPrefix (x # s) (y # p) \<longleftrightarrow> x = y \<and> HasPrefix s p"
  "HasPrefix (p @ s) p"
  "\<not> HasPrefix [] (y # p)"
  by (auto simp: HasPrefix_def)

lemma HasPrefix_refl [simp]: "HasPrefix s s"
  by (simp add: HasPrefix_def)

lemma HasPrefix_trans: "HasPrefix s p \<Longrightarrow> HasPrefix p q \<Longrightarrow> HasPrefix s q"
  by (auto simp: HasPrefix_iff)

lemma HasSuffix_iff: "HasSuffix s p \<longleftrightarrow> (\<exists>t. s = t @ p)"
  unfolding HasSuffix_def HasPrefix_iff
  by (metis rev_append rev_rev_ident)

lemma HasSuffix_append [simp]: "HasSuffix (t @ p) p"
  by (auto simp: HasSuffix_iff)

lemma TrimPrefix_append [simp]: "TrimPrefix (p @ s) p = s"
  by (simp add: TrimPrefix_def)

lemma TrimSuffix_append [simp]: "TrimSuffix (s @ p) p = s"
  by (simp add: TrimSuffix_def)

lemma Cut_notin: "c \<notin> set s \<Longrightarrow> Cut s c = (s, [], False)"
  by (induction s) auto

lemma Cut_append [simp]: "c \<notin> set a \<Longrightarrow> Cut (a @ c # b) c = (a, b, True)"
  by (induction a) auto

lemma Cut_cases:
  obtains (found) a b where "s = a @ c # b" "c \<notin> set a" "Cut s c = (a, b, True)"
  | (absent) "c \<notin> set s" "Cut s c = (s, [], False)"
proof (cases "c \<in> set s")
  case True
  then obtain a b where "s = a @ c # b" "c \<notin> set a"
    by (auto dest: split_list_first)
  then show ?thesis using found by auto
next
  case False
  then show ?thesis using absent Cut_notin by blast
qed

lemma Cut_True: "Cut s c = (a, b, True) \<longleftrightarrow> s = a @ c # b \<and> c \<notin> set a"
proof
  assume "Cut s c = (a, b, True)"
  then show "s = a @ c # b \<and> c \<notin> set a"
    by (cases s c rule: Cut_cases) auto
qed auto

lemma Cut_False: "Cut s c = (a, b, False) \<longleftrightarrow> a = s \<and> b = [] \<and> c \<notin> set s"
  by (cases s c rule: Cut_cases) auto

lemma Split_not_Nil [simp]: "Split s c \<noteq> []"
  by (induction s) (auto split: list.splits)

lemma Split_notin: "c \<notin> set s \<Longrightarrow> Split s c = [s]"
  by (induction s) auto

lemma Split_append: "c \<notin> set a \<Longrightarrow> Split (a @ c # b) c = a # Split b c"
  by (induction a) auto

lemma Split_Join:
  "xs \<noteq> [] \<Longrightarrow> \<forall>x \<in> set xs. c \<notin> set x \<Longrightarrow> Split (Join xs [c]) c = xs"
proof (induction xs "[c]" rule: Join.induct)
  case (3 x y ys)
  then show ?case by (simp add: Split_append)
qed (simp_all add: Split_notin)

lemma Join_Split: "Join (Split s c) [c] = s"
proof (induction s)
  case (Cons x s)
  obtain p ps where ps: "Split s c = p # ps"
    by (metis Split_not_Nil neq_Nil_conv)
  with Cons show ?case
    by (cases ps) auto
qed simp

lemma Split_parts: "p \<in> set (Split s c) \<Longrightarrow> c \<notin> set p \<and> set p \<subseteq> set s"
proof (induction s arbitrary: p)
  case (Cons x s)
  obtain q qs where qs: "Split s c = q # qs"
    by (metis Split_not_Nil neq_Nil_conv)
  from Cons.IH[of q] qs have "c \<notin> set q \<and> set q \<subseteq> set s" by simp
  moreover have "c \<notin> set r \<and> set r \<subseteq> set s" if "r \<in> set qs" for r
    using Cons.IH[of r] qs that by simp
  ultimately show ?case
    using Cons.prems qs by (auto split: if_splits)
qed simp

subsection \<open>Package unicode/utf8 and range loops over strings\<close>

definition byte :: "char \<Rightarrow> nat" where
  "byte c = of_char c"

definition byte_in :: "nat \<Rightarrow> nat \<Rightarrow> char \<Rightarrow> bool" where
  "byte_in lo hi c \<longleftrightarrow> lo \<le> byte c \<and> byte c \<le> hi"

text \<open>
  \<^verbatim>\<open>utf8.DecodeRuneInString\<close>: the code point at the head of the string and its width in
  bytes; \<^const>\<open>None\<close> where Go returns \<^verbatim>\<open>(RuneError, 1)\<close> for an invalid encoding.
\<close>

definition decode_rune :: "string \<Rightarrow> (nat \<times> nat) option" where
  "decode_rune s = (case s of [] \<Rightarrow> None | b0 # t \<Rightarrow>
     let x = byte b0 in
     if x < 0x80 then Some (x, 1)
     else if x < 0xC2 then None
     else if x < 0xE0 then
       (case t of
          b1 # _ \<Rightarrow> if byte_in 0x80 0xBF b1
                    then Some ((x mod 32) * 64 + byte b1 mod 64, 2) else None
        | _ \<Rightarrow> None)
     else if x < 0xF0 then
       (case t of
          b1 # b2 # _ \<Rightarrow>
            if byte_in (if x = 0xE0 then 0xA0 else 0x80) (if x = 0xED then 0x9F else 0xBF) b1
               \<and> byte_in 0x80 0xBF b2
            then Some ((x mod 16) * 4096 + (byte b1 mod 64) * 64 + byte b2 mod 64, 3) else None
        | _ \<Rightarrow> None)
     else if x < 0xF5 then
       (case t of
          b1 # b2 # b3 # _ \<Rightarrow>
            if byte_in (if x = 0xF0 then 0x90 else 0x80) (if x = 0xF4 then 0x8F else 0xBF) b1
               \<and> byte_in 0x80 0xBF b2 \<and> byte_in 0x80 0xBF b3
            then Some ((x mod 8) * 262144 + (byte b1 mod 64) * 4096
                       + (byte b2 mod 64) * 64 + byte b3 mod 64, 4) else None
        | _ \<Rightarrow> None)
     else None)"

lemma decode_rune_width: "decode_rune s = Some (r, w) \<Longrightarrow> 0 < w \<and> w \<le> length s"
  by (auto simp: decode_rune_def Let_def split: list.splits if_splits)

text \<open>
  The code points a \<^verbatim>\<open>range\<close> loop over a string visits, the replacement character for
  each byte that starts no valid encoding, and \<^verbatim>\<open>utf8.ValidString\<close>.
\<close>

function runes :: "string \<Rightarrow> nat list" where
  "runes s = (if s = [] then [] else
     (case decode_rune s of
        None \<Rightarrow> 0xFFFD # runes (drop 1 s)
      | Some (r, w) \<Rightarrow> r # runes (drop w s)))"
  by pat_completeness auto
termination
  by (relation "measure length") (auto dest!: decode_rune_width)

function ValidString :: "string \<Rightarrow> bool" where
  "ValidString s = (if s = [] then True else
     (case decode_rune s of None \<Rightarrow> False | Some (r, w) \<Rightarrow> ValidString (drop w s)))"
  by pat_completeness auto
termination
  by (relation "measure length") (auto dest!: decode_rune_width)

declare runes.simps [simp del] ValidString.simps [simp del]

lemma byte_less: "byte c < 256"
  by (simp add: byte_def)

text \<open>Every byte below \<open>0x80\<close> of a string is a code point of its own.\<close>

lemma decode_rune_ascii:
  assumes "decode_rune s = Some (r, w)" and "c \<in> set (take w s)" and "byte c < 0x80"
  shows "r = byte c"
  using assms
  by (auto simp: decode_rune_def Let_def byte_in_def split: list.splits if_splits)

lemma decode_rune_None_byte: "decode_rune (c # t) = None \<Longrightarrow> 0x80 \<le> byte c"
  by (auto simp: decode_rune_def Let_def split: if_splits)

lemma ascii_in_runes: "c \<in> set s \<Longrightarrow> byte c < 0x80 \<Longrightarrow> byte c \<in> set (runes s)"
proof (induction s rule: runes.induct)
  case (1 s)
  then have ne: "s \<noteq> []" by auto
  show ?case
  proof (cases "decode_rune s")
    case None
    from ne obtain x t where s: "s = x # t" by (cases s) auto
    with None 1 have "c \<noteq> x" using decode_rune_None_byte by fastforce
    with "1.IH"(1)[OF ne None] s "1.prems" have "byte c \<in> set (runes (drop 1 s))" by auto
    with ne None show ?thesis by (subst runes.simps) simp
  next
    case (Some rw)
    obtain r w where rw: "rw = (r, w)" by (cases rw)
    have "c \<in> set (take w s) \<or> c \<in> set (drop w s)"
      using "1.prems"(1) by (metis append_take_drop_id Un_iff set_append)
    then show ?thesis
    proof
      assume "c \<in> set (take w s)"
      with decode_rune_ascii Some rw "1.prems"(2) have "r = byte c" by auto
      with ne Some rw show ?thesis by (subst runes.simps) simp
    next
      assume "c \<in> set (drop w s)"
      with "1.IH"(2)[OF ne Some rw[symmetric]] "1.prems"(2) rw
      have "byte c \<in> set (runes (drop w s))" by simp
      with ne Some rw show ?thesis by (subst runes.simps) simp
    qed
  qed
qed

end
