(* ===== verification/Go_Encoding.thy ===== *)
theory Go_Encoding
  imports Go_Strings
begin

section \<open>The Go standard library: white space, numbers, hex, base64 and URL queries\<close>

text \<open>
  \<^verbatim>\<open>strings.TrimSpace\<close> and \<^verbatim>\<open>strings.Fields\<close>, \<^verbatim>\<open>strconv.ParseInt\<close> and \<^verbatim>\<open>FormatInt\<close>,
  \<^verbatim>\<open>encoding/hex\<close>, \<^verbatim>\<open>encoding/base64\<close> (the padded standard alphabet and the unpadded URL
  alphabet) and the query half of \<^verbatim>\<open>net/url\<close>, with their round trips.
\<close>

subsection \<open>White space\<close>

text \<open>A string as the sequence of its encoded code points, each with its bytes.\<close>

function segments :: "string \<Rightarrow> (nat \<times> string) list" where
  "segments s = (if s = [] then [] else
     (case decode_rune s of
        None \<Rightarrow> (0xFFFD, take 1 s) # segments (drop 1 s)
      | Some (r, w) \<Rightarrow> (r, take w s) # segments (drop w s)))"
  by pat_completeness auto
termination
  by (relation "measure length") (auto dest!: decode_rune_width)

declare segments.simps [simp del]

text \<open>\<^verbatim>\<open>unicode.IsSpace\<close>.\<close>

definition IsSpace :: "nat \<Rightarrow> bool" where
  "IsSpace r \<longleftrightarrow> 9 \<le> r \<and> r \<le> 13 \<or> r \<in> {0x20, 0x85, 0xA0, 0x1680, 0x2028, 0x2029, 0x202F, 0x205F, 0x3000}
     \<or> 0x2000 \<le> r \<and> r \<le> 0x200A"

lemma IsSpace_code [code]:
  "IsSpace r = (let n = int r in 9 \<le> n \<and> n \<le> 13
     \<or> List.member [0x20, 0x85, 0xA0, 0x1680, 0x2028, 0x2029, 0x202F, 0x205F, 0x3000] n \<or> 0x2000 \<le> n \<and> n \<le> 0x200A)"
  by (auto simp: IsSpace_def Let_def)

definition TrimSpace :: "string \<Rightarrow> string" where
  "TrimSpace s =
     concat (map snd (rev (dropWhile (IsSpace \<circ> fst) (rev (dropWhile (IsSpace \<circ> fst) (segments s))))))"

text \<open>\<^verbatim>\<open>strings.Fields\<close>: the maximal runs of code points that are not white space.\<close>

fun fields_acc :: "string \<Rightarrow> (nat \<times> string) list \<Rightarrow> string list" where
  "fields_acc cur [] = (if cur = [] then [] else [cur])"
| "fields_acc cur ((r, b) # segs) =
     (if IsSpace r then (if cur = [] then fields_acc [] segs else cur # fields_acc [] segs)
      else fields_acc (cur @ b) segs)"

definition Fields :: "string \<Rightarrow> string list" where
  "Fields s = fields_acc [] (segments s)"

lemma segments_concat: "concat (map snd (segments s)) = s"
proof (induction s rule: segments.induct)
  case (1 s)
  show ?case
  proof (cases "s = []")
    case True
    then show ?thesis by (simp add: segments.simps)
  next
    case False
    show ?thesis
    proof (cases "decode_rune s")
      case None
      then have "concat (map snd (segments s)) = take 1 s @ drop 1 s"
        using "1.IH"(1)[OF False None] by (subst segments.simps) (simp add: False)
      then show ?thesis by (simp only: append_take_drop_id)
    next
      case (Some rw)
      obtain r w where rw: "(r, w) = rw" by (cases rw) auto
      have "concat (map snd (segments s)) = take w s @ drop w s"
        using "1.IH"(2)[OF False Some rw] Some rw[symmetric] by (subst segments.simps) (simp add: False)
      then show ?thesis by (simp only: append_take_drop_id)
    qed
  qed
qed

text \<open>ASCII text splits into its bytes, so white space can be read off byte by byte.\<close>

lemma segments_ascii:
  "(\<And>c. c \<in> set s \<Longrightarrow> byte c < 128) \<Longrightarrow> segments s = map (\<lambda>c. (byte c, [c])) s"
proof (induction s)
  case Nil
  then show ?case by (simp add: segments.simps)
next
  case (Cons c s)
  have "decode_rune (c # s) = Some (byte c, 1)" using Cons.prems[of c] by (cases s) (simp_all add: decode_rune_def)
  with Cons show ?case by (subst segments.simps) simp
qed

lemma TrimSpace_word:
  assumes "\<And>c. c \<in> set w \<Longrightarrow> byte c < 128 \<and> \<not> IsSpace (byte c)"
  shows "TrimSpace w = w" and "TrimSpace (CHR '' '' # w) = w"
proof -
  have sp: "byte CHR '' '' = 32" by (simp add: byte_def)
  have drop: "dropWhile (IsSpace \<circ> fst) (map (\<lambda>c. (byte c, [c])) v) = map (\<lambda>c. (byte c, [c])) v"
    if "set v \<subseteq> set w" for v
    using that assms by (cases v) auto
  have 1: "segments w = map (\<lambda>c. (byte c, [c])) w" by (rule segments_ascii) (use assms in blast)
  have 2: "segments (CHR '' '' # w) = (32, '' '') # map (\<lambda>c. (byte c, [c])) w"
    by (subst segments_ascii) (use assms sp in auto)
  show "TrimSpace w = w" using drop[of w] drop[of "rev w"] by (simp add: TrimSpace_def 1 o_def flip: rev_map)
  show "TrimSpace (CHR '' '' # w) = w"
    using drop[of w] drop[of "rev w"] by (simp add: TrimSpace_def 2 o_def IsSpace_def flip: rev_map)
qed

subsection \<open>ASCII case\<close>

definition lower_char :: "char \<Rightarrow> char" where
  "lower_char c = (if byte_in 65 90 c then char_of (byte c + 32) else c)"

text \<open>
  \<^verbatim>\<open>strings.ToLower\<close> is applied to HTTP header names, which are ASCII tokens, and
  \<^verbatim>\<open>strings.EqualFold\<close> to constants with no letter that has a case variant outside ASCII.
\<close>

definition ToLower :: "string \<Rightarrow> string" where
  "ToLower s = map lower_char s"

definition EqualFold :: "string \<Rightarrow> string \<Rightarrow> bool" where
  "EqualFold s t \<longleftrightarrow> ToLower s = ToLower t"

subsection \<open>Package strconv\<close>

definition is_digit :: "char \<Rightarrow> bool" where
  "is_digit c \<longleftrightarrow> byte_in 48 57 c"

definition digit_val :: "char \<Rightarrow> nat" where
  "digit_val c = byte c - 48"

definition dec_val :: "string \<Rightarrow> nat option" where
  "dec_val s = (if list_all is_digit s then Some (foldl (\<lambda>n c. 10 * n + digit_val c) 0 s) else None)"

text \<open>\<^verbatim>\<open>strconv.ParseInt(s, 10, 64)\<close>, and \<^verbatim>\<open>strconv.Atoi\<close> on a 64-bit platform.\<close>

definition ParseInt64 :: "string \<Rightarrow> int option" where
  "ParseInt64 s =
     (let neg = HasPrefix s ''-'';
          ds = (if neg \<or> HasPrefix s ''+'' then drop 1 s else s)
      in if ds = [] then None
         else case dec_val ds of
           None \<Rightarrow> None
         | Some n \<Rightarrow> (let v = (if neg then - int n else int n)
                      in if in_int64 v then Some v else None))"

fun dec_digits :: "nat \<Rightarrow> string" where
  "dec_digits n = (if n < 10 then [char_of (48 + n)] else dec_digits (n div 10) @ [char_of (48 + n mod 10)])"

declare dec_digits.simps [simp del]

text \<open>\<^verbatim>\<open>strconv.FormatInt(i, 10)\<close> and \<^verbatim>\<open>strconv.Itoa\<close>.\<close>

definition FormatInt :: "int \<Rightarrow> string" where
  "FormatInt i = (if i < 0 then ''-'' @ dec_digits (nat (- i)) else dec_digits (nat i))"

lemma byte_char_of [simp]: "byte (char_of n) = n mod 256"
  by (simp add: byte_def)

lemma char_of_byte [simp]: "char_of (byte c) = c"
  by (simp add: byte_def)

lemma byte_inject: "byte a = byte b \<longleftrightarrow> a = b"
  by (metis char_of_byte)

lemma ParseInt64_in_range: "ParseInt64 s = Some v \<Longrightarrow> in_int64 v"
  by (auto simp: ParseInt64_def Let_def split: if_splits option.splits)

lemma dec_digits_ne: "dec_digits n \<noteq> []"
  by (subst dec_digits.simps) simp

lemma dec_val_digits: "dec_val (dec_digits n) = Some n"
proof (induction n rule: dec_digits.induct)
  case (1 n)
  show ?case
  proof (cases "n < 10")
    case True
    then show ?thesis
      by (subst dec_digits.simps) (simp add: dec_val_def is_digit_def byte_in_def digit_val_def)
  next
    case False
    with 1 have IH: "dec_val (dec_digits (n div 10)) = Some (n div 10)" by simp
    then show ?thesis
      by (subst dec_digits.simps)
         (use False in \<open>auto simp: dec_val_def is_digit_def byte_in_def digit_val_def split: if_splits\<close>)
  qed
qed

lemma hd_dec_digits: "byte (hd (dec_digits n)) \<ge> 48"
  using dec_val_digits[of n] dec_digits_ne[of n]
  by (cases "dec_digits n") (auto simp: dec_val_def is_digit_def byte_in_def split: if_splits)

lemma dec_digits_no_sign:
  "\<not> HasPrefix (dec_digits n) ''-''" "\<not> HasPrefix (dec_digits n) ''+''"
  using hd_dec_digits[of n] dec_digits_ne[of n]
  by (cases "dec_digits n"; auto simp: byte_def)+

theorem ParseInt_FormatInt: "in_int64 i \<Longrightarrow> ParseInt64 (FormatInt i) = Some i"
  by (auto simp: ParseInt64_def FormatInt_def dec_val_digits dec_digits_ne dec_digits_no_sign Let_def)

subsection \<open>Package encoding/hex\<close>

definition hex_digit :: "nat \<Rightarrow> char" where
  "hex_digit n = (if n < 10 then char_of (48 + n) else char_of (87 + n))"

definition hex_val :: "char \<Rightarrow> nat option" where
  "hex_val c = (if byte_in 48 57 c then Some (byte c - 48)
     else if byte_in 97 102 c then Some (byte c - 87)
     else if byte_in 65 70 c then Some (byte c - 55) else None)"

definition hex_EncodeToString :: "string \<Rightarrow> string" where
  "hex_EncodeToString s = concat (map (\<lambda>c. [hex_digit (byte c div 16), hex_digit (byte c mod 16)]) s)"

fun hex_DecodeString :: "string \<Rightarrow> string option" where
  "hex_DecodeString [] = Some []"
| "hex_DecodeString [a] = None"
| "hex_DecodeString (a # b # r) =
     (case (hex_val a, hex_val b, hex_DecodeString r) of
        (Some x, Some y, Some t) \<Rightarrow> Some (char_of (16 * x + y) # t) | _ \<Rightarrow> None)"

lemma hex_val_digit: "n < 16 \<Longrightarrow> hex_val (hex_digit n) = Some n"
  by (auto simp: hex_val_def hex_digit_def byte_in_def)

lemma hex_round_trip: "hex_DecodeString (hex_EncodeToString s) = Some s"
proof (induction s)
  case (Cons c s)
  have "byte c div 16 < 16" using byte_less[of c] by (simp add: less_mult_imp_div_less)
  then show ?case
    using Cons by (simp add: hex_EncodeToString_def hex_val_digit)
qed (simp add: hex_EncodeToString_def)

lemma length_hex [simp]: "length (hex_EncodeToString s) = 2 * length s"
  by (induction s) (auto simp: hex_EncodeToString_def)

subsection \<open>Package encoding/base64\<close>

text \<open>The two alphabets differ in the characters of 62 and 63: \<^verbatim>\<open>+/\<close> and \<^verbatim>\<open>-_\<close>.\<close>

definition b64_char :: "char \<times> char \<Rightarrow> nat \<Rightarrow> char" where
  "b64_char al n = (if n < 26 then char_of (65 + n) else if n < 52 then char_of (71 + n)
     else if n < 62 then char_of (n - 4) else if n = 62 then fst al else snd al)"

definition b64_val :: "char \<times> char \<Rightarrow> char \<Rightarrow> nat option" where
  "b64_val al c = (if byte_in 65 90 c then Some (byte c - 65)
     else if byte_in 97 122 c then Some (byte c - 71)
     else if byte_in 48 57 c then Some (byte c + 4)
     else if c = fst al then Some 62 else if c = snd al then Some 63 else None)"

definition std_alphabet :: "char \<times> char" where "std_alphabet = (CHR ''+'', CHR ''/'')"
definition url_alphabet :: "char \<times> char" where "url_alphabet = (CHR ''-'', CHR ''_'')"

fun b64_encode_raw :: "char \<times> char \<Rightarrow> string \<Rightarrow> string" where
  "b64_encode_raw al [] = []"
| "b64_encode_raw al [a] = [b64_char al (byte a div 4), b64_char al (byte a mod 4 * 16)]"
| "b64_encode_raw al [a, b] =
     [b64_char al (byte a div 4), b64_char al (byte a mod 4 * 16 + byte b div 16),
      b64_char al (byte b mod 16 * 4)]"
| "b64_encode_raw al (a # b # c # r) =
     [b64_char al (byte a div 4), b64_char al (byte a mod 4 * 16 + byte b div 16),
      b64_char al (byte b mod 16 * 4 + byte c div 64), b64_char al (byte c mod 64)]
     @ b64_encode_raw al r"

text \<open>The decoders skip carriage returns and newlines wherever they stand.\<close>

definition strip_newlines :: "string \<Rightarrow> string" where
  "strip_newlines s = filter (\<lambda>c. byte c \<noteq> 10 \<and> byte c \<noteq> 13) s"

definition b64_1 :: "nat \<Rightarrow> nat \<Rightarrow> char" where "b64_1 x y = char_of (x * 4 + y div 16)"
definition b64_2 :: "nat \<Rightarrow> nat \<Rightarrow> char" where "b64_2 y z = char_of (y mod 16 * 16 + z div 4)"
definition b64_3 :: "nat \<Rightarrow> nat \<Rightarrow> char" where "b64_3 z w = char_of (z mod 4 * 64 + w)"

fun b64_decode_raw :: "char \<times> char \<Rightarrow> string \<Rightarrow> string option" where
  "b64_decode_raw al [] = Some []"
| "b64_decode_raw al [a] = None"
| "b64_decode_raw al [a, b] =
     (case (b64_val al a, b64_val al b) of (Some x, Some y) \<Rightarrow> Some [b64_1 x y] | _ \<Rightarrow> None)"
| "b64_decode_raw al [a, b, c] =
     (case (b64_val al a, b64_val al b, b64_val al c) of
        (Some x, Some y, Some z) \<Rightarrow> Some [b64_1 x y, b64_2 y z] | _ \<Rightarrow> None)"
| "b64_decode_raw al (a # b # c # d # r) =
     (case (b64_val al a, b64_val al b, b64_val al c, b64_val al d, b64_decode_raw al r) of
        (Some x, Some y, Some z, Some w, Some t) \<Rightarrow> Some (b64_1 x y # b64_2 y z # b64_3 z w # t)
      | _ \<Rightarrow> None)"

fun b64_decode_padded :: "char \<times> char \<Rightarrow> string \<Rightarrow> string option" where
  "b64_decode_padded al [] = Some []"
| "b64_decode_padded al (a # b # c # d # r) =
     (if d = CHR ''='' then
        (if r \<noteq> [] then None
         else if c = CHR ''='' then b64_decode_raw al [a, b]
         else b64_decode_raw al [a, b, c])
      else case (b64_decode_raw al [a, b, c, d], b64_decode_padded al r) of
        (Some q, Some t) \<Rightarrow> Some (q @ t) | _ \<Rightarrow> None)"
| "b64_decode_padded al _ = None"

definition RawURLEncoding_EncodeToString :: "string \<Rightarrow> string" where
  "RawURLEncoding_EncodeToString s = b64_encode_raw url_alphabet s"

definition RawURLEncoding_DecodeString :: "string \<Rightarrow> string option" where
  "RawURLEncoding_DecodeString s = b64_decode_raw url_alphabet (strip_newlines s)"

definition StdEncoding_DecodeString :: "string \<Rightarrow> string option" where
  "StdEncoding_DecodeString s = b64_decode_padded std_alphabet (strip_newlines s)"

lemma b64_val_char: "n < 64 \<Longrightarrow> b64_val url_alphabet (b64_char url_alphabet n) = Some n"
  by (auto simp: b64_val_def b64_char_def url_alphabet_def byte_in_def byte_def)

lemma b64_char_no_newline:
  "n < 64 \<Longrightarrow> byte (b64_char url_alphabet n) \<noteq> 10 \<and> byte (b64_char url_alphabet n) \<noteq> 13"
  by (auto simp: b64_char_def url_alphabet_def) (simp_all add: byte_def)

lemma div_mod_split: "(y::nat) < m \<Longrightarrow> (x * m + y) div m = x" "(y::nat) < m \<Longrightarrow> (x * m + y) mod m = y"
  by auto

lemma byte_div: "byte a div 4 < 64" "byte a div 16 < 16" "byte a div 64 < 4"
  using byte_less[of a] by (simp_all add: less_mult_imp_div_less)

lemma b64_sum_bounds:
  "(x::nat) < 4 \<Longrightarrow> y < 16 \<Longrightarrow> x * 16 + y < 64" "(x::nat) < 16 \<Longrightarrow> z < 4 \<Longrightarrow> x * 4 + z < 64"
  by simp_all

lemma b64_group_bounds:
  "byte a div 4 < 64" "byte a mod 4 * 16 < 64" "byte a mod 4 * 16 + byte b div 16 < 64"
  "byte b mod 16 * 4 < 64" "byte b mod 16 * 4 + byte c div 64 < 64" "byte c mod 64 < 64"
proof -
  have m: "byte a mod 4 < 4" "byte b mod 16 < 16" by simp_all
  show "byte a div 4 < 64" by (rule byte_div)
  show "byte a mod 4 * 16 < 64" using b64_sum_bounds(1)[OF m(1), of 0] by simp
  show "byte b mod 16 * 4 < 64" using b64_sum_bounds(2)[OF m(2), of 0] by simp
  show "byte a mod 4 * 16 + byte b div 16 < 64" by (rule b64_sum_bounds(1)[OF m(1) byte_div(2)])
  show "byte b mod 16 * 4 + byte c div 64 < 64" by (rule b64_sum_bounds(2)[OF m(2) byte_div(3)])
  show "byte c mod 64 < 64" by simp
qed

lemma b64_1_inverse:
  "b64_1 (byte a div 4) (byte a mod 4 * 16) = a"
  "b64_1 (byte a div 4) (byte a mod 4 * 16 + byte b div 16) = a"
  unfolding b64_1_def by (simp_all only: div_mod_split(1)[OF byte_div(2)] nonzero_mult_div_cancel_right
      div_mult_mod_eq char_of_byte numeral_eq_iff not_False_eq_True zero_neq_numeral simp_thms numeral_neq_zero)

lemma b64_2_inverse:
  "b64_2 (byte a mod 4 * 16 + byte b div 16) (byte b mod 16 * 4) = b"
  "b64_2 (byte a mod 4 * 16 + byte b div 16) (byte b mod 16 * 4 + byte c div 64) = b"
  unfolding b64_2_def
  by (simp_all only: div_mod_split(2)[OF byte_div(2)] div_mod_split(1)[OF byte_div(3)]
      nonzero_mult_div_cancel_right div_mult_mod_eq char_of_byte numeral_neq_zero not_False_eq_True simp_thms)

lemma b64_3_inverse: "b64_3 (byte b mod 16 * 4 + byte c div 64) (byte c mod 64) = c"
  unfolding b64_3_def
  by (simp only: div_mod_split(2)[OF byte_div(3)] div_mult_mod_eq char_of_byte)

lemmas b64_group_inverse = b64_1_inverse b64_2_inverse b64_3_inverse

lemma b64_raw_round_trip: "b64_decode_raw url_alphabet (b64_encode_raw url_alphabet s) = Some s"
  by (induction url_alphabet s rule: b64_encode_raw.induct)
     (simp_all add: b64_val_char b64_group_bounds b64_group_inverse)

lemma strip_newlines_encode: "strip_newlines (b64_encode_raw url_alphabet s) = b64_encode_raw url_alphabet s"
  by (induction url_alphabet s rule: b64_encode_raw.induct)
     (simp_all add: strip_newlines_def b64_char_no_newline b64_group_bounds)

lemma RawURL_round_trip: "RawURLEncoding_DecodeString (RawURLEncoding_EncodeToString s) = Some s"
  by (simp add: RawURLEncoding_DecodeString_def RawURLEncoding_EncodeToString_def
      strip_newlines_encode b64_raw_round_trip)

subsection \<open>Package net/url: query strings\<close>

definition unreserved :: "char \<Rightarrow> bool" where
  "unreserved c \<longleftrightarrow> byte_in 97 122 c \<or> byte_in 65 90 c \<or> byte_in 48 57 c \<or> c \<in> {CHR ''-'', CHR ''_'', CHR ''.'', CHR ''~''}"

definition upper_hex :: "nat \<Rightarrow> char" where
  "upper_hex n = (if n < 10 then char_of (48 + n) else char_of (55 + n))"

definition escape_char :: "char \<Rightarrow> string" where
  "escape_char c = (if unreserved c then [c] else if c = CHR '' '' then ''+''
     else [CHR ''%'', upper_hex (byte c div 16), upper_hex (byte c mod 16)])"

definition QueryEscape :: "string \<Rightarrow> string" where
  "QueryEscape s = concat (map escape_char s)"

fun QueryUnescape :: "string \<Rightarrow> string option" where
  "QueryUnescape [] = Some []"
| "QueryUnescape (c # r) =
     (if c = CHR ''%'' then
        (case r of
           a # b # t \<Rightarrow> (case (hex_val a, hex_val b, QueryUnescape t) of
              (Some x, Some y, Some u) \<Rightarrow> Some (char_of (16 * x + y) # u) | _ \<Rightarrow> None)
         | _ \<Rightarrow> None)
      else map_option ((#) (if c = CHR ''+'' then CHR '' '' else c)) (QueryUnescape r))"

text \<open>A parsed query: the pairs in the order of the query string.\<close>

type_synonym url_values = "(string \<times> string) list"

text \<open>
  \<^verbatim>\<open>url.ParseQuery\<close>: \<^const>\<open>None\<close> where it returns an error (a key with a semicolon, or an
  escape that does not decode, in any of the pairs).
\<close>

fun parse_pairs :: "string list \<Rightarrow> url_values option" where
  "parse_pairs [] = Some []"
| "parse_pairs (p # ps) =
     (if p = [] then parse_pairs ps
      else if Contains p CHR '';'' then None
      else (case Cut p CHR ''='' of (k, v, _) \<Rightarrow>
        (case (QueryUnescape k, QueryUnescape v, parse_pairs ps) of
           (Some k', Some v', Some q) \<Rightarrow> Some ((k', v') # q) | _ \<Rightarrow> None)))"

definition ParseQuery :: "string \<Rightarrow> url_values option" where
  "ParseQuery s = parse_pairs (Split s CHR ''&'')"

text \<open>\<^verbatim>\<open>Values.Get\<close>, key presence, and \<^verbatim>\<open>Values.Encode\<close>.\<close>

definition query_Get :: "url_values \<Rightarrow> string \<Rightarrow> string" where
  "query_Get q k = (case map_of q k of None \<Rightarrow> [] | Some v \<Rightarrow> v)"

definition query_has :: "url_values \<Rightarrow> string \<Rightarrow> bool" where
  "query_has q k \<longleftrightarrow> k \<in> fst ` set q"

definition query_Encode :: "url_values \<Rightarrow> string" where
  "query_Encode q = Join
     (concat (map (\<lambda>k. map (\<lambda>(k', v). QueryEscape k' @ ''='' @ QueryEscape v) (filter (\<lambda>(k', v). k' = k) q))
                  (sort (remdups (map fst q))))) ''&''"

lemma upper_hex_val: "n < 16 \<Longrightarrow> hex_val (upper_hex n) = Some n"
  by (auto simp: hex_val_def upper_hex_def byte_in_def)

lemma unreserved_plain: "unreserved c \<Longrightarrow> c \<noteq> CHR ''%'' \<and> c \<noteq> CHR ''+''"
  by (auto simp: unreserved_def byte_in_def byte_def)

lemma unescape_escape_char:
  "QueryUnescape (escape_char c @ r) = map_option ((#) c) (QueryUnescape r)"
proof (cases "unreserved c \<or> c = CHR '' ''")
  case True
  then show ?thesis
    by (auto simp: escape_char_def unreserved_plain)
next
  case False
  have "char_of (16 * (byte c div 16) + byte c mod 16) = c"
    by (simp only: mult_div_mod_eq char_of_byte)
  with False show ?thesis
    by (auto simp: escape_char_def upper_hex_val byte_div split: option.splits)
qed

lemma QueryUnescape_QueryEscape: "QueryUnescape (QueryEscape s) = Some s"
proof (induction s)
  case (Cons c s)
  then show ?case by (simp add: QueryEscape_def unescape_escape_char)
qed (simp add: QueryEscape_def)

lemma hex_digit_byte: "n < 16 \<Longrightarrow> byte (hex_digit n) \<in> {48..57} \<union> {97..102}"
  by (auto simp: hex_digit_def)

lemma hex_bytes:
  assumes "c \<in> set (hex_EncodeToString s)"
  shows "byte c < 128" and "\<not> IsSpace (byte c)"
proof -
  from assms obtain a where "c = hex_digit (byte a div 16) \<or> c = hex_digit (byte a mod 16)"
    by (auto simp: hex_EncodeToString_def)
  then have "byte c \<in> {48..57} \<union> {97..102}" using hex_digit_byte[of "byte a div 16"] hex_digit_byte[of "byte a mod 16"] byte_div(2)[of a] by auto
  then show "byte c < 128" "\<not> IsSpace (byte c)" by (auto simp: IsSpace_def)
qed

end
