(* ===== verification/Seal.thy ===== *)
theory Seal
  imports Go_Encoding
begin

section \<open>Sealed secrets and key files\<close>

text \<open>
  Models \<^verbatim>\<open>src/fleet/seal/seal.go\<close>. The cipher is NaCl secretbox, a third-party package: its
  two functions are the parameters \<open>sb_seal\<close> and \<open>sb_open\<close> (message, nonce, key). What the
  code relies on is its documented behaviour: a box is 16 bytes longer than its message, and
  opening a box with the nonce and key it was sealed with gives the message back. Random
  nonces are arguments. A key file is its contents.
\<close>

definition nonceSize :: nat where "nonceSize = 24"

definition secretbox_Overhead :: nat where "secretbox_Overhead = 16"

definition key_len :: nat where "key_len = 32"

definition Key_Seal :: "(string \<Rightarrow> string \<Rightarrow> string \<Rightarrow> string) \<Rightarrow> string \<Rightarrow> string option \<Rightarrow> string \<Rightarrow> string option" where
  "Key_Seal sb_seal k nonce plain = (case nonce of
     None \<Rightarrow> None
   | Some n \<Rightarrow> Some (n @ sb_seal plain n k))"

definition Key_Open :: "(string \<Rightarrow> string \<Rightarrow> string \<Rightarrow> string option) \<Rightarrow> string \<Rightarrow> string \<Rightarrow> string option" where
  "Key_Open sb_open k sealed =
     (if length sealed < nonceSize + secretbox_Overhead then None
      else sb_open (drop nonceSize sealed) (take nonceSize sealed) k)"

definition WriteKeyFile :: "string \<Rightarrow> string" where
  "WriteKeyFile k = hex_EncodeToString k @ [CHR 0x0A]"

definition WritePendingKeyFile :: "string \<Rightarrow> string \<Rightarrow> string" where
  "WritePendingKeyFile k salt = hex_EncodeToString k @ '' '' @ hex_EncodeToString salt @ [CHR 0x0A]"

text \<open>Reading: the key and the salt, where no salt is the empty string.\<close>

definition readKeyFile :: "string \<Rightarrow> (string \<times> string) option" where
  "readKeyFile b =
     (let fields = Fields b in
      if length fields = 0 \<or> length fields > 2 then None
      else case hex_DecodeString (fields ! 0) of
        None \<Rightarrow> None
      | Some raw \<Rightarrow>
          if length raw \<noteq> key_len then None
          else if length fields = 1 then Some (raw, [])
          else (case hex_DecodeString (fields ! 1) of
                  None \<Rightarrow> None
                | Some salt \<Rightarrow> if length salt = 0 then None else Some (raw, salt)))"

definition ReadKeyFile :: "string \<Rightarrow> string option" where
  "ReadKeyFile b = map_option fst (readKeyFile b)"

definition ReadPendingKeyFile :: "string \<Rightarrow> (string \<times> string) option" where
  "ReadPendingKeyFile b = (case readKeyFile b of
     None \<Rightarrow> None
   | Some (k, salt) \<Rightarrow> if length salt = 0 then None else Some (k, salt))"

subsection \<open>Round trips\<close>

lemma fields_word:
  "(\<And>c. c \<in> set w \<Longrightarrow> \<not> IsSpace (byte c)) \<Longrightarrow>
   fields_acc cur (map (\<lambda>c. (byte c, [c])) w @ segs) = fields_acc (cur @ w) segs"
  by (induction w arbitrary: cur) auto

lemma Fields_hex_line: "s \<noteq> [] \<Longrightarrow> Fields (hex_EncodeToString s @ [CHR 0x0A]) = [hex_EncodeToString s]"
proof -
  assume "s \<noteq> []"
  then have ne: "hex_EncodeToString s \<noteq> []" by (cases s) (simp_all add: hex_EncodeToString_def)
  have "segments (hex_EncodeToString s @ [CHR 0x0A]) = map (\<lambda>c. (byte c, [c])) (hex_EncodeToString s @ [CHR 0x0A])"
    by (rule segments_ascii) (auto dest: hex_bytes simp: byte_def)
  with ne show ?thesis by (simp add: Fields_def fields_word hex_bytes) (simp add: IsSpace_def byte_def)
qed

lemma Fields_hex_pair:
  "s \<noteq> [] \<Longrightarrow> t \<noteq> [] \<Longrightarrow> Fields (hex_EncodeToString s @ '' '' @ hex_EncodeToString t @ [CHR 0x0A]) =
     [hex_EncodeToString s, hex_EncodeToString t]"
proof -
  assume "s \<noteq> []" "t \<noteq> []"
  then have ne: "hex_EncodeToString s \<noteq> []" "hex_EncodeToString t \<noteq> []"
    by (cases s; cases t; simp add: hex_EncodeToString_def)+
  have "segments (hex_EncodeToString s @ '' '' @ hex_EncodeToString t @ [CHR 0x0A]) =
      map (\<lambda>c. (byte c, [c])) (hex_EncodeToString s @ '' '' @ hex_EncodeToString t @ [CHR 0x0A])"
    by (rule segments_ascii) (auto dest: hex_bytes simp: byte_def)
  with ne show ?thesis by (simp add: Fields_def fields_word hex_bytes) (simp add: IsSpace_def byte_def fields_word hex_bytes)
qed

lemma readKeyFile_key: "length k = key_len \<Longrightarrow> readKeyFile (WriteKeyFile k) = Some (k, [])"
proof -
  assume k: "length k = key_len"
  then have "k \<noteq> []" by (auto simp: key_len_def)
  then show ?thesis using k Fields_hex_line[of k] by (simp add: readKeyFile_def WriteKeyFile_def hex_round_trip)
qed

lemma readKeyFile_pending:
  assumes "length k = key_len" and "salt \<noteq> []"
  shows "readKeyFile (WritePendingKeyFile k salt) = Some (k, salt)"
proof -
  have "k \<noteq> []" using assms(1) by (auto simp: key_len_def)
  then show ?thesis using assms Fields_hex_pair[of k salt]
    by (simp add: readKeyFile_def WritePendingKeyFile_def hex_round_trip)
qed

lemma Key_Open_Seal:
  assumes "\<And>m n key. length n = nonceSize \<Longrightarrow> sb_open (sb_seal m n key) n key = Some m"
    and "\<And>m n key. length (sb_seal m n key) = length m + secretbox_Overhead"
    and "length nonce = nonceSize" and "Key_Seal sb_seal k (Some nonce) plain = Some sealed"
  shows "Key_Open sb_open k sealed = Some plain" "length sealed = nonceSize + secretbox_Overhead + length plain"
proof -
  have s: "sealed = nonce @ sb_seal plain nonce k" using assms(4) by (simp add: Key_Seal_def)
  with assms(1-3) show "Key_Open sb_open k sealed = Some plain" "length sealed = nonceSize + secretbox_Overhead + length plain"
    by (auto simp: Key_Open_def)
qed

text \<open>
  Both key files read back: a key file gives the key, a rotation's pending key file
  gives the key and its salt, the pending file also reads as a plain key file once it is
  renamed over the live one, and an untagged file is never taken for a pending one.
\<close>

theorem key_file_round_trip:
  assumes "length k = key_len" and "salt \<noteq> []"
  shows "ReadKeyFile (WriteKeyFile k) = Some k
    \<and> ReadPendingKeyFile (WritePendingKeyFile k salt) = Some (k, salt)
    \<and> ReadKeyFile (WritePendingKeyFile k salt) = Some k
    \<and> ReadPendingKeyFile (WriteKeyFile k) = None"
  using readKeyFile_key[OF assms(1)] readKeyFile_pending[OF assms] assms(2)
  by (simp add: ReadKeyFile_def ReadPendingKeyFile_def)

theorem key_file_round_trip_witness:
  "ReadPendingKeyFile (WritePendingKeyFile (replicate 32 CHR 0xAB) ''salt'') = Some (replicate 32 CHR 0xAB, ''salt'')"
  using key_file_round_trip[of "replicate 32 CHR 0xAB" "''salt''"] by (simp add: key_len_def)

text \<open>
  A sealed secret opens to the secret that was sealed, under the key it was sealed
  with, and data too short to hold a nonce and a box is refused before the cipher sees it.
\<close>

theorem seal_round_trip:
  assumes "\<And>m n key. length n = nonceSize \<Longrightarrow> sb_open (sb_seal m n key) n key = Some m"
    and "\<And>m n key. length (sb_seal m n key) = length m + secretbox_Overhead"
    and "length nonce = nonceSize" and "Key_Seal sb_seal k (Some nonce) plain = Some sealed"
  shows "Key_Open sb_open k sealed = Some plain \<and> length sealed = nonceSize + secretbox_Overhead + length plain
    \<and> (\<forall>m. m < nonceSize + secretbox_Overhead \<longrightarrow> Key_Open sb_open k (take m sealed) = None)"
  using Key_Open_Seal[OF assms] by (auto simp: Key_Open_def)

definition toy_seal :: "string \<Rightarrow> string \<Rightarrow> string \<Rightarrow> string" where
  "toy_seal m n k = replicate 16 CHR ''.'' @ m"

definition toy_open :: "string \<Rightarrow> string \<Rightarrow> string \<Rightarrow> string option" where
  "toy_open b n k = Some (drop 16 b)"

theorem seal_round_trip_witness:
  "Key_Open toy_open ''k'' (the (Key_Seal toy_seal ''k'' (Some (replicate 24 CHR ''n'')) ''secret'')) = Some ''secret''"
proof -
  have "Key_Seal toy_seal ''k'' (Some (replicate 24 CHR ''n'')) ''secret'' =
      Some (replicate 24 CHR ''n'' @ toy_seal ''secret'' (replicate 24 CHR ''n'') ''k'')"
    by (simp add: Key_Seal_def)
  from seal_round_trip[of toy_open toy_seal, OF _ _ _ this] show ?thesis
    by (simp add: toy_seal_def toy_open_def nonceSize_def secretbox_Overhead_def Key_Seal_def)
qed

end
