(* ===== verification/Object_Keys.thy ===== *)
theory Object_Keys
  imports Go_Encoding
begin

section \<open>Object keys: the storage boundary\<close>

text \<open>
  Models \<^verbatim>\<open>src/fleet/gateway/object.go\<close>: the object metadata, the error values of the
  package, and the two validators every key crosses before a backend sees it. An error
  returned by the Go code is represented by the sentinel it wraps, which is all its
  callers test for; \<open>ErrOther\<close> is any error that wraps none of the sentinels.
\<close>

datatype gw_error =
  ErrExists | ErrNotFound | ErrRange | ErrBadKey | ErrTooLarge | ErrIncompleteBody
| errBadDigest | ErrOther

record ObjectInfo =
  oi_Key :: string
  oi_Size :: int
  oi_ETag :: string
  oi_LastModified :: gotime

definition MaxKeyLen :: nat where "MaxKeyLen = 1024"

definition tmpDir :: string where "tmpDir = ''.tmp''"

definition forbidden_rune :: "nat \<Rightarrow> bool" where
  "forbidden_rune r \<longleftrightarrow> r < 0x20 \<or> r = 0x7f \<or> (r \<ge> 0x80 \<and> r \<le> 0x9f) \<or> r = 0x5c"

definition relative_segment :: "string \<Rightarrow> bool" where
  "relative_segment seg \<longleftrightarrow> seg = [] \<or> seg = ''.'' \<or> seg = ''..''"

definition checkKey :: "string \<Rightarrow> gw_error option" where
  "checkKey key =
     (if key = [] then Some ErrBadKey
      else if length key > MaxKeyLen then Some ErrBadKey
      else if hd key = CHR ''/'' then Some ErrBadKey
      else if \<not> ValidString key then Some ErrBadKey
      else if list_ex forbidden_rune (runes key) then Some ErrBadKey
      else (case Cut key CHR ''/'' of (device, name, found) \<Rightarrow>
        if \<not> found \<or> Contains name CHR ''/'' then Some ErrBadKey
        else if list_ex relative_segment [device, name] then Some ErrBadKey
        else if device = tmpDir then Some ErrBadKey
        else None))"

definition NormalizeKey :: "string \<Rightarrow> string \<Rightarrow> gw_error + string" where
  "NormalizeKey key prefix =
     (case checkKey key of
        Some err \<Rightarrow> Inl err
      | None \<Rightarrow>
          if prefix \<noteq> [] \<and> \<not> HasSuffix prefix ''/'' then Inl ErrBadKey
          else if prefix \<noteq> [] \<and> TrimSuffix prefix ''/'' = tmpDir then Inl ErrBadKey
          else if \<not> HasPrefix key prefix then Inl ErrBadKey
          else Inr key)"

subsection \<open>What an accepted key looks like\<close>

text \<open>
  A key's two parts, and the property the file system relies on: both are proper names,
  and the first is not the staging directory.
\<close>

definition proper_name :: "string \<Rightarrow> bool" where
  "proper_name n \<longleftrightarrow> \<not> relative_segment n \<and> CHR ''/'' \<notin> set n"

lemma checkKey_error: "checkKey key = Some e \<Longrightarrow> e = ErrBadKey"
  by (auto simp: checkKey_def split: if_splits prod.splits)

lemma checkKey_split:
  assumes "checkKey key = None"
  obtains d n where "key = d @ CHR ''/'' # n" "Cut key CHR ''/'' = (d, n, True)"
    "proper_name d" "proper_name n" "d \<noteq> tmpDir"
proof -
  obtain d n f where c: "Cut key CHR ''/'' = (d, n, f)" by (metis prod_cases3)
  with assms have f: "f" "\<not> Contains n CHR ''/''" "\<not> relative_segment d" "\<not> relative_segment n" "d \<noteq> tmpDir"
    by (auto simp: checkKey_def split: if_splits)
  with c have "key = d @ CHR ''/'' # n \<and> CHR ''/'' \<notin> set d" by (auto simp: Cut_True)
  with f c that show ?thesis by (auto simp: proper_name_def Contains_def)
qed

lemma checkKey_bytes:
  assumes "checkKey key = None" and "c \<in> set key"
  shows "0x20 \<le> byte c \<and> byte c \<noteq> 0x7f \<and> c \<noteq> CHR 0x5C"
proof (rule ccontr)
  assume "\<not> ?thesis"
  then have b: "byte c < 0x20 \<or> byte c = 0x7f \<or> byte c = 0x5c" by (auto simp: byte_def)
  then have "byte c < 0x80" by auto
  from ascii_in_runes[OF assms(2) this] b have "list_ex forbidden_rune (runes key)"
    by (auto simp: list_ex_iff forbidden_rune_def)
  with assms(1) show False by (simp add: checkKey_def split: if_splits)
qed

lemma checkKey_length: "checkKey key = None \<Longrightarrow> length key \<le> MaxKeyLen"
  by (simp add: checkKey_def split: if_splits)

lemma NormalizeKey_Inr:
  "NormalizeKey key prefix = Inr k \<Longrightarrow> k = key \<and> checkKey key = None \<and> HasPrefix key prefix"
  by (auto simp: NormalizeKey_def split: option.splits if_splits)

lemma NormalizeKey_Inl: "NormalizeKey key prefix = Inl e \<Longrightarrow> e = ErrBadKey"
  by (auto simp: NormalizeKey_def dest: checkKey_error split: option.splits if_splits)

text \<open>
  Slash-terminated prefixes of different devices are disjoint, which is what makes a
  prefix test an isolation boundary.
\<close>

lemma device_prefix_Cut:
  "CHR ''/'' \<notin> set a \<Longrightarrow> HasPrefix key (a @ ''/'') \<Longrightarrow> fst (Cut key CHR ''/'') = a"
  by (auto simp: HasPrefix_iff)

lemma device_prefixes_disjoint:
  "CHR ''/'' \<notin> set a \<Longrightarrow> CHR ''/'' \<notin> set b \<Longrightarrow> a \<noteq> b \<Longrightarrow>
   HasPrefix key (a @ ''/'') \<Longrightarrow> \<not> HasPrefix key (b @ ''/'')"
  using device_prefix_Cut by blast

text \<open>
  C32. NormalizeKey never rewrites: an accepted key is returned unchanged, lies under the
  prefix, is at most 1024 bytes long, has no control byte, DEL or backslash, and is exactly
  one directory name and one file name, neither of them empty, ``.'' or ``..'', and the
  directory is not the reserved staging directory. So a key can name nothing outside the
  device directories of the store.
\<close>

theorem NormalizeKey_confined:
  assumes "NormalizeKey key prefix = Inr k"
  shows "k = key \<and> HasPrefix key prefix \<and> length key \<le> MaxKeyLen
    \<and> (\<forall>c. c \<in> set key \<longrightarrow> 0x20 \<le> byte c \<and> byte c \<noteq> 0x7f \<and> c \<noteq> CHR 0x5C)
    \<and> (\<exists>d n. key = d @ ''/'' @ n \<and> proper_name d \<and> proper_name n \<and> d \<noteq> tmpDir)"
proof -
  from NormalizeKey_Inr[OF assms] have k: "k = key" "checkKey key = None" "HasPrefix key prefix" by auto
  from k(2) obtain d n where "key = d @ CHR ''/'' # n" "proper_name d" "proper_name n" "d \<noteq> tmpDir"
    by (rule checkKey_split)
  then have "\<exists>d n. key = d @ ''/'' @ n \<and> proper_name d \<and> proper_name n \<and> d \<noteq> tmpDir" by auto
  with k checkKey_bytes[OF k(2)] checkKey_length[OF k(2)] show ?thesis by blast
qed

lemma checkKey_example: "checkKey ''dev1/s0123456789abcdef'' = None"
  by code_simp

theorem NormalizeKey_confined_witness:
  "NormalizeKey ''dev1/s0123456789abcdef'' ''dev1/'' = Inr ''dev1/s0123456789abcdef''
   \<and> HasPrefix ''dev1/s0123456789abcdef'' ''dev1/''
   \<and> length ''dev1/s0123456789abcdef'' \<le> MaxKeyLen"
proof -
  have h: "NormalizeKey ''dev1/s0123456789abcdef'' ''dev1/'' = Inr ''dev1/s0123456789abcdef''"
    by code_simp
  from NormalizeKey_confined[OF h] h show ?thesis by blast
qed

end
