(* ===== verification/Object_Store.thy ===== *)
theory Object_Store
  imports Object_Keys
begin

section \<open>The ObjectStore interface\<close>

text \<open>
  Models the interface \<^verbatim>\<open>ObjectStore\<close> of \<^verbatim>\<open>src/fleet/gateway/object.go\<close>: a record of the
  operations over a backend's state \<open>'s\<close>. Each operation also takes a value of type \<open>'e\<close>,
  everything the outside world decides during that one call: cancellation of the context,
  failing system calls, the clock, the name of a temporary file. The locale
  \<open>object_store_contract\<close> states what the interface promises, over the abstraction \<open>objs\<close>
  of a state to the map from keys to bytes; the backends interpret it and the clients
  (the HTTP handler, the blob adapter, the mirror job) rest on it alone.
\<close>

subsection \<open>Readers\<close>

text \<open>
  An \<^verbatim>\<open>io.Reader\<close> that is read to its end: the bytes it delivers, and how it ends,
  \<^const>\<open>None\<close> for \<^verbatim>\<open>io.EOF\<close>.
\<close>

record body =
  bd_data :: string
  bd_end :: "gw_error option"

text \<open>
  Copying through \<^verbatim>\<open>io.LimitReader(r, k)\<close>: the bytes copied, the error of the copy, and
  whether the reader itself was read to \<^verbatim>\<open>io.EOF\<close>. The limit reader stops on its own
  after \<open>k\<close> bytes, without asking the reader for its end.
\<close>

definition copy_limited :: "body \<Rightarrow> nat \<Rightarrow> string \<times> gw_error option \<times> bool" where
  "copy_limited b k =
     (if k \<le> length (bd_data b) then (take k (bd_data b), None, False)
      else (bd_data b, bd_end b, bd_end b = None))"

lemma copy_limited_complete:
  "copy_limited b (Suc k) = (d, None, eof) \<Longrightarrow> length d \<le> k \<Longrightarrow> d = bd_data b \<and> bd_end b = None \<and> eof"
  by (auto simp: copy_limited_def min_def split: if_splits)

lemma copy_limited_length: "copy_limited b k = (d, err, eof) \<Longrightarrow> length d \<le> k \<and> length d \<le> length (bd_data b)"
  by (auto simp: copy_limited_def split: if_splits)

text \<open>The bytes at \<open>[offset, offset+length)\<close>, where a negative length means to the end.\<close>

definition byte_range :: "string \<Rightarrow> int \<Rightarrow> int \<Rightarrow> string" where
  "byte_range v offset len =
     (let rest = drop (nat offset) v in if len < 0 then rest else take (nat len) rest)"

text \<open>
  Both backends clamp a length to the object's end, as a subtraction so that a length the
  caller chose cannot overflow.
\<close>

definition clamp_len :: "int \<Rightarrow> int \<Rightarrow> int \<Rightarrow> int" where
  "clamp_len sz offset len = (if len < 0 \<or> len > sz - offset then sz - offset else len)"

lemma clamp_len_range:
  "0 \<le> off \<Longrightarrow> off \<le> int (length v) \<Longrightarrow>
   take (nat (clamp_len (int (length v)) off len)) (drop (nat off) v) = byte_range v off len"
  by (auto simp: clamp_len_def byte_range_def Let_def)

lemma clamp_len_bounds: "off \<le> sz \<Longrightarrow> 0 \<le> clamp_len sz off len \<and> clamp_len sz off len \<le> sz - off"
  by (auto simp: clamp_len_def)

subsection \<open>The operations\<close>

record ('e, 's) ObjectStore =
  os_Put :: "'e \<Rightarrow> 's \<Rightarrow> string \<Rightarrow> body \<Rightarrow> int \<Rightarrow> bool \<Rightarrow> (gw_error + ObjectInfo) \<times> bool \<times> 's"
  os_Get :: "'e \<Rightarrow> 's \<Rightarrow> string \<Rightarrow> int \<Rightarrow> int \<Rightarrow> gw_error + (body \<times> ObjectInfo)"
  os_Head :: "'e \<Rightarrow> 's \<Rightarrow> string \<Rightarrow> gw_error + ObjectInfo"
  os_List :: "'e \<Rightarrow> 's \<Rightarrow> string \<Rightarrow> string \<Rightarrow> int \<Rightarrow> gw_error + (ObjectInfo list \<times> bool)"
  os_Delete :: "'e \<Rightarrow> 's \<Rightarrow> string \<Rightarrow> gw_error option \<times> 's"
  os_Versioned :: "'e \<Rightarrow> 's \<Rightarrow> bool"

text \<open>
  Besides its result, Put says whether it read the body to its end: the caller's digest
  check fires there.
\<close>

subsection \<open>The contract\<close>

text \<open>
  \<open>raced e k\<close> holds of the keys that a concurrent operation removes while the call with
  outside world \<open>e\<close> runs; a listing may miss those and no others.
\<close>

locale object_store_contract =
  fixes ops :: "('e, 's) ObjectStore"
    and inv :: "'s \<Rightarrow> bool"
    and objs :: "'s \<Rightarrow> string \<Rightarrow> string option"
    and raced :: "'e \<Rightarrow> string \<Rightarrow> bool"
  assumes put_Inr: "\<lbrakk>inv s; os_Put ops e s k b sz ow = (Inr i, eof, s')\<rbrakk> \<Longrightarrow>
      inv s' \<and> objs s' = (objs s)(k \<mapsto> bd_data b) \<and> (ow \<or> objs s k = None)
      \<and> eof \<and> bd_end b = None \<and> (0 \<le> sz \<longrightarrow> int (length (bd_data b)) = sz)
      \<and> oi_Key i = k \<and> oi_Size i = int (length (bd_data b)) \<and> checkKey k = None"
    and put_Inl: "\<lbrakk>inv s; os_Put ops e s k b sz ow = (Inl err, eof, s')\<rbrakk> \<Longrightarrow>
      inv s' \<and> (objs s' = objs s \<or> err = ErrOther \<and> (ow \<or> objs s k = None) \<and> bd_end b = None
         \<and> objs s' = (objs s)(k \<mapsto> bd_data b))"
    and get_Inr: "\<lbrakk>inv s; os_Get ops e s k off len = Inr (b, i)\<rbrakk> \<Longrightarrow>
      \<exists>v. objs s k = Some v \<and> 0 \<le> off \<and> (off = 0 \<or> off < int (length v))
        \<and> oi_Key i = k \<and> oi_Size i = int (length v)
        \<and> (\<exists>m. bd_data b = take m (byte_range v off len))
        \<and> (bd_end b = None \<longrightarrow> bd_data b = byte_range v off len)"
    and get_NotFound: "\<lbrakk>inv s; objs s k = None\<rbrakk> \<Longrightarrow> \<exists>err. os_Get ops e s k off len = Inl err"
    and head_Inr: "\<lbrakk>inv s; os_Head ops e s k = Inr i\<rbrakk> \<Longrightarrow>
      \<exists>v. objs s k = Some v \<and> oi_Key i = k \<and> oi_Size i = int (length v)"
    and list_sound: "\<lbrakk>inv s; os_List ops e s p a mx = Inr (os, tr); o1 \<in> set os\<rbrakk> \<Longrightarrow>
      \<exists>v. objs s (oi_Key o1) = Some v \<and> oi_Size o1 = int (length v)
        \<and> HasPrefix (oi_Key o1) p \<and> a < oi_Key o1"
    and list_sorted: "\<lbrakk>inv s; CHR ''/'' \<in> set p; os_List ops e s p a mx = Inr (os, tr)\<rbrakk> \<Longrightarrow>
      sorted_wrt (<) (map oi_Key os) \<and> (tr \<longrightarrow> os \<noteq> []) \<and> (0 < mx \<longrightarrow> int (length os) \<le> mx)"
    and list_complete: "\<lbrakk>inv s; CHR ''/'' \<in> set p; os_List ops e s p a mx = Inr (os, tr);
        objs s k = Some v; HasPrefix k p; a < k; \<not> raced e k; \<not> tr \<or> k \<le> oi_Key (last os)\<rbrakk> \<Longrightarrow>
      k \<in> oi_Key ` set os"
    and delete_None: "\<lbrakk>inv s; os_Delete ops e s k = (None, s')\<rbrakk> \<Longrightarrow>
      inv s' \<and> objs s k \<noteq> None \<and> objs s' = (objs s)(k := None)"
    and delete_Some: "\<lbrakk>inv s; os_Delete ops e s k = (Some err, s')\<rbrakk> \<Longrightarrow>
      inv s' \<and> (objs s' = objs s \<or> err = ErrOther \<and> objs s' = (objs s)(k := None))"
begin

text \<open>What every client needs of a call that may have failed: at most its own key changed.\<close>

lemma put_cases:
  assumes "inv s" and "os_Put ops e s k b sz ow = (r, eof, s')"
  shows "inv s' \<and> (objs s' = objs s \<or> (ow \<or> objs s k = None) \<and> bd_end b = None \<and> objs s' = (objs s)(k \<mapsto> bd_data b))"
proof (cases r)
  case (Inl err)
  from put_Inl[OF assms(1), of e k b sz ow err eof s'] assms(2) Inl show ?thesis by auto
next
  case (Inr i)
  from put_Inr[OF assms(1), of e k b sz ow i eof s'] assms(2) Inr show ?thesis by auto
qed

lemma delete_cases:
  assumes "inv s" and "os_Delete ops e s k = (r, s')"
  shows "inv s' \<and> (objs s' = objs s \<or> objs s' = (objs s)(k := None))"
proof (cases r)
  case None
  from delete_None[OF assms(1), of e k s'] assms(2) None show ?thesis by auto
next
  case (Some err)
  from delete_Some[OF assms(1), of e k err s'] assms(2) Some show ?thesis by auto
qed

lemma put_other:
  "inv s \<Longrightarrow> os_Put ops e s k b sz ow = (r, eof, s') \<Longrightarrow> k' \<noteq> k \<Longrightarrow> objs s' k' = objs s k'"
  by (drule (1) put_cases) auto

lemma put_keeps:
  "inv s \<Longrightarrow> os_Put ops e s k b sz False = (r, eof, s') \<Longrightarrow> objs s k' = Some v \<Longrightarrow> objs s' k' = Some v"
  by (drule (1) put_cases) auto

lemma delete_other:
  "inv s \<Longrightarrow> os_Delete ops e s k = (r, s') \<Longrightarrow> k' \<noteq> k \<Longrightarrow> objs s' k' = objs s k'"
  by (drule (1) delete_cases) auto

end

end
