(* ===== verification/Http.thy ===== *)
theory Http
  imports Object_Store
begin

section \<open>HTTP requests and responses\<close>

text \<open>
  The part of \<^verbatim>\<open>net/http\<close> the gateway reads and writes. A request is what the server has
  parsed: the decoded path, the raw query, and the header map, whose keys are in canonical
  form and from which Go's server has taken out Host and Content-Length. A response is its
  status, headers and body; the XML bodies of \<^verbatim>\<open>src/fleet/gateway/xmlout.go\<close> are kept as the
  values that are marshalled.
\<close>

record request =
  rq_Method :: string
  rq_Path :: string
  rq_RawQuery :: string
  rq_Host :: string
  rq_RemoteAddr :: string
  rq_Header :: "(string \<times> string list) list"
  rq_ContentLength :: int
  rq_Body :: body

subsection \<open>Header keys\<close>

definition token_byte :: "char \<Rightarrow> bool" where
  "token_byte c \<longleftrightarrow> byte_in 48 57 c \<or> byte_in 65 90 c \<or> byte_in 97 122 c
     \<or> c \<in> set (CHR 0x27 # ''!#$%&*+-.^_`|~'')"

definition upper_char :: "char \<Rightarrow> char" where
  "upper_char c = (if byte_in 97 122 c then char_of (byte c - 32) else c)"

fun canonical_bytes :: "bool \<Rightarrow> string \<Rightarrow> string" where
  "canonical_bytes up [] = []"
| "canonical_bytes up (c # cs) =
     (if up then upper_char c else lower_char c) # canonical_bytes (c = CHR ''-'') cs"

definition CanonicalMIMEHeaderKey :: "string \<Rightarrow> string" where
  "CanonicalMIMEHeaderKey s = (if list_all token_byte s then canonical_bytes True s else s)"

definition header_Values :: "request \<Rightarrow> string \<Rightarrow> string list" where
  "header_Values r key = (case map_of (rq_Header r) (CanonicalMIMEHeaderKey key) of
     Some vs \<Rightarrow> vs | None \<Rightarrow> [])"

definition header_Get :: "request \<Rightarrow> string \<Rightarrow> string" where
  "header_Get r key = (case header_Values r key of [] \<Rightarrow> [] | v # _ \<Rightarrow> v)"

text \<open>Every key of the header map is canonical, as \<^verbatim>\<open>net/http\<close>'s server leaves it.\<close>

definition canonical_headers :: "request \<Rightarrow> bool" where
  "canonical_headers r \<longleftrightarrow> distinct (map fst (rq_Header r))
     \<and> list_all (\<lambda>(k, vs). CanonicalMIMEHeaderKey k = k \<and> vs \<noteq> []) (rq_Header r)"

lemma header_ascii_lower:
  "canonical_bytes up (map lower_char s) = canonical_bytes up s"
proof (induction s arbitrary: up)
  case (Cons c s)
  have "byte CHR ''-'' = 45" by (simp add: byte_def)
  then have "upper_char (lower_char c) = upper_char c" "lower_char (lower_char c) = lower_char c"
    "(lower_char c = CHR ''-'') = (c = CHR ''-'')"
    by (auto simp: upper_char_def lower_char_def byte_in_def simp flip: byte_inject)
  with Cons show ?case by simp
qed simp

end
