(* ===== verification/Go_Time.thy ===== *)
theory Go_Time
  imports Go_Encoding
begin

section \<open>The Go standard library: calendar dates of package time\<close>

text \<open>
  \<^verbatim>\<open>time.Date\<close> in UTC, the civil date of an instant, and the layouts the gateway parses and
  prints: \<^verbatim>\<open>20060102T150405Z\<close>, \<^verbatim>\<open>20060102\<close>, \<^verbatim>\<open>http.TimeFormat\<close> and the one of
  ListObjectsV2. Dates are proleptic Gregorian.
\<close>

subsection \<open>The calendar\<close>

definition leap :: "int \<Rightarrow> bool" where
  "leap y \<longleftrightarrow> y mod 4 = 0 \<and> (y mod 100 \<noteq> 0 \<or> y mod 400 = 0)"

definition days_in :: "int \<Rightarrow> int \<Rightarrow> int" where
  "days_in y m = (if m = 2 then (if leap y then 29 else 28)
     else if m = 4 \<or> m = 6 \<or> m = 9 \<or> m = 11 then 30 else 31)"

text \<open>Days from January 1, 1970, counted in years that begin in March.\<close>

definition days_from_civil :: "int \<Rightarrow> int \<Rightarrow> int \<Rightarrow> int" where
  "days_from_civil y m d =
     (let y' = (if m \<le> 2 then y - 1 else y);
          mp = (m + 9) mod 12
      in 365 * y' + y' div 4 - y' div 100 + y' div 400 + (153 * mp + 2) div 5 + d - 1 - 719468)"

definition civil_from_days :: "int \<Rightarrow> int \<times> int \<times> int" where
  "civil_from_days z =
     (let n = z + 719468;
          era = n div 146097;
          doe = n mod 146097;
          yoe = (doe - doe div 1460 + doe div 36524 - doe div 146096) div 365;
          doy = doe - (365 * yoe + yoe div 4 - yoe div 100);
          mp = (5 * doy + 2) div 153;
          d = doy - (153 * mp + 2) div 5 + 1;
          m = (if mp < 10 then mp + 3 else mp - 9)
      in (yoe + era * 400 + (if m \<le> 2 then 1 else 0), m, d))"

definition Date :: "int \<Rightarrow> int \<Rightarrow> int \<Rightarrow> int \<Rightarrow> int \<Rightarrow> int \<Rightarrow> int \<Rightarrow> gotime" where
  "Date y m d h mi s ns = (days_from_civil y m d * 86400 + h * 3600 + mi * 60 + s) * second + ns"

definition time_Date :: "gotime \<Rightarrow> int \<times> int \<times> int" where
  "time_Date t = civil_from_days (t div second div 86400)"

definition time_Clock :: "gotime \<Rightarrow> int \<times> int \<times> int" where
  "time_Clock t = (let s = t div second mod 86400 in (s div 3600, s mod 3600 div 60, s mod 60))"

definition time_Weekday :: "gotime \<Rightarrow> nat" where
  "time_Weekday t = nat ((t div second div 86400 + 4) mod 7)"

subsection \<open>Printing\<close>

definition zero_pad :: "nat \<Rightarrow> int \<Rightarrow> string" where
  "zero_pad w v = (let s = dec_digits (nat \<bar>v\<bar>)
     in (if v < 0 then ''-'' else []) @ replicate (w - length s) CHR ''0'' @ s)"

definition format_yyyymmdd :: "gotime \<Rightarrow> string" where
  "format_yyyymmdd t = (case time_Date t of (y, m, d) \<Rightarrow> zero_pad 4 y @ zero_pad 2 m @ zero_pad 2 d)"

definition month_names :: "string list" where
  "month_names = [''Jan'', ''Feb'', ''Mar'', ''Apr'', ''May'', ''Jun'', ''Jul'', ''Aug'', ''Sep'', ''Oct'', ''Nov'', ''Dec'']"

definition day_names :: "string list" where
  "day_names = [''Sun'', ''Mon'', ''Tue'', ''Wed'', ''Thu'', ''Fri'', ''Sat'']"

definition http_TimeFormat :: "gotime \<Rightarrow> string" where
  "http_TimeFormat t = (case time_Date t of (y, m, d) \<Rightarrow> case time_Clock t of (h, mi, s) \<Rightarrow>
     day_names ! time_Weekday t @ '', '' @ zero_pad 2 d @ '' '' @ month_names ! nat (m - 1) @ '' '' @ zero_pad 4 y
       @ '' '' @ zero_pad 2 h @ '':'' @ zero_pad 2 mi @ '':'' @ zero_pad 2 s @ '' GMT'')"

definition s3Time :: "gotime \<Rightarrow> string" where
  "s3Time t = (case time_Date t of (y, m, d) \<Rightarrow> case time_Clock t of (h, mi, s) \<Rightarrow>
     zero_pad 4 y @ ''-'' @ zero_pad 2 m @ ''-'' @ zero_pad 2 d @ ''T'' @ zero_pad 2 h @ '':'' @ zero_pad 2 mi
       @ '':'' @ zero_pad 2 s @ ''.'' @ zero_pad 3 (t mod second div 1000000) @ ''Z'')"

subsection \<open>Parsing 20060102T150405Z\<close>

text \<open>
  \<^verbatim>\<open>getnum\<close>: two digits, or one digit where the layout does not fix the width, as it does
  not for the hour.
\<close>

definition getnum :: "bool \<Rightarrow> string \<Rightarrow> (int \<times> string) option" where
  "getnum fixed s = (case s of
     [] \<Rightarrow> None
   | a # r \<Rightarrow>
       if \<not> is_digit a then None
       else (case r of
          b # r' \<Rightarrow> if is_digit b then Some (int (digit_val a * 10 + digit_val b), r')
                    else if fixed then None else Some (int (digit_val a), r)
        | [] \<Rightarrow> if fixed then None else Some (int (digit_val a), r)))"

definition get_year :: "string \<Rightarrow> (int \<times> string) option" where
  "get_year s = (if length s < 4 \<or> \<not> list_all is_digit (take 4 s) then None
     else map_option (\<lambda>v. (int v, drop 4 s)) (dec_val (take 4 s)))"

definition skip_char :: "char \<Rightarrow> string \<Rightarrow> string option" where
  "skip_char c s = (case s of x # r \<Rightarrow> if x = c then Some r else None | [] \<Rightarrow> None)"

text \<open>
  After the seconds a fraction is accepted although the layout has none; digits past the
  ninth are dropped.
\<close>

definition get_fraction :: "string \<Rightarrow> int \<times> string" where
  "get_fraction s = (case s of
     p # d # r \<Rightarrow>
       if (p = CHR ''.'' \<or> p = CHR '','') \<and> is_digit d then
         let ds = takeWhile is_digit (d # r); k = take 9 ds
         in (case dec_val k of
               Some v \<Rightarrow> (int v * 10 ^ (9 - length k), drop (length ds) (d # r))
             | None \<Rightarrow> (0, s))
       else (0, s)
   | _ \<Rightarrow> (0, s))"

definition in_range :: "int \<Rightarrow> int \<Rightarrow> (int \<times> string) option \<Rightarrow> (int \<times> string) option" where
  "in_range lo hi x = (case x of Some (v, r) \<Rightarrow> if lo \<le> v \<and> v \<le> hi then Some (v, r) else None | None \<Rightarrow> None)"

definition parse_iso8601 :: "string \<Rightarrow> gotime option" where
  "parse_iso8601 s =
     Option.bind (get_year s) (\<lambda>(y, s).
     Option.bind (in_range 1 12 (getnum True s)) (\<lambda>(m, s).
     Option.bind (getnum True s) (\<lambda>(d, s).
     Option.bind (skip_char CHR ''T'' s) (\<lambda>s.
     Option.bind (in_range 0 23 (getnum False s)) (\<lambda>(h, s).
     Option.bind (in_range 0 59 (getnum True s)) (\<lambda>(mi, s).
     Option.bind (in_range 0 59 (getnum True s)) (\<lambda>(sec, s).
     case get_fraction s of (ns, s) \<Rightarrow>
     Option.bind (skip_char CHR ''Z'' s) (\<lambda>s.
     if s \<noteq> [] \<or> d < 1 \<or> d > days_in y m then None
     else Some (Date y m d h mi sec ns)))))))))"

end
