(* ===== verification/SigV4.thy ===== *)
theory SigV4
  imports Http Go_Time
begin

section \<open>Request signatures\<close>

text \<open>
  Models \<^verbatim>\<open>src/fleet/gateway/sigv4.go\<close>. The hash functions are the parameters \<open>sha256\<close> and
  \<open>hmac\<close> (key and data), and \<^verbatim>\<open>s3utils.EncodePath\<close> of minio-go is the parameter
  \<open>EncodePath\<close>. The secret lookup that Verify calls reads and fills the key cache, so it is a
  function on the caller's state \<open>'k\<close>; Verify returns the state the lookup leaves.
\<close>

datatype auth_error =
  ErrMalformedAuthorization | ErrInvalidAccessKeyID | ErrSignatureDoesNotMatch
| ErrRequestTimeTooSkewed | ErrUnsignedAmzHeader | ErrMalformedQuery | ErrStreamingUnsupported

definition maxClockSkew :: duration where "maxClockSkew = 15 * minute"
definition signV4Algorithm :: string where "signV4Algorithm = ''AWS4-HMAC-SHA256''"
definition scopeTerminator :: string where "scopeTerminator = ''aws4_request''"
definition streamingPrefix :: string where "streamingPrefix = ''STREAMING-''"
definition contentSHAHeader :: string where "contentSHAHeader = ''x-amz-content-sha256''"
definition dateHeader :: string where "dateHeader = ''x-amz-date''"
definition hostHeader :: string where "hostHeader = ''host''"
definition decoySecret :: string where "decoySecret = replicate 40 CHR ''0''"

subsection \<open>Parsing the credential\<close>

fun auth_parts :: "string list \<Rightarrow> string \<Rightarrow> string list \<Rightarrow> string \<Rightarrow> (string \<times> string list \<times> string) option" where
  "auth_parts [] credential signed sig = Some (credential, signed, sig)"
| "auth_parts (part # parts) credential signed sig =
     (case Cut (TrimSpace part) CHR ''='' of (k, val, ok) \<Rightarrow>
        if \<not> ok then None
        else if k = ''Credential'' then auth_parts parts val signed sig
        else if k = ''SignedHeaders'' then auth_parts parts credential (Split val CHR '';'') sig
        else if k = ''Signature'' then auth_parts parts credential signed val
        else auth_parts parts credential signed sig)"

definition parseAuthorization :: "string \<Rightarrow> auth_error + (string \<times> string \<times> string list \<times> string)" where
  "parseAuthorization v = (case Cut v CHR '' '' of (algo, rest, ok) \<Rightarrow>
     if \<not> ok \<or> algo \<noteq> signV4Algorithm then Inl ErrMalformedAuthorization
     else case auth_parts (Split rest CHR '','') [] [] [] of
       None \<Rightarrow> Inl ErrMalformedAuthorization
     | Some (credential, signed, sig) \<Rightarrow>
         if credential = [] \<or> sig = [] \<or> length signed = 0 then Inl ErrMalformedAuthorization
         else (case Cut credential CHR ''/'' of (akid, scope, ok) \<Rightarrow>
           if \<not> ok \<or> akid = [] then Inl ErrMalformedAuthorization
           else Inr (akid, scope, signed, sig)))"

definition parseScope :: "string \<Rightarrow> string \<Rightarrow> string \<Rightarrow> auth_error + (string \<times> string)" where
  "parseScope scope wantRegion wantService = (case Split scope CHR ''/'' of
     [date, region, service, term] \<Rightarrow>
       if term \<noteq> scopeTerminator then Inl ErrMalformedAuthorization
       else if service \<noteq> wantService then Inl ErrMalformedAuthorization
       else if region \<noteq> wantRegion then Inl ErrMalformedAuthorization
       else Inr (date, region)
   | _ \<Rightarrow> Inl ErrMalformedAuthorization)"

definition requireSignedHeaders :: "request \<Rightarrow> string list \<Rightarrow> auth_error option" where
  "requireSignedHeaders r signed =
     (if list_ex (\<lambda>required. required \<notin> set signed) [hostHeader, contentSHAHeader, dateHeader]
      then Some ErrMalformedAuthorization
      else if list_ex (\<lambda>name. let lower = ToLower name in HasPrefix lower ''x-amz-'' \<and> lower \<notin> set signed)
                      (map fst (rq_Header r))
      then Some ErrUnsignedAmzHeader
      else None)"

subsection \<open>The canonical request\<close>

definition headerValue :: "request \<Rightarrow> string \<Rightarrow> string" where
  "headerValue r name =
     (if name = hostHeader then rq_Host r
      else if name = ''content-length'' then
        (if rq_ContentLength r < 0 then [] else FormatInt (rq_ContentLength r))
      else Join (map (\<lambda>v. Join (Fields v) '' '') (header_Values r name)) '','')"

definition plus_to_20 :: "string \<Rightarrow> string" where
  "plus_to_20 s = concat (map (\<lambda>c. if c = CHR ''+'' then ''%20'' else [c]) s)"

definition canonicalRequest ::
  "(string \<Rightarrow> string) \<Rightarrow> request \<Rightarrow> url_values \<Rightarrow> string list \<Rightarrow> string \<Rightarrow> string" where
  "canonicalRequest EncodePath r query signed payloadHash =
     rq_Method r @ [CHR 0x0A] @ EncodePath (rq_Path r) @ [CHR 0x0A]
       @ plus_to_20 (query_Encode query) @ [CHR 0x0A]
       @ concat (map (\<lambda>h. h @ '':'' @ headerValue r h @ [CHR 0x0A]) signed)
       @ [CHR 0x0A] @ Join signed '';'' @ [CHR 0x0A] @ payloadHash"

definition stringToSign :: "(string \<Rightarrow> string) \<Rightarrow> string \<Rightarrow> string \<Rightarrow> string \<Rightarrow> string" where
  "stringToSign sha256 amzDate scope creq =
     signV4Algorithm @ [CHR 0x0A] @ amzDate @ [CHR 0x0A] @ scope @ [CHR 0x0A] @ hex_EncodeToString (sha256 creq)"

definition signingKey :: "(string \<Rightarrow> string \<Rightarrow> string) \<Rightarrow> string \<Rightarrow> string \<Rightarrow> string \<Rightarrow> string \<Rightarrow> string" where
  "signingKey hmac secret date region service =
     (let k = hmac (''AWS4'' @ secret) date;
          k = hmac k region;
          k = hmac k service
      in hmac k scopeTerminator)"

subsection \<open>Verification\<close>

record crypto =
  cr_sha256 :: "string \<Rightarrow> string"
  cr_hmac :: "string \<Rightarrow> string \<Rightarrow> string"
  cr_EncodePath :: "string \<Rightarrow> string"

definition signature_for ::
  "crypto \<Rightarrow> request \<Rightarrow> url_values \<Rightarrow> string \<Rightarrow> string \<Rightarrow> string \<Rightarrow> string \<Rightarrow> string list \<Rightarrow> string \<Rightarrow> string" where
  "signature_for cr r query secret scope scopeDate region signed service =
     (let creq = canonicalRequest (cr_EncodePath cr) r query signed (header_Get r ''X-Amz-Content-Sha256'');
          sts = stringToSign (cr_sha256 cr) (header_Get r ''X-Amz-Date'') scope creq
      in hex_EncodeToString (cr_hmac cr (signingKey (cr_hmac cr) secret scopeDate region service) sts))"

definition Verify ::
  "crypto \<Rightarrow> request \<Rightarrow> string \<Rightarrow> string \<Rightarrow> (string \<Rightarrow> 'k \<Rightarrow> string option \<times> 'k) \<Rightarrow> gotime \<Rightarrow> 'k
    \<Rightarrow> (auth_error + string) \<times> 'k" where
  "Verify cr r region service look now k =
     (case parseAuthorization (header_Get r ''Authorization'') of
        Inl err \<Rightarrow> (Inl err, k)
      | Inr (akid, scope, signed, sig) \<Rightarrow>
     (case parseScope scope region service of
        Inl err \<Rightarrow> (Inl err, k)
      | Inr (scopeDate, scopeRegion) \<Rightarrow>
     (let amzDate = header_Get r ''X-Amz-Date'' in
      if amzDate = [] then (Inl ErrMalformedAuthorization, k)
      else case parse_iso8601 amzDate of
        None \<Rightarrow> (Inl ErrMalformedAuthorization, k)
      | Some t \<Rightarrow>
      if format_yyyymmdd t \<noteq> scopeDate then (Inl ErrMalformedAuthorization, k)
      else if time_sub now t > maxClockSkew \<or> time_sub now t < - maxClockSkew
      then (Inl ErrRequestTimeTooSkewed, k)
      else case requireSignedHeaders r signed of
        Some err \<Rightarrow> (Inl err, k)
      | None \<Rightarrow>
      if HasPrefix (header_Get r ''X-Amz-Content-Sha256'') streamingPrefix
      then (Inl ErrStreamingUnsupported, k)
      else case ParseQuery (rq_RawQuery r) of
        None \<Rightarrow> (Inl ErrMalformedQuery, k)
      | Some query \<Rightarrow>
      (case look akid k of (secret, k') \<Rightarrow>
         let want = signature_for cr r query (case secret of Some s \<Rightarrow> s | None \<Rightarrow> decoySecret)
                      scope scopeDate scopeRegion signed service
         in if secret = None then (Inl ErrInvalidAccessKeyID, k')
            else if want \<noteq> sig then (Inl ErrSignatureDoesNotMatch, k')
            else (Inr akid, k')))))"

end
