(* ===== verification/SigV4_Canonical.thy ===== *)
theory SigV4_Canonical
  imports SigV4
begin

section \<open>The canonical request determines the request\<close>

text \<open>
  The canonical request of \<^verbatim>\<open>src/fleet/gateway/sigv4.go\<close> is a sequence of lines. No part of
  it can contain a line break: header values are collapsed at white space, the query is
  escaped, and the method, the host and the signed header names come from single lines of
  the HTTP request. So two requests with the same canonical form agree in every part the
  signature is meant to cover.
\<close>

definition newline :: char where "newline = CHR 0x0A"

subsection \<open>No line breaks\<close>

lemma segments_ascii_byte: "x \<in> set (segments s) \<Longrightarrow> c \<in> set (snd x) \<Longrightarrow> byte c < 0x80 \<Longrightarrow> fst x = byte c"
proof (induction s rule: segments.induct)
  case (1 s)
  show ?case
  proof (cases s)
    case Nil
    with "1.prems" show ?thesis by (simp add: segments.simps)
  next
    case (Cons a t)
    then have ne: "s \<noteq> []" by simp
    show ?thesis
    proof (cases "decode_rune s")
      case None
      then have b: "0x80 \<le> byte a" using Cons decode_rune_None_byte by simp
      have "segments s = (0xFFFD, take 1 s) # segments (drop 1 s)" by (subst segments.simps) (simp add: None ne)
      with "1.prems"(1) have "x = (0xFFFD, [a]) \<or> x \<in> set (segments (drop 1 s))" using Cons by simp
      then show ?thesis
      proof
        assume "x = (0xFFFD, [a])"
        with b "1.prems"(2,3) show ?thesis by simp
      next
        assume "x \<in> set (segments (drop 1 s))"
        then show ?thesis using "1.prems"(2,3) by (rule "1.IH"(1)[OF ne None])
      qed
    next
      case (Some rw)
      obtain r w where rw: "(r, w) = rw" by (cases rw) auto
      have d: "decode_rune s = Some (r, w)" using Some rw by simp
      have "segments s = (r, take w s) # segments (drop w s)" by (subst segments.simps) (simp add: d ne)
      with "1.prems"(1) have "x = (r, take w s) \<or> x \<in> set (segments (drop w s))" by simp
      then show ?thesis
      proof
        assume "x = (r, take w s)"
        with "1.prems"(2,3) decode_rune_ascii[OF d, of c] show ?thesis by simp
      next
        assume "x \<in> set (segments (drop w s))"
        then show ?thesis using "1.prems"(2,3) by (rule "1.IH"(2)[OF ne Some rw])
      qed
    qed
  qed
qed

lemma fields_acc_chars:
  "f \<in> set (fields_acc cur segs) \<Longrightarrow> c \<in> set f \<Longrightarrow> c \<in> set cur \<or> (\<exists>x \<in> set segs. \<not> IsSpace (fst x) \<and> c \<in> set (snd x))"
  by (induction cur segs rule: fields_acc.induct) (fastforce split: if_splits)+

lemma newline_notin_Fields: "f \<in> set (Fields s) \<Longrightarrow> newline \<notin> set f"
proof
  assume f: "f \<in> set (Fields s)" and n: "newline \<in> set f"
  then obtain x where x: "x \<in> set (segments s)" "\<not> IsSpace (fst x)" "newline \<in> set (snd x)"
    using fields_acc_chars[of f "[]" "segments s" newline] by (auto simp: Fields_def)
  have b: "byte newline = 10" by (simp add: newline_def byte_def)
  have "fst x = 10" using segments_ascii_byte[OF x(1,3)] b by simp
  with x(2) show False by (simp add: IsSpace_def)
qed

lemma in_Join: "c \<in> set (Join xs sep) \<Longrightarrow> c \<in> set sep \<or> (\<exists>x \<in> set xs. c \<in> set x)"
  by (induction xs sep rule: Join.induct) auto

lemma dec_digits_chars: "c \<in> set (dec_digits n) \<Longrightarrow> 48 \<le> byte c \<and> byte c \<le> 57"
proof (induction n rule: dec_digits.induct)
  case (1 n)
  then show ?case by (subst (asm) dec_digits.simps) (auto split: if_splits)
qed

lemma newline_notin_FormatInt: "newline \<notin> set (FormatInt i)"
  by (auto simp: FormatInt_def newline_def byte_def dest!: dec_digits_chars)

lemma newline_notin_headerValue: "newline \<notin> set (rq_Host r) \<Longrightarrow> newline \<notin> set (headerValue r h)"
  using newline_notin_FormatInt newline_notin_Fields
  by (fastforce simp: headerValue_def newline_def dest!: in_Join split: if_splits)

lemma upper_hex_byte: "n < 16 \<Longrightarrow> 48 \<le> byte (upper_hex n)"
  by (auto simp: upper_hex_def)

lemma newline_notin_QueryEscape: "newline \<notin> set (QueryEscape s)"
proof
  assume "newline \<in> set (QueryEscape s)"
  then obtain c where "newline \<in> set (escape_char c)" by (auto simp: QueryEscape_def)
  moreover have "byte newline = 10" by (simp add: newline_def byte_def)
  ultimately show False
    using upper_hex_byte[of "byte c div 16"] upper_hex_byte[of "byte c mod 16"] byte_div(2)[of c]
    by (auto simp: escape_char_def unreserved_def byte_in_def newline_def split: if_splits)
qed

lemma newline_notin_query: "newline \<notin> set (plus_to_20 (query_Encode q))"
proof -
  have "newline \<notin> set (query_Encode q)"
    using newline_notin_QueryEscape by (fastforce simp: query_Encode_def newline_def dest!: in_Join)
  then show ?thesis by (auto simp: plus_to_20_def newline_def split: if_splits)
qed

subsection \<open>Injectivity\<close>

definition request_lines :: "(string \<Rightarrow> string) \<Rightarrow> request \<Rightarrow> url_values \<Rightarrow> string list \<Rightarrow> string \<Rightarrow> string list" where
  "request_lines enc r q signed hash =
     [rq_Method r, enc (rq_Path r), plus_to_20 (query_Encode q)]
       @ map (\<lambda>h. h @ '':'' @ headerValue r h) signed @ [[], Join signed '';'', hash]"

lemma Join_Cons: "xs \<noteq> [] \<Longrightarrow> Join (x # xs) sep = x @ sep @ Join xs sep"
  by (cases xs) auto

lemma canonicalRequest_lines: "canonicalRequest enc r q signed hash = Join (request_lines enc r q signed hash) [newline]"
proof -
  have "Join (map f signed @ [[], a, b]) [newline] = concat (map (\<lambda>h. f h @ [newline]) signed) @ [newline] @ a @ [newline] @ b"
    for f :: "string \<Rightarrow> string" and a b
    by (induction signed) (auto simp: Join_Cons)
  then show ?thesis by (simp add: canonicalRequest_def request_lines_def Join_Cons newline_def)
qed

text \<open>What the HTTP server guarantees of a parsed request: its parts are single lines.\<close>

definition single_lines :: "(string \<Rightarrow> string) \<Rightarrow> request \<Rightarrow> string list \<Rightarrow> string \<Rightarrow> bool" where
  "single_lines enc r signed hash \<longleftrightarrow> signed \<noteq> [] \<and> newline \<notin> set (rq_Method r) \<and> newline \<notin> set (enc (rq_Path r))
     \<and> newline \<notin> set (rq_Host r) \<and> newline \<notin> set hash
     \<and> list_all (\<lambda>h. newline \<notin> set h \<and> CHR '';'' \<notin> set h) signed"

lemma request_lines_clean:
  "single_lines enc r signed hash \<Longrightarrow> l \<in> set (request_lines enc r q signed hash) \<Longrightarrow> newline \<notin> set l"
  using newline_notin_headerValue[of r] newline_notin_query[of q]
  by (auto simp: single_lines_def request_lines_def list_all_iff newline_def dest!: in_Join)

text \<open>
  C15. The signature covers the request: two requests whose canonical requests are equal have
  the same method, the same encoded path and query, the same list of signed headers with
  the same (white-space-collapsed) values, and the same payload hash.
\<close>

theorem canonicalRequest_injective:
  assumes "single_lines enc r signed hash" and "single_lines enc r' signed' hash'"
    and "canonicalRequest enc r q signed hash = canonicalRequest enc r' q' signed' hash'"
  shows "rq_Method r = rq_Method r' \<and> enc (rq_Path r) = enc (rq_Path r')
    \<and> plus_to_20 (query_Encode q) = plus_to_20 (query_Encode q') \<and> hash = hash' \<and> signed = signed'
    \<and> map (headerValue r) signed = map (headerValue r') signed"
proof -
  have ne: "request_lines enc r q signed hash \<noteq> []" for r q signed hash by (simp add: request_lines_def)
  have "Split (canonicalRequest enc r q signed hash) newline = request_lines enc r q signed hash"
    unfolding canonicalRequest_lines by (intro Split_Join ne ballI request_lines_clean[OF assms(1)])
  moreover have "Split (canonicalRequest enc r' q' signed' hash') newline = request_lines enc r' q' signed' hash'"
    unfolding canonicalRequest_lines by (intro Split_Join ne ballI request_lines_clean[OF assms(2)])
  ultimately have eq: "request_lines enc r q signed hash = request_lines enc r' q' signed' hash'"
    using assms(3) by simp
  then have len: "length signed = length signed'" by (auto simp: request_lines_def dest!: arg_cong[where f = length])
  with eq have parts: "map (\<lambda>h. h @ '':'' @ headerValue r h) signed = map (\<lambda>h. h @ '':'' @ headerValue r' h) signed'"
      "Join signed '';'' = Join signed' '';''" "hash = hash'" "rq_Method r = rq_Method r'"
      "enc (rq_Path r) = enc (rq_Path r')" "plus_to_20 (query_Encode q) = plus_to_20 (query_Encode q')"
    by (auto simp: request_lines_def)
  have "signed = Split (Join signed '';'') CHR '';''" "signed' = Split (Join signed' '';'') CHR '';''"
    using assms(1,2) by (auto simp: single_lines_def list_all_iff Split_Join)
  with parts(2) have "signed = signed'" by simp
  with parts show ?thesis by auto
qed

theorem canonicalRequest_injective_witness:
  "single_lines id \<lparr>rq_Method = ''GET'', rq_Path = ''/warphold/'', rq_RawQuery = [], rq_Host = ''h'', rq_RemoteAddr = [],
      rq_Header = [], rq_ContentLength = 0, rq_Body = \<lparr>bd_data = [], bd_end = None\<rparr>\<rparr> [''host''] ''UNSIGNED-PAYLOAD''
   \<and> map (headerValue \<lparr>rq_Method = ''GET'', rq_Path = ''/warphold/'', rq_RawQuery = [], rq_Host = ''h'', rq_RemoteAddr = [],
      rq_Header = [], rq_ContentLength = 0, rq_Body = \<lparr>bd_data = [], bd_end = None\<rparr>\<rparr>) [''host''] = [''h'']"
proof -
  let ?r = "\<lparr>rq_Method = ''GET'', rq_Path = ''/warphold/'', rq_RawQuery = [], rq_Host = ''h'', rq_RemoteAddr = [],
      rq_Header = [], rq_ContentLength = 0, rq_Body = \<lparr>bd_data = [], bd_end = None\<rparr>\<rparr>"
  have s: "single_lines id ?r [''host''] ''UNSIGNED-PAYLOAD''"
    by (simp add: single_lines_def newline_def)
  from canonicalRequest_injective[OF s s refl, of "[]"] s show ?thesis by (simp add: headerValue_def hostHeader_def)
qed

end
