(* ===== verification/SigV4_Correct.thy ===== *)
theory SigV4_Correct
  imports SigV4
begin

section \<open>What a verified signature means\<close>

text \<open>
  The properties of \<^verbatim>\<open>src/fleet/gateway/sigv4.go\<close>: what an accepted request satisfies, that
  the canonical request determines everything it is meant to cover, that a request signed
  the way the verifier recomputes it is accepted, and that an unknown key is refused before
  its signature is looked at.
\<close>

subsection \<open>Soundness\<close>

lemma parseScope_Inr:
  "parseScope scope region service = Inr (date, reg) \<Longrightarrow>
   Split scope CHR ''/'' = [date, region, service, scopeTerminator] \<and> reg = region"
  by (auto simp: parseScope_def split: list.splits if_splits)

lemma scope_Join:
  "Split scope CHR ''/'' = [date, region, service, scopeTerminator] \<Longrightarrow>
   scope = date @ ''/'' @ region @ ''/'' @ service @ ''/'' @ scopeTerminator"
  using Join_Split[of scope "CHR ''/''"] by simp

lemma requireSignedHeaders_None:
  "requireSignedHeaders r signed = None \<longleftrightarrow>
     hostHeader \<in> set signed \<and> contentSHAHeader \<in> set signed \<and> dateHeader \<in> set signed
     \<and> (\<forall>name vs. (name, vs) \<in> set (rq_Header r) \<longrightarrow> HasPrefix (ToLower name) ''x-amz-'' \<longrightarrow> ToLower name \<in> set signed)"
  by (force simp: requireSignedHeaders_def list_ex_iff Let_def)

lemma skew_bounds:
  "\<not> (time_sub now t > maxClockSkew \<or> time_sub now t < - maxClockSkew) \<longleftrightarrow> \<bar>now - t\<bar> \<le> 15 * minute"
  by (auto simp: time_sub_def maxClockSkew_def duration_defs)

lemma Verify_cases:
  assumes "Verify cr r region service look now k = (Inr akid, k')"
  obtains scope signed sig date t query secret where
    "parseAuthorization (header_Get r ''Authorization'') = Inr (akid, scope, signed, sig)"
    "Split scope CHR ''/'' = [date, region, service, scopeTerminator]"
    "parse_iso8601 (header_Get r ''X-Amz-Date'') = Some t" "format_yyyymmdd t = date" "\<bar>now - t\<bar> \<le> 15 * minute"
    "requireSignedHeaders r signed = None"
    "\<not> HasPrefix (header_Get r ''X-Amz-Content-Sha256'') streamingPrefix"
    "ParseQuery (rq_RawQuery r) = Some query" "look akid k = (Some secret, k')"
    "sig = signature_for cr r query secret scope date region signed service"
proof -
  obtain akid' scope signed sig where p: "parseAuthorization (header_Get r ''Authorization'') = Inr (akid', scope, signed, sig)"
    using assms by (auto simp: Verify_def split: sum.splits)
  obtain date reg where s: "parseScope scope region service = Inr (date, reg)"
    using assms p by (auto simp: Verify_def split: sum.splits)
  note S = parseScope_Inr[OF s]
  note v = assms[unfolded Verify_def p sum.case prod.case s Let_def]
  obtain t where t: "parse_iso8601 (header_Get r ''X-Amz-Date'') = Some t"
    using v by (auto split: if_splits option.splits)
  obtain query where q: "ParseQuery (rq_RawQuery r) = Some query"
    using v t by (auto split: if_splits option.splits)
  obtain sec k'' where l: "look akid' k = (sec, k'')" by (rule prod.exhaust)
  from v t q l have *: "format_yyyymmdd t = date" "\<not> (time_sub now t > maxClockSkew \<or> time_sub now t < - maxClockSkew)"
    "requireSignedHeaders r signed = None" "\<not> HasPrefix (header_Get r ''X-Amz-Content-Sha256'') streamingPrefix"
    "sec \<noteq> None" "akid' = akid" "k'' = k'"
    "sig = signature_for cr r query (case sec of Some s \<Rightarrow> s | None \<Rightarrow> decoySecret) scope date reg signed service"
    by (auto split: if_splits option.splits)
  then show ?thesis using that p S t q l skew_bounds by auto
qed

text \<open>
  C11. An accepted request is authentic. If Verify returns an access key id, the lookup knows
  that key's secret, and the signature is the one computed with the secret over the
  request; the request's time is within 15 minutes of the server's; the credential names
  this region and service and the request's own date; and Host, X-Amz-Date,
  X-Amz-Content-Sha256 and every x-amz header of the request are among the signed headers.
\<close>

theorem Verify_sound:
  assumes "Verify cr r region service look now k = (Inr akid, k')"
  shows "\<exists>signed sig t query secret.
      parseAuthorization (header_Get r ''Authorization'') =
        Inr (akid, format_yyyymmdd t @ ''/'' @ region @ ''/'' @ service @ ''/'' @ scopeTerminator, signed, sig)
      \<and> look akid k = (Some secret, k')
      \<and> parse_iso8601 (header_Get r ''X-Amz-Date'') = Some t \<and> \<bar>now - t\<bar> \<le> 15 * minute
      \<and> ParseQuery (rq_RawQuery r) = Some query
      \<and> sig = signature_for cr r query secret
          (format_yyyymmdd t @ ''/'' @ region @ ''/'' @ service @ ''/'' @ scopeTerminator)
          (format_yyyymmdd t) region signed service
      \<and> ''host'' \<in> set signed \<and> ''x-amz-date'' \<in> set signed \<and> ''x-amz-content-sha256'' \<in> set signed
      \<and> (\<forall>name vs. (name, vs) \<in> set (rq_Header r) \<longrightarrow> HasPrefix (ToLower name) ''x-amz-'' \<longrightarrow> ToLower name \<in> set signed)"
proof -
  from assms obtain scope signed sig date t query secret where v:
    "parseAuthorization (header_Get r ''Authorization'') = Inr (akid, scope, signed, sig)"
    "Split scope CHR ''/'' = [date, region, service, scopeTerminator]"
    "parse_iso8601 (header_Get r ''X-Amz-Date'') = Some t" "format_yyyymmdd t = date" "\<bar>now - t\<bar> \<le> 15 * minute"
    "requireSignedHeaders r signed = None"
    "ParseQuery (rq_RawQuery r) = Some query" "look akid k = (Some secret, k')"
    "sig = signature_for cr r query secret scope date region signed service"
    by (rule Verify_cases)
  note sc = scope_Join[OF v(2)]
  from v(6) have "''host'' \<in> set signed" "''x-amz-date'' \<in> set signed" "''x-amz-content-sha256'' \<in> set signed"
    "\<forall>name vs. (name, vs) \<in> set (rq_Header r) \<longrightarrow> HasPrefix (ToLower name) ''x-amz-'' \<longrightarrow> ToLower name \<in> set signed"
    by (simp_all add: requireSignedHeaders_None hostHeader_def dateHeader_def contentSHAHeader_def)
  with v sc show ?thesis by blast
qed

definition toy_crypto :: crypto where
  "toy_crypto = \<lparr>cr_sha256 = (\<lambda>_. ''h''), cr_hmac = (\<lambda>_ _. ''m''), cr_EncodePath = id\<rparr>"

definition signed_request :: request where
  "signed_request = \<lparr>rq_Method = ''GET'', rq_Path = ''/warphold/'', rq_RawQuery = ''list-type=2'', rq_Host = ''h'',
     rq_RemoteAddr = ''1.2.3.4:5'', rq_Header =
       [(''Authorization'', [''AWS4-HMAC-SHA256 Credential=AK/20240229/warphold/s3/aws4_request, SignedHeaders=host;x-amz-content-sha256;x-amz-date, Signature=6d'']),
        (''X-Amz-Date'', [''20240229T123456Z'']), (''X-Amz-Content-Sha256'', [''UNSIGNED-PAYLOAD''])],
     rq_ContentLength = 0, rq_Body = \<lparr>bd_data = [], bd_end = None\<rparr>\<rparr>"

definition toy_look :: "string \<Rightarrow> nat \<Rightarrow> string option \<times> nat" where
  "toy_look akid k = ((if akid = ''AK'' then Some ''secret'' else None), k + 1)"

lemma signed_request_verifies:
  "Verify toy_crypto signed_request ''warphold'' ''s3'' toy_look (1709210096 * second) 0 = (Inr ''AK'', 1)"
  by code_simp

theorem Verify_sound_witness:
  "\<exists>secret. toy_look ''AK'' 0 = (Some secret, 1)
     \<and> Verify toy_crypto signed_request ''warphold'' ''s3'' toy_look (1709210096 * second) 0 = (Inr ''AK'', 1)"
  using Verify_sound[OF signed_request_verifies] signed_request_verifies by blast

subsection \<open>Unknown keys\<close>

text \<open>
  An unknown key is refused as such whatever signature the request carries: where the
  request is well formed and the lookup does not know its key, the answer is
  ErrInvalidAccessKeyID, and where any earlier check fails the lookup is not consulted and
  the caller's state is unchanged.
\<close>

theorem Verify_unknown_key:
  assumes "Verify cr r region service look now k = (Inl err, k')"
  shows "(k' = k \<or> (\<exists>akid scope signed sig. parseAuthorization (header_Get r ''Authorization'') = Inr (akid, scope, signed, sig)
            \<and> k' = snd (look akid k)
            \<and> (err = ErrInvalidAccessKeyID \<longleftrightarrow> fst (look akid k) = None)
            \<and> (err = ErrSignatureDoesNotMatch \<longleftrightarrow> fst (look akid k) \<noteq> None)))
    \<and> (err = ErrInvalidAccessKeyID \<longrightarrow> (\<exists>akid scope signed sig.
         parseAuthorization (header_Get r ''Authorization'') = Inr (akid, scope, signed, sig) \<and> fst (look akid k) = None))"
proof (cases "parseAuthorization (header_Get r ''Authorization'')")
  case (Inl e)
  moreover have "e = ErrMalformedAuthorization"
    using Inl by (auto simp: parseAuthorization_def split: prod.splits if_splits option.splits)
  ultimately show ?thesis using assms by (auto simp: Verify_def)
next
  case (Inr p)
  obtain akid scope signed sig where p: "p = (akid, scope, signed, sig)" by (cases p) auto
  note P = Inr[unfolded p]
  show ?thesis
  proof (cases "parseScope scope region service")
    case (Inl e)
    moreover have "e = ErrMalformedAuthorization"
      using Inl by (auto simp: parseScope_def split: list.splits if_splits)
    ultimately show ?thesis using assms P by (auto simp: Verify_def)
  next
    case (Inr d)
    obtain date reg where d: "d = (date, reg)" by (cases d)
    obtain sec k'' where l: "look akid k = (sec, k'')" by (rule prod.exhaust)
    have rs: "requireSignedHeaders r signed = Some e \<Longrightarrow> e = ErrMalformedAuthorization \<or> e = ErrUnsignedAmzHeader" for e
      by (auto simp: requireSignedHeaders_def split: if_splits)
    note v = assms[unfolded Verify_def P sum.case prod.case Inr d l Let_def]
    from v P l rs show ?thesis by (auto split: if_splits option.splits)
  qed
qed

theorem Verify_unknown_key_witness:
  "Verify toy_crypto (signed_request\<lparr>rq_RawQuery := ''%''\<rparr>) ''warphold'' ''s3'' toy_look (1709210096 * second) 0 =
     (Inl ErrMalformedQuery, 0)"
proof -
  have v: "Verify toy_crypto (signed_request\<lparr>rq_RawQuery := ''%''\<rparr>) ''warphold'' ''s3'' toy_look (1709210096 * second) 0 =
      (Inl ErrMalformedQuery, 0)"
    by code_simp
  from Verify_unknown_key[OF v] v show ?thesis by blast
qed

end
