(* ===== verification/SigV4_Complete.thy ===== *)
theory SigV4_Complete
  imports SigV4_Correct
begin

section \<open>Correctly signed requests are accepted\<close>

text \<open>
  The converse of the soundness of \<^verbatim>\<open>src/fleet/gateway/sigv4.go\<close>: the header a minio-go client
  builds parses back into its parts, and Verify accepts the request it signs.
\<close>

text \<open>The Authorization header a client sends, as minio-go writes it.\<close>

definition authorization_header :: "string \<Rightarrow> string \<Rightarrow> string list \<Rightarrow> string \<Rightarrow> string" where
  "authorization_header akid scope signed sig =
     signV4Algorithm @ '' Credential='' @ akid @ ''/'' @ scope @ '', SignedHeaders='' @ Join signed '';''
       @ '', Signature='' @ sig"

text \<open>Graphic ASCII characters other than the comma.\<close>

definition plain :: "string \<Rightarrow> bool" where
  "plain s \<longleftrightarrow> list_all (\<lambda>c. 33 \<le> byte c \<and> byte c \<le> 126 \<and> c \<noteq> CHR '','') s"

lemma plain_append [simp]: "plain (a @ b) \<longleftrightarrow> plain a \<and> plain b"
  by (simp add: plain_def)

lemma plain_consts [simp]: "plain ''Credential=''" "plain ''SignedHeaders=''" "plain ''Signature=''" "plain ''/''" "plain '';''" "plain []"
  by code_simp+

lemma plain_chars: "plain w \<Longrightarrow> c \<in> set w \<Longrightarrow> byte c < 128 \<and> \<not> IsSpace (byte c)"
  by (fastforce simp: plain_def list_all_iff IsSpace_def)

lemma plain_TrimSpace: "plain w \<Longrightarrow> TrimSpace w = w" "plain w \<Longrightarrow> TrimSpace (CHR '' '' # w) = w"
  using TrimSpace_word plain_chars by blast+

lemma plain_no_comma: "plain w \<Longrightarrow> CHR '','' \<notin> set w"
  by (auto simp: plain_def list_all_iff)

lemma plain_Join: "list_all plain xs \<Longrightarrow> plain sep \<Longrightarrow> plain (Join xs sep)"
  by (induction xs sep rule: Join.induct) auto

lemma Cut_field: "CHR ''='' \<notin> set k \<Longrightarrow> Cut (k @ CHR ''='' # v) CHR ''='' = (k, v, True)"
  by (rule Cut_append)

lemma auth_parts_three:
  assumes "plain c" "plain sh" "plain sig"
  shows "auth_parts [''Credential='' @ c, '' SignedHeaders='' @ sh, '' Signature='' @ sig] [] [] [] =
    Some (c, Split sh CHR '';'', sig)"
proof -
  have p: "plain (''Credential='' @ c)" "plain (''SignedHeaders='' @ sh)" "plain (''Signature='' @ sig)"
    using assms by (simp_all only: plain_append plain_consts simp_thms)
  have 1: "TrimSpace (''Credential='' @ c) = ''Credential'' @ CHR ''='' # c"
    using plain_TrimSpace(1)[OF p(1)] by simp
  have 2: "TrimSpace ('' SignedHeaders='' @ sh) = ''SignedHeaders'' @ CHR ''='' # sh"
    using plain_TrimSpace(2)[OF p(2)] by simp
  have 3: "TrimSpace ('' Signature='' @ sig) = ''Signature'' @ CHR ''='' # sig"
    using plain_TrimSpace(2)[OF p(3)] by simp
  have 4: "CHR ''='' \<notin> set ''Credential''" "CHR ''='' \<notin> set ''SignedHeaders''" "CHR ''='' \<notin> set ''Signature''"
    by simp_all
  show ?thesis
    unfolding auth_parts.simps 1 2 3 Cut_field[OF 4(1)] Cut_field[OF 4(2)] Cut_field[OF 4(3)] by simp
qed

lemma parseAuthorization_header:
  assumes "plain akid" "plain scope" "list_all plain signed" "plain sig" "akid \<noteq> []" "CHR ''/'' \<notin> set akid"
    and "sig \<noteq> []" "signed \<noteq> []" "list_all (\<lambda>h. CHR '';'' \<notin> set h) signed"
  shows "parseAuthorization (authorization_header akid scope signed sig) = Inr (akid, scope, signed, sig)"
proof -
  let ?c = "akid @ CHR ''/'' # scope" and ?sh = "Join signed '';''"
  have pc: "plain ?c" using assms(1,2) by (simp add: plain_def byte_def)
  have ps: "plain ?sh" using assms(3) by (simp add: plain_Join)
  let ?rest = "''Credential='' @ ?c @ CHR '','' # '' SignedHeaders='' @ ?sh @ CHR '','' # '' Signature='' @ sig"
  have sp: "CHR '' '' \<notin> set signV4Algorithm" by code_simp
  have h: "authorization_header akid scope signed sig = signV4Algorithm @ CHR '' '' # ?rest"
    by (simp add: authorization_header_def)
  have cut: "Cut (authorization_header akid scope signed sig) CHR '' '' = (signV4Algorithm, ?rest, True)"
    unfolding h by (rule Cut_append[OF sp])
  have n: "CHR '','' \<notin> set (''Credential='' @ ?c)" "CHR '','' \<notin> set ('' SignedHeaders='' @ ?sh)"
    "CHR '','' \<notin> set ('' Signature='' @ sig)"
    using plain_no_comma[OF pc] plain_no_comma[OF ps] plain_no_comma[OF assms(4)] by auto
  have rest: "?rest = (''Credential='' @ ?c) @ CHR '','' # ('' SignedHeaders='' @ ?sh) @ CHR '','' # ('' Signature='' @ sig)"
    by simp
  have sp3: "Split ?rest CHR '','' = [''Credential='' @ ?c, '' SignedHeaders='' @ ?sh, '' Signature='' @ sig]"
    unfolding rest Split_append[OF n(1)] Split_append[OF n(2)] Split_notin[OF n(3)] ..
  have "Split ?sh CHR '';'' = signed" using assms(8,9) by (simp add: Split_Join list_all_iff)
  with auth_parts_three[OF pc ps assms(4)] sp3
  have parts: "auth_parts (Split ?rest CHR '','') [] [] [] = Some (?c, signed, sig)" by (simp only:)
  show ?thesis
    unfolding parseAuthorization_def cut prod.case parts option.case
    using assms(5-8) by (simp add: Cut_append)
qed

text \<open>
  C16. A correctly signed request is accepted: a client that knows the secret, builds the
  Authorization header as minio-go does, signs Host, the date, the payload hash and all its
  x-amz headers, and whose clock is within 15 minutes of the server's, gets its access key
  id back.
\<close>

theorem Verify_complete:
  assumes "header_Get r ''Authorization'' = authorization_header akid scope signed sig"
    and "scope = format_yyyymmdd t @ ''/'' @ region @ ''/'' @ service @ ''/'' @ scopeTerminator"
    and "CHR ''/'' \<notin> set (format_yyyymmdd t)" "CHR ''/'' \<notin> set region" "CHR ''/'' \<notin> set service"
    and "plain akid" "plain scope" "list_all plain signed" "plain sig" "akid \<noteq> []" "CHR ''/'' \<notin> set akid"
    and "sig \<noteq> []" "list_all (\<lambda>h. CHR '';'' \<notin> set h) signed"
    and "parse_iso8601 (header_Get r ''X-Amz-Date'') = Some t" and "\<bar>now - t\<bar> \<le> 15 * minute"
    and "{''host'', ''x-amz-date'', ''x-amz-content-sha256''} \<subseteq> set signed"
    and "\<And>name vs. (name, vs) \<in> set (rq_Header r) \<Longrightarrow> HasPrefix (ToLower name) ''x-amz-'' \<Longrightarrow> ToLower name \<in> set signed"
    and "\<not> HasPrefix (header_Get r ''X-Amz-Content-Sha256'') ''STREAMING-''"
    and "ParseQuery (rq_RawQuery r) = Some query" and "look akid k = (Some secret, k')"
    and "sig = signature_for cr r query secret scope (format_yyyymmdd t) region signed service"
  shows "Verify cr r region service look now k = (Inr akid, k')"
proof -
  have "signed \<noteq> []" using assms(16) by auto
  then have p: "parseAuthorization (header_Get r ''Authorization'') = Inr (akid, scope, signed, sig)"
    unfolding assms(1) using assms by (intro parseAuthorization_header) auto
  have st: "CHR ''/'' \<notin> set scopeTerminator" by code_simp
  have s: "Split scope CHR ''/'' = [format_yyyymmdd t, region, service, scopeTerminator]"
    unfolding assms(2) append.simps using assms(3-5) st by (simp add: Split_append Split_notin)
  have ps: "parseScope scope region service = Inr (format_yyyymmdd t, region)" by (simp add: parseScope_def s)
  have rs: "requireSignedHeaders r signed = None"
    using assms(16,17) by (auto simp: requireSignedHeaders_None hostHeader_def dateHeader_def contentSHAHeader_def)
  have am: "header_Get r ''X-Amz-Date'' \<noteq> []" using assms(14) by (auto simp: parse_iso8601_def get_year_def)
  from p ps am rs assms(14,15,18-21) skew_bounds[of now t] show ?thesis
    by (simp add: Verify_def Let_def streamingPrefix_def)
qed

theorem Verify_complete_witness:
  "Verify toy_crypto signed_request ''warphold'' ''s3'' toy_look (1709210096 * second) 0 = (Inr ''AK'', Suc 0)"
proof (rule Verify_complete[where scope = "''20240229/warphold/s3/aws4_request''" and sig = "''6d''"
      and signed = "[''host'', ''x-amz-content-sha256'', ''x-amz-date'']" and t = "1709210096 * second"
      and secret = "''secret''" and query = "[(''list-type'', ''2'')]"])
  show "header_Get signed_request ''Authorization'' = authorization_header ''AK'' ''20240229/warphold/s3/aws4_request''
      [''host'', ''x-amz-content-sha256'', ''x-amz-date''] ''6d''" by code_simp
  show "''20240229/warphold/s3/aws4_request'' = format_yyyymmdd (1709210096 * second) @ ''/'' @ ''warphold'' @ ''/'' @ ''s3'' @ ''/'' @ scopeTerminator"
    by code_simp
  show "CHR ''/'' \<notin> set (format_yyyymmdd (1709210096 * second))" by code_simp
  show "plain ''AK''" "plain ''20240229/warphold/s3/aws4_request''" "list_all plain [''host'', ''x-amz-content-sha256'', ''x-amz-date'']" "plain ''6d''"
    by code_simp+
  show "parse_iso8601 (header_Get signed_request ''X-Amz-Date'') = Some (1709210096 * second)" by code_simp
  show "ParseQuery (rq_RawQuery signed_request) = Some [(''list-type'', ''2'')]" by code_simp
  show "toy_look ''AK'' 0 = (Some ''secret'', Suc 0)" by (simp add: toy_look_def)
  show "''6d'' = signature_for toy_crypto signed_request [(''list-type'', ''2'')] ''secret'' ''20240229/warphold/s3/aws4_request''
      (format_yyyymmdd (1709210096 * second)) ''warphold'' [''host'', ''x-amz-content-sha256'', ''x-amz-date''] ''s3''"
  proof -
    have "hex_EncodeToString ''m'' = ''6d''" by code_simp
    then show ?thesis by (simp add: signature_for_def toy_crypto_def Let_def)
  qed
  show "\<not> HasPrefix (header_Get signed_request ''X-Amz-Content-Sha256'') ''STREAMING-''" by code_simp
  have "requireSignedHeaders signed_request [''host'', ''x-amz-content-sha256'', ''x-amz-date''] = None" by code_simp
  note h = iffD1[OF requireSignedHeaders_None this, THEN conjunct2, THEN conjunct2, THEN conjunct2, rule_format]
  show "\<And>name vs. (name, vs) \<in> set (rq_Header signed_request) \<Longrightarrow> HasPrefix (ToLower name) ''x-amz-'' \<Longrightarrow>
      ToLower name \<in> set [''host'', ''x-amz-content-sha256'', ''x-amz-date'']"
    by (rule h)
qed (simp_all add: duration_defs)

end
