(* ===== verification/Net_IP.thy ===== *)
theory Net_IP
  imports Go_Encoding
begin

unbundle bit_operations_syntax

section \<open>The Go standard library: addresses of package net\<close>

text \<open>
  \<^verbatim>\<open>net.ParseIP\<close>, \<^verbatim>\<open>net.ParseCIDR\<close>, \<^verbatim>\<open>IPNet.Contains\<close>, \<^verbatim>\<open>IP.String\<close> and
  \<^verbatim>\<open>net.SplitHostPort\<close>. An address is the list of its bytes, 4 or 16 of them; the parsers
  return the 16-byte form, in which an IPv4 address has the prefix \<open>v4InV6Prefix\<close>.
\<close>

type_synonym IP = "nat list"

record IPNet =
  ipn_IP :: IP
  ipn_Mask :: "nat list"

definition v4InV6Prefix :: "nat list" where
  "v4InV6Prefix = [0, 0, 0, 0, 0, 0, 0, 0, 0, 0, 255, 255]"

definition To4 :: "IP \<Rightarrow> IP option" where
  "To4 ip = (if length ip = 4 then Some ip
     else if length ip = 16 \<and> take 12 ip = v4InV6Prefix then Some (drop 12 ip) else None)"

subsection \<open>Parsing\<close>

definition ipv4_field :: "string \<Rightarrow> nat option" where
  "ipv4_field f =
     (if f = [] \<or> \<not> list_all is_digit f \<or> (length f > 1 \<and> hd f = CHR ''0'') then None
      else case dec_val f of Some v \<Rightarrow> if v \<le> 255 then Some v else None | None \<Rightarrow> None)"

fun sequence :: "'a option list \<Rightarrow> 'a list option" where
  "sequence [] = Some []"
| "sequence (x # xs) = (case x of None \<Rightarrow> None | Some a \<Rightarrow> map_option (Cons a) (sequence xs))"

definition parseIPv4 :: "string \<Rightarrow> nat list option" where
  "parseIPv4 s = (let fs = Split s CHR ''.'' in
     if length fs \<noteq> 4 then None else sequence (map ipv4_field fs))"

definition hex_run :: "string \<Rightarrow> string" where
  "hex_run s = takeWhile (\<lambda>c. hex_val c \<noteq> None) s"

definition hex_num :: "string \<Rightarrow> nat" where
  "hex_num s = foldl (\<lambda>acc c. acc * 16 + (case hex_val c of Some v \<Rightarrow> v | None \<Rightarrow> 0)) 0 s"

text \<open>
  The loop of \<^verbatim>\<open>parseIPv6\<close> over the groups: the bytes so far, the position of the ellipsis,
  and the rest of the text. One round reads a group, or a trailing IPv4 address, and the
  separator after it; the loop ends when the text does. Eight groups fill the address, so
  the fuel is 8.
\<close>

definition ipv6_separator :: "nat list \<Rightarrow> nat option \<Rightarrow> string \<Rightarrow> (nat list \<times> nat option \<times> string) option" where
  "ipv6_separator ip ell r =
     (if r = [] then Some (ip, ell, [])
      else if hd r \<noteq> CHR '':'' \<or> tl r = [] then None
      else if hd (tl r) = CHR '':'' then
        (if ell \<noteq> None then None else Some (ip, Some (length ip), tl (tl r)))
      else Some (ip, ell, tl r))"

definition ipv6_group :: "nat list \<Rightarrow> nat option \<Rightarrow> string \<Rightarrow> (nat list \<times> nat option \<times> string) option" where
  "ipv6_group ip ell s =
     (let h = hex_run s; r = drop (length h) s in
      if h = [] \<or> length h > 4 then None
      else if r \<noteq> [] \<and> hd r = CHR ''.'' then
        (if (ell = None \<and> length ip \<noteq> 12) \<or> length ip + 4 > 16 then None
         else map_option (\<lambda>f. (ip @ f, ell, [])) (parseIPv4 s))
      else ipv6_separator (ip @ [hex_num h div 256, hex_num h mod 256]) ell r)"

fun ipv6_groups :: "nat \<Rightarrow> nat list \<Rightarrow> nat option \<Rightarrow> string \<Rightarrow> (nat list \<times> nat option) option" where
  "ipv6_groups 0 ip ell s = None"
| "ipv6_groups (Suc n) ip ell s = (case ipv6_group ip ell s of
     None \<Rightarrow> None
   | Some (ip', ell', s') \<Rightarrow> if s' = [] then Some (ip', ell') else ipv6_groups n ip' ell' s')"

definition expand_ellipsis :: "nat list \<times> nat option \<Rightarrow> nat list option" where
  "expand_ellipsis x = (case x of (ip, ell) \<Rightarrow>
     if length ip < 16 then
       (case ell of None \<Rightarrow> None
        | Some e \<Rightarrow> Some (take e ip @ replicate (16 - length ip) 0 @ drop e ip))
     else (case ell of None \<Rightarrow> Some ip | Some _ \<Rightarrow> None))"

definition parseIPv6 :: "string \<Rightarrow> nat list option" where
  "parseIPv6 s =
     (if CHR ''%'' \<in> set s then None
      else if HasPrefix s ''::'' then
        (let r = drop 2 s in
         if r = [] then Some (replicate 16 0)
         else case ipv6_groups 8 [] (Some 0) r of None \<Rightarrow> None | Some x \<Rightarrow> expand_ellipsis x)
      else case ipv6_groups 8 [] None s of None \<Rightarrow> None | Some x \<Rightarrow> expand_ellipsis x)"

text \<open>
  \<^verbatim>\<open>netip.ParseAddr\<close> without zones, which both callers refuse: the first of the characters
  \<open>.\<close>, \<open>:\<close> and \<open>%\<close> decides.
\<close>

definition parseAddr :: "string \<Rightarrow> IP option" where
  "parseAddr s = (case find (\<lambda>c. c \<in> {CHR ''.'', CHR '':'', CHR ''%''}) s of
     Some c \<Rightarrow> if c = CHR ''.'' then parseIPv4 s else if c = CHR '':'' then parseIPv6 s else None
   | None \<Rightarrow> None)"

definition As16 :: "IP \<Rightarrow> IP" where
  "As16 a = (if length a = 4 then v4InV6Prefix @ a else a)"

definition ParseIP :: "string \<Rightarrow> IP option" where
  "ParseIP s = map_option As16 (parseAddr s)"

definition mask_byte :: "nat \<Rightarrow> nat" where
  "mask_byte n = 256 - 2 ^ (8 - min 8 n)"

definition CIDRMask :: "nat \<Rightarrow> nat \<Rightarrow> nat list" where
  "CIDRMask ones bits = map (\<lambda>i. mask_byte (ones - 8 * i)) [0 ..< bits div 8]"

definition and_bytes :: "nat list \<Rightarrow> nat list \<Rightarrow> nat list" where
  "and_bytes a b = map (\<lambda>(x, y). x AND y) (zip a b)"

definition IP_Mask :: "IP \<Rightarrow> nat list \<Rightarrow> IP option" where
  "IP_Mask ip m =
     (let m' = (if length m = 16 \<and> length ip = 4 \<and> list_all ((=) 255) (take 12 m) then drop 12 m else m);
          ip' = (if length m' = 4 \<and> length ip = 16 \<and> take 12 ip = v4InV6Prefix then drop 12 ip else ip)
      in if length ip' \<noteq> length m' then None else Some (and_bytes ip' m'))"

text \<open>A CIDR's length: digits only, below \<^verbatim>\<open>0xFFFFFF\<close>.\<close>

definition dtoi :: "string \<Rightarrow> nat option" where
  "dtoi s = (if s = [] \<or> \<not> list_all is_digit s then None
     else case dec_val s of Some v \<Rightarrow> if v < 0xFFFFFF then Some v else None | None \<Rightarrow> None)"

definition ParseCIDR :: "string \<Rightarrow> IPNet option" where
  "ParseCIDR s = (case Cut s CHR ''/'' of (addr, ones, found) \<Rightarrow>
     if \<not> found then None
     else case parseAddr addr of
       None \<Rightarrow> None
     | Some a \<Rightarrow>
         (case dtoi ones of
            None \<Rightarrow> None
          | Some n \<Rightarrow>
              if n > 8 * length a then None
              else let m = CIDRMask n (8 * length a)
                   in map_option (\<lambda>ip. \<lparr>ipn_IP = ip, ipn_Mask = m\<rparr>) (IP_Mask (As16 a) m)))"

subsection \<open>Membership\<close>

definition networkNumberAndMask :: "IPNet \<Rightarrow> (nat list \<times> nat list) option" where
  "networkNumberAndMask n =
     (case (case To4 (ipn_IP n) of Some ip \<Rightarrow> Some ip
            | None \<Rightarrow> if length (ipn_IP n) = 16 then Some (ipn_IP n) else None) of
        None \<Rightarrow> None
      | Some ip \<Rightarrow>
          let m = ipn_Mask n in
          if length m = 4 then (if length ip = 4 then Some (ip, m) else None)
          else if length m = 16 then Some (ip, if length ip = 4 then drop 12 m else m)
          else None)"

definition IPNet_Contains :: "IPNet \<Rightarrow> IP \<Rightarrow> bool" where
  "IPNet_Contains n ip = (case networkNumberAndMask n of
     None \<Rightarrow> ip = []
   | Some (nn, m) \<Rightarrow>
       let ip' = (case To4 ip of Some x \<Rightarrow> x | None \<Rightarrow> ip)
       in length ip' = length nn \<and> and_bytes nn m = and_bytes ip' m)"

subsection \<open>Printing\<close>

definition ip4_string :: "nat list \<Rightarrow> string" where
  "ip4_string b = Join (map dec_digits b) ''.''"

fun group16 :: "nat list \<Rightarrow> nat list" where
  "group16 (a # b # r) = (a * 256 + b) # group16 r"
| "group16 _ = []"

fun hex_digits :: "nat \<Rightarrow> string" where
  "hex_digits n = (if n < 16 then [hex_digit n] else hex_digits (n div 16) @ [hex_digit (n mod 16)])"

declare hex_digits.simps [simp del]

definition zero_run :: "nat list \<Rightarrow> nat \<Rightarrow> nat" where
  "zero_run g i = length (takeWhile ((=) 0) (drop i g))"

text \<open>The first longest run of at least two zero groups.\<close>

definition longest_zeros :: "nat list \<Rightarrow> (nat \<times> nat) option" where
  "longest_zeros g = foldl (\<lambda>best i. let l = zero_run g i in
     if l \<ge> 2 \<and> (case best of None \<Rightarrow> True | Some (_, bl) \<Rightarrow> l > bl) then Some (i, l) else best)
     None [0 ..< length g]"

definition ip6_string :: "nat list \<Rightarrow> string" where
  "ip6_string b = (let g = group16 b in
     case longest_zeros g of
       None \<Rightarrow> Join (map hex_digits g) '':''
     | Some (i, l) \<Rightarrow>
         Join (map hex_digits (take i g)) '':'' @ ''::'' @ Join (map hex_digits (drop (i + l) g)) '':'')"

definition IP_String :: "IP \<Rightarrow> string" where
  "IP_String ip = (case To4 ip of Some p4 \<Rightarrow> ip4_string p4 | None \<Rightarrow> ip6_string ip)"

subsection \<open>Host and port\<close>

fun index_byte :: "string \<Rightarrow> char \<Rightarrow> nat option" where
  "index_byte [] c = None"
| "index_byte (x # xs) c = (if x = c then Some 0 else map_option Suc (index_byte xs c))"

definition last_index_byte :: "string \<Rightarrow> char \<Rightarrow> nat option" where
  "last_index_byte s c = map_option (\<lambda>i. length s - 1 - i) (index_byte (rev s) c)"

definition SplitHostPort :: "string \<Rightarrow> (string \<times> string) option" where
  "SplitHostPort hp = (case last_index_byte hp CHR '':'' of
     None \<Rightarrow> None
   | Some i \<Rightarrow>
       if hd hp = CHR ''['' then
         (case index_byte hp CHR '']'' of
            None \<Rightarrow> None
          | Some e \<Rightarrow>
              if e + 1 \<noteq> i then None
              else if CHR ''['' \<in> set (drop 1 hp) \<or> CHR '']'' \<in> set (drop (e + 1) hp) then None
              else Some (take (e - 1) (drop 1 hp), drop (i + 1) hp))
       else if CHR '':'' \<in> set (take i hp) then None
       else if CHR ''['' \<in> set hp \<or> CHR '']'' \<in> set hp then None
       else Some (take i hp, drop (i + 1) hp))"

text \<open>\<^verbatim>\<open>strings.Trim(s, cutset)\<close> for an ASCII cutset.\<close>

definition Trim :: "string \<Rightarrow> string \<Rightarrow> string" where
  "Trim s cutset =
     rev (dropWhile (\<lambda>c. c \<in> set cutset) (rev (dropWhile (\<lambda>c. c \<in> set cutset) s)))"

end
