(* ===== verification/Client_IP.thy ===== *)
theory Client_IP
  imports Http Net_IP
begin

section \<open>The address a request is limited by\<close>

text \<open>
  Models \<^verbatim>\<open>ClientIP\<close>, \<^verbatim>\<open>peerIP\<close>, \<^verbatim>\<open>isTrusted\<close> and \<^verbatim>\<open>ParseTrustedProxies\<close> of
  \<^verbatim>\<open>src/fleet/gateway/limit.go\<close>.
\<close>

definition peerIP :: "request \<Rightarrow> string" where
  "peerIP r = (case SplitHostPort (rq_RemoteAddr r) of
     None \<Rightarrow> rq_RemoteAddr r | Some (host, port) \<Rightarrow> host)"

definition isTrusted :: "IP option \<Rightarrow> IPNet list \<Rightarrow> bool" where
  "isTrusted ip trusted = (case ip of
     None \<Rightarrow> False | Some a \<Rightarrow> list_ex (\<lambda>n. IPNet_Contains n a) trusted)"

definition parse_hop :: "string \<Rightarrow> IP option" where
  "parse_hop hop = ParseIP (Trim (TrimSpace hop) ''[]'')"

text \<open>The hops from right to left.\<close>

fun client_hop :: "string \<Rightarrow> IPNet list \<Rightarrow> string list \<Rightarrow> string" where
  "client_hop peer trusted [] = peer"
| "client_hop peer trusted (hop # hops) = (case parse_hop hop of
     None \<Rightarrow> peer
   | Some ip \<Rightarrow> if \<not> isTrusted (Some ip) trusted then IP_String ip else client_hop peer trusted hops)"

definition forwarded_hops :: "request \<Rightarrow> string list" where
  "forwarded_hops r = Split (Join (header_Values r ''X-Forwarded-For'') '','') CHR '',''"

definition ClientIP :: "request \<Rightarrow> IPNet list \<Rightarrow> string" where
  "ClientIP r trusted =
     (let peer = peerIP r in
      if trusted = [] \<or> \<not> isTrusted (ParseIP peer) trusted then peer
      else client_hop peer trusted (rev (forwarded_hops r)))"

fun parse_proxies :: "string list \<Rightarrow> IPNet list option" where
  "parse_proxies [] = Some []"
| "parse_proxies (f # fs) =
     (let field = TrimSpace f in
      if field = [] then parse_proxies fs
      else if \<not> Contains field CHR ''/'' then
        (case ParseIP (Trim field ''[]'') of
           None \<Rightarrow> None
         | Some ip \<Rightarrow>
             let bits = (if To4 ip \<noteq> None then 32 else 128)
             in map_option (Cons \<lparr>ipn_IP = ip, ipn_Mask = CIDRMask bits bits\<rparr>) (parse_proxies fs))
      else (case ParseCIDR field of
              None \<Rightarrow> None
            | Some n \<Rightarrow> map_option (Cons n) (parse_proxies fs)))"

definition ParseTrustedProxies :: "string \<Rightarrow> IPNet list option" where
  "ParseTrustedProxies raw = parse_proxies (Split raw CHR '','')"

subsection \<open>Parsed addresses are sixteen bytes\<close>

lemma sequence_Some:
  "sequence xs = Some ys \<Longrightarrow> length ys = length xs \<and> (\<forall>y \<in> set ys. Some y \<in> set xs)"
  by (induction xs arbitrary: ys) (auto split: option.splits)

lemma ipv4_field_less: "ipv4_field f = Some v \<Longrightarrow> v < 256"
  by (auto simp: ipv4_field_def split: if_splits option.splits)

lemma parseIPv4_bytes:
  assumes "parseIPv4 s = Some b"
  shows "length b = 4 \<and> (\<forall>x \<in> set b. x < 256)"
proof -
  from assms have "length (Split s CHR ''.'') = 4" "sequence (map ipv4_field (Split s CHR ''.'')) = Some b"
    by (auto simp: parseIPv4_def Let_def split: if_splits)
  with sequence_Some[OF this(2)] show ?thesis by (auto simp: image_iff dest!: ipv4_field_less[OF sym] bspec)
qed

lemma hex_val_less: "hex_val c = Some v \<Longrightarrow> v < 16"
  by (auto simp: hex_val_def byte_in_def split: if_splits)

lemma hex_num_less: "hex_num s < 16 ^ length s"
proof (induction s rule: rev_induct)
  case Nil
  then show ?case by (simp add: hex_num_def)
next
  case (snoc c s)
  have "(case hex_val c of Some v \<Rightarrow> v | None \<Rightarrow> 0) < (16::nat)" by (auto dest: hex_val_less split: option.split)
  then show ?case using snoc by (simp add: hex_num_def)
qed

lemma hex_group_bytes: "length h \<le> 4 \<Longrightarrow> hex_num h div 256 < 256"
proof -
  assume "length h \<le> 4"
  then have "(16::nat) ^ length h \<le> 16 ^ 4" by (intro power_increasing) auto
  with hex_num_less[of h] have "hex_num h < 65536" by simp
  then show ?thesis by (simp add: div_less_iff_less_mult)
qed

definition group_ok :: "nat list \<Rightarrow> nat option \<Rightarrow> bool" where
  "group_ok ip ell \<longleftrightarrow> (\<forall>x \<in> set ip. x < 256) \<and> (\<forall>k. ell = Some k \<longrightarrow> k \<le> length ip)"

lemma ipv6_separator_ok:
  "ipv6_separator ip ell r = Some (ip', ell', s') \<Longrightarrow> group_ok ip ell \<Longrightarrow> group_ok ip' ell' \<and> ip' = ip"
  by (auto simp: ipv6_separator_def group_ok_def split: if_splits)

lemma ipv6_group_ok:
  assumes "ipv6_group ip ell s = Some (ip', ell', s')" and "group_ok ip ell" and "length ip \<le> 14"
  shows "group_ok ip' ell' \<and> length ip' \<le> 16 \<and> (s' \<noteq> [] \<longrightarrow> length ip' = length ip + 2)"
proof -
  let ?h = "hex_run s"
  have h: "length ?h \<le> 4" using assms(1) by (auto simp: ipv6_group_def Let_def split: if_splits)
  then have ok: "group_ok (ip @ [hex_num ?h div 256, hex_num ?h mod 256]) ell"
    using assms(2) hex_group_bytes by (auto simp: group_ok_def)
  show ?thesis
  proof (cases "drop (length ?h) s \<noteq> [] \<and> hd (drop (length ?h) s) = CHR ''.''")
    case True
    with assms show ?thesis
      by (auto simp: ipv6_group_def Let_def group_ok_def dest!: parseIPv4_bytes split: if_splits)
  next
    case False
    with assms(1) have "ipv6_separator (ip @ [hex_num ?h div 256, hex_num ?h mod 256]) ell (drop (length ?h) s)
        = Some (ip', ell', s')"
      by (auto simp: ipv6_group_def Let_def split: if_splits)
    from ipv6_separator_ok[OF this ok] assms(3) show ?thesis by auto
  qed
qed

lemma ipv6_groups_ok:
  "ipv6_groups n ip ell s = Some (b, e) \<Longrightarrow> length ip + 2 * n \<le> 16 \<Longrightarrow> group_ok ip ell \<Longrightarrow>
   group_ok b e \<and> length b \<le> 16"
proof (induction n arbitrary: ip ell s)
  case (Suc n)
  then obtain ip' ell' s' where g: "ipv6_group ip ell s = Some (ip', ell', s')"
    by (auto split: option.splits)
  with ipv6_group_ok[OF g Suc.prems(3)] Suc show ?case by (auto split: if_splits)
qed simp

lemma expand_ellipsis_ok:
  "expand_ellipsis (b, e) = Some ip \<Longrightarrow> group_ok b e \<Longrightarrow> length b \<le> 16 \<Longrightarrow> length ip = 16 \<and> (\<forall>x \<in> set ip. x < 256)"
  by (fastforce simp: expand_ellipsis_def group_ok_def split: if_splits option.splits dest: in_set_takeD in_set_dropD)

lemma parse_groups_ok:
  assumes "(case ipv6_groups 8 [] ell s of None \<Rightarrow> None | Some x \<Rightarrow> expand_ellipsis x) = Some ip" and "ell = None \<or> ell = Some 0"
  shows "length ip = 16 \<and> (\<forall>x \<in> set ip. x < 256)"
proof -
  from assms(1) obtain b e where g: "ipv6_groups 8 [] ell s = Some (b, e)" "expand_ellipsis (b, e) = Some ip"
    by (auto split: option.splits)
  have "group_ok [] ell" using assms(2) by (auto simp: group_ok_def)
  with ipv6_groups_ok[OF g(1)] have "group_ok b e" "length b \<le> 16" by auto
  with expand_ellipsis_ok[OF g(2)] show ?thesis by blast
qed

lemma parseIPv6_bytes: "parseIPv6 s = Some ip \<Longrightarrow> length ip = 16 \<and> (\<forall>x \<in> set ip. x < 256)"
  by (cases "HasPrefix s ''::''"; cases "drop 2 s = []")
    (auto simp: parseIPv6_def Let_def simp del: ipv6_groups.simps split: if_splits dest!: parse_groups_ok)

lemma ParseIP_bytes:
  assumes "ParseIP s = Some ip"
  shows "length ip = 16 \<and> (\<forall>x \<in> set ip. x < 256)"
proof -
  from assms obtain a where a: "ip = As16 a" "parseIPv4 s = Some a \<or> parseIPv6 s = Some a"
    by (auto simp: ParseIP_def parseAddr_def split: option.splits if_splits)
  then show ?thesis by (auto simp: As16_def v4InV6Prefix_def dest!: parseIPv4_bytes parseIPv6_bytes)
qed

subsection \<open>Forwarded addresses cannot be forged\<close>

lemma Split_append_any: "Split (a @ c # b) c = Split a c @ Split b c"
proof (induction a)
  case (Cons x a)
  obtain p ps where "Split a c = p # ps" by (metis Split_not_Nil neq_Nil_conv)
  with Cons show ?case by simp
qed simp

lemma Join_append: "xs \<noteq> [] \<Longrightarrow> ys \<noteq> [] \<Longrightarrow> Join (xs @ ys) sep = Join xs sep @ sep @ Join ys sep"
proof (induction xs sep rule: Join.induct)
  case (2 x sep)
  then show ?case by (cases ys) auto
qed auto

lemma hops_append:
  "ys \<noteq> [] \<Longrightarrow> \<exists>front. Split (Join (xs @ ys) [c]) c = front @ Split (Join ys [c]) c"
  by (cases "xs = []") (auto simp: Join_append Split_append_any)

lemma client_hop_found:
  assumes "parse_hop hop = Some ip" and "\<not> isTrusted (Some ip) trusted"
    and "\<forall>h \<in> set right. \<exists>a. parse_hop h = Some a \<and> isTrusted (Some a) trusted"
  shows "client_hop peer trusted (right @ hop # rest) = IP_String ip"
  using assms(3)
proof (induction right)
  case Nil
  then show ?case using assms(1,2) by simp
next
  case (Cons h right)
  then obtain a where "parse_hop h = Some a" "isTrusted (Some a) trusted" by auto
  with Cons show ?case by simp
qed

text \<open>
  C35. The client address cannot be forged through the header. When the peer is a trusted
  proxy, the address used is the rightmost hop that is not a trusted proxy, whatever header
  lines or hops stand to its left: a client can prepend to the chain but cannot hide the
  hop the nearest trusted proxy appended.
\<close>

theorem client_ip_rightmost_untrusted:
  assumes "isTrusted (ParseIP (peerIP r)) trusted"
    and "header_Values r ''X-Forwarded-For'' = forged @ chain" and "chain \<noteq> []"
    and "Split (Join chain '','') CHR '','' = left @ hop # right"
    and "parse_hop hop = Some ip" and "\<not> isTrusted (Some ip) trusted"
    and "\<forall>h \<in> set right. \<exists>a. parse_hop h = Some a \<and> isTrusted (Some a) trusted"
  shows "ClientIP r trusted = IP_String ip"
proof -
  have ne: "trusted \<noteq> []" using assms(1) by (auto simp: isTrusted_def split: option.splits)
  from hops_append[OF assms(3), of forged "CHR '',''"] assms(2,4) obtain front where
    "forwarded_hops r = (front @ left) @ hop # right" by (auto simp: forwarded_hops_def)
  then have "rev (forwarded_hops r) = rev right @ hop # rev (front @ left)" by simp
  with client_hop_found[OF assms(5,6), of "rev right"] assms(1,7) ne show ?thesis
    by (simp add: ClientIP_def Let_def)
qed

definition proxied :: request where
  "proxied = \<lparr>rq_Method = ''GET'', rq_Path = ''/warphold/'', rq_RawQuery = [], rq_Host = ''h'',
     rq_RemoteAddr = ''10.0.0.1:443'', rq_Header = [(''X-Forwarded-For'', [''1.1.1.1'', ''2.2.2.2, 10.0.0.2''])],
     rq_ContentLength = 0, rq_Body = \<lparr>bd_data = [], bd_end = None\<rparr>\<rparr>"

definition lan :: "IPNet list" where
  "lan = [\<lparr>ipn_IP = [10, 0, 0, 0], ipn_Mask = [255, 0, 0, 0]\<rparr>]"

theorem client_ip_rightmost_untrusted_witness: "ClientIP proxied lan = ''2.2.2.2''"
proof -
  have p: "ParseIP (peerIP proxied) = Some (v4InV6Prefix @ [10, 0, 0, 1])" by code_simp
  have h1: "parse_hop '' 10.0.0.2'' = Some (v4InV6Prefix @ [10, 0, 0, 2])" by code_simp
  have h2: "parse_hop ''2.2.2.2'' = Some (v4InV6Prefix @ [2, 2, 2, 2])" by code_simp
  have v: "header_Values proxied ''X-Forwarded-For'' = [''1.1.1.1''] @ [''2.2.2.2, 10.0.0.2'']" by code_simp
  have c: "Split (Join [''2.2.2.2, 10.0.0.2''] '','') CHR '','' = [] @ ''2.2.2.2'' # ['' 10.0.0.2'']" by code_simp
  have s: "IP_String (v4InV6Prefix @ [2, 2, 2, 2]) = ''2.2.2.2''" by code_simp
  have t: "isTrusted (Some (v4InV6Prefix @ [10, 0, 0, 1])) lan" "isTrusted (Some (v4InV6Prefix @ [10, 0, 0, 2])) lan"
    "\<not> isTrusted (Some (v4InV6Prefix @ [2, 2, 2, 2])) lan"
    by (simp_all add: isTrusted_def lan_def IPNet_Contains_def networkNumberAndMask_def To4_def v4InV6Prefix_def and_bytes_def)
  have tp: "isTrusted (ParseIP (peerIP proxied)) lan" unfolding p by (rule t(1))
  have tr: "\<forall>x \<in> set ['' 10.0.0.2'']. \<exists>a. parse_hop x = Some a \<and> isTrusted (Some a) lan"
    unfolding list.set ball_simps using h1 t(2) by blast
  from client_ip_rightmost_untrusted[OF tp v not_Cons_self2 c h2 t(3) tr] show ?thesis unfolding s .
qed

subsection \<open>The trusted-proxy setting\<close>

lemma and_bytes_full: "length b = n \<Longrightarrow> \<forall>x \<in> set b. x < 256 \<Longrightarrow> and_bytes b (replicate n 255) = b"
proof (induction b arbitrary: n)
  case (Cons x b)
  have "x AND 255 = take_bit 8 x" by (simp add: take_bit_eq_mask mask_eq_exp_minus_1)
  also have "\<dots> = x" using Cons.prems by (simp add: take_bit_nat_eq_self)
  finally show ?case using Cons by (cases n) (auto simp: and_bytes_def)
qed (simp add: and_bytes_def)

lemma CIDRMask_full: "CIDRMask 32 32 = replicate 4 255" "CIDRMask 128 128 = replicate 16 255"
  by code_simp+

lemma To4_Some: "length ip = 16 \<Longrightarrow> To4 ip = Some x \<longleftrightarrow> ip = v4InV6Prefix @ x"
proof -
  have "length v4InV6Prefix = 12" by (simp add: v4InV6Prefix_def)
  moreover assume "length ip = 16"
  ultimately show ?thesis by (auto simp: To4_def) (metis append_take_drop_id)
qed

lemma bare_net_contains:
  assumes "length a = 16" "\<forall>x \<in> set a. x < 256" "length b = 16" "\<forall>x \<in> set b. x < 256"
    and "m = (if To4 a \<noteq> None then CIDRMask 32 32 else CIDRMask 128 128)"
  shows "IPNet_Contains \<lparr>ipn_IP = a, ipn_Mask = m\<rparr> b \<longleftrightarrow> b = a"
proof (cases "To4 a")
  case None
  then have nn: "networkNumberAndMask \<lparr>ipn_IP = a, ipn_Mask = m\<rparr> = Some (a, replicate 16 255)"
    using assms(1,5) by (simp add: networkNumberAndMask_def CIDRMask_full)
  show ?thesis
  proof (cases "To4 b")
    case nb: None
    with nn assms show ?thesis by (auto simp: IPNet_Contains_def and_bytes_full)
  next
    case (Some b4)
    then have "length b4 = 4" using To4_Some[OF assms(3)] assms(3) by (auto simp: v4InV6Prefix_def)
    with Some nn None assms(1) show ?thesis by (auto simp: IPNet_Contains_def)
  qed
next
  case (Some a4)
  then have a4: "a = v4InV6Prefix @ a4" "length a4 = 4" "\<forall>x \<in> set a4. x < 256"
    using To4_Some[OF assms(1)] assms(1,2) by (auto simp: v4InV6Prefix_def)
  then have nn: "networkNumberAndMask \<lparr>ipn_IP = a, ipn_Mask = m\<rparr> = Some (a4, replicate 4 255)"
    using Some assms(5) by (simp add: networkNumberAndMask_def CIDRMask_full)
  show ?thesis
  proof (cases "To4 b")
    case None
    with nn Some a4 assms(3) show ?thesis by (auto simp: IPNet_Contains_def)
  next
    case nb: (Some b4)
    then have "b = v4InV6Prefix @ b4" "length b4 = 4" "\<forall>x \<in> set b4. x < 256"
      using To4_Some[OF assms(3)] assms(3,4) by (auto simp: v4InV6Prefix_def)
    with nn a4 nb show ?thesis by (auto simp: IPNet_Contains_def and_bytes_full)
  qed
qed

definition bad_proxy :: "string \<Rightarrow> bool" where
  "bad_proxy f \<longleftrightarrow> (let field = TrimSpace f in
     field \<noteq> [] \<and> (if Contains field CHR ''/'' then ParseCIDR field = None else ParseIP (Trim field ''[]'') = None))"

lemma parse_proxies_bad: "f \<in> set fs \<Longrightarrow> bad_proxy f \<Longrightarrow> parse_proxies fs = None"
  by (induction fs) (auto simp: bad_proxy_def Let_def split: option.splits if_splits)

text \<open>
  The trusted-proxy setting means what it says: one entry that is neither an address nor
  a CIDR fails the whole list, and a bare address trusts that address and no other.
\<close>

theorem trusted_proxies_exact:
  assumes "ParseTrustedProxies raw = Some nets"
  shows "(\<forall>f. f \<in> set (Split raw CHR '','') \<longrightarrow> \<not> bad_proxy f)
    \<and> (\<forall>a b s. CHR '','' \<notin> set raw \<longrightarrow> \<not> Contains (TrimSpace raw) CHR ''/'' \<longrightarrow>
         ParseIP (Trim (TrimSpace raw) ''[]'') = Some a \<longrightarrow> ParseIP s = Some b \<longrightarrow>
         (isTrusted (Some b) nets \<longleftrightarrow> b = a))"
proof (intro conjI allI impI)
  fix f assume "f \<in> set (Split raw CHR '','')"
  then show "\<not> bad_proxy f" using assms parse_proxies_bad by (auto simp: ParseTrustedProxies_def)
next
  fix a b s
  assume c: "CHR '','' \<notin> set raw" and sl: "\<not> Contains (TrimSpace raw) CHR ''/''"
    and a: "ParseIP (Trim (TrimSpace raw) ''[]'') = Some a" and b: "ParseIP s = Some b"
  have "TrimSpace raw \<noteq> []"
  proof
    assume "TrimSpace raw = []"
    with a show False by (simp add: Trim_def ParseIP_def parseAddr_def)
  qed
  with assms c sl a have "nets = [\<lparr>ipn_IP = a, ipn_Mask = (if To4 a \<noteq> None then CIDRMask 32 32 else CIDRMask 128 128)\<rparr>]"
    by (auto simp: ParseTrustedProxies_def Split_notin Let_def split: if_splits)
  with bare_net_contains[of a b] ParseIP_bytes[OF a] ParseIP_bytes[OF b] show "isTrusted (Some b) nets \<longleftrightarrow> b = a"
    by (simp add: isTrusted_def)
qed

theorem trusted_proxies_exact_witness:
  "\<exists>nets. ParseTrustedProxies ''10.0.0.1'' = Some nets
     \<and> (isTrusted (Some (v4InV6Prefix @ [10, 0, 0, 2])) nets \<longleftrightarrow> v4InV6Prefix @ [10, 0, 0, 2] = v4InV6Prefix @ [10, 0, 0, 1])"
proof -
  have e: "ParseTrustedProxies ''10.0.0.1'' =
      Some [\<lparr>ipn_IP = v4InV6Prefix @ [10, 0, 0, 1], ipn_Mask = [255, 255, 255, 255]\<rparr>]"
    and p: "ParseIP (Trim (TrimSpace ''10.0.0.1'') ''[]'') = Some (v4InV6Prefix @ [10, 0, 0, 1])"
      "ParseIP ''10.0.0.2'' = Some (v4InV6Prefix @ [10, 0, 0, 2])"
      "\<not> Contains (TrimSpace ''10.0.0.1'') CHR ''/''"
    by code_simp+
  have "CHR '','' \<notin> set ''10.0.0.1''" by simp
  with trusted_proxies_exact[OF e] e p show ?thesis by blast
qed

end
