(* ===== verification/Rate_Limit.thy ===== *)
theory Rate_Limit
  imports Complex_Main Prelude
begin

section \<open>Rate limits\<close>

text \<open>
  Models the token buckets of \<^verbatim>\<open>src/fleet/gateway/limit.go\<close>. Tokens are exact rationals where
  the code has \<^verbatim>\<open>float64\<close>; times and durations are nanoseconds, and the elapsed time
  saturates as \<^verbatim>\<open>Time.Sub\<close> does.
\<close>

definition DefaultRatePerSecond :: rat where "DefaultRatePerSecond = 50"
definition DefaultRateBurst :: rat where "DefaultRateBurst = 200"
definition DefaultIPRatePerSecond :: rat where "DefaultIPRatePerSecond = 200"
definition DefaultIPRateBurst :: rat where "DefaultIPRateBurst = 800"
definition idleEvict :: duration where "idleEvict = 10 * minute"
definition sweepEvery :: duration where "sweepEvery = minute"

record bucket =
  b_tokens :: rat
  b_last :: gotime

record limiter =
  lm_rate :: rat
  lm_burst :: rat
  lm_buckets :: "(string \<times> bucket) list"
  lm_lastSweep :: gotime

definition newLimiter :: "rat \<Rightarrow> rat \<Rightarrow> limiter" where
  "newLimiter ratePerSecond burst =
     \<lparr>lm_rate = (if ratePerSecond \<le> 0 then DefaultRatePerSecond else ratePerSecond),
      lm_burst = (if burst \<le> 0 then DefaultRateBurst else burst),
      lm_buckets = [], lm_lastSweep = zero_time\<rparr>"

definition newIPLimiter :: "rat \<Rightarrow> rat \<Rightarrow> limiter" where
  "newIPLimiter ratePerSecond burst =
     newLimiter (if ratePerSecond \<le> 0 then DefaultIPRatePerSecond else ratePerSecond)
       (if burst \<le> 0 then DefaultIPRateBurst else burst)"

definition Seconds :: "duration \<Rightarrow> rat" where
  "Seconds d = of_int d / of_int second"

definition sweepLocked :: "gotime \<Rightarrow> limiter \<Rightarrow> limiter" where
  "sweepLocked now l =
     (if time_sub now (lm_lastSweep l) < sweepEvery then l
      else l\<lparr>lm_lastSweep := now,
             lm_buckets := filter (\<lambda>(id, b). \<not> time_sub now (b_last b) > idleEvict) (lm_buckets l)\<rparr>)"

definition refill :: "limiter \<Rightarrow> gotime \<Rightarrow> bucket \<Rightarrow> rat" where
  "refill l now b =
     (let d = time_sub now (b_last b)
      in if d > 0 then min (lm_burst l) (b_tokens b + Seconds d * lm_rate l) else b_tokens b)"

definition allow :: "string \<Rightarrow> gotime \<Rightarrow> limiter \<Rightarrow> bool \<times> limiter" where
  "allow key now l0 =
     (let l = sweepLocked now l0;
          b = (case map_of (lm_buckets l) key of Some b \<Rightarrow> b | None \<Rightarrow> \<lparr>b_tokens = lm_burst l, b_last = now\<rparr>);
          tokens = refill l now b
      in if tokens < 1
         then (False, l\<lparr>lm_buckets := AList.update key \<lparr>b_tokens = tokens, b_last = now\<rparr> (lm_buckets l)\<rparr>)
         else (True, l\<lparr>lm_buckets := AList.update key \<lparr>b_tokens = tokens - 1, b_last = now\<rparr> (lm_buckets l)\<rparr>))"

text \<open>A sequence of requests, and how many of one key's requests pass.\<close>

fun requests :: "(string \<times> gotime) list \<Rightarrow> limiter \<Rightarrow> (string \<times> bool) list \<times> limiter" where
  "requests [] l = ([], l)"
| "requests ((key, now) # rs) l =
     (case allow key now l of (ok, l') \<Rightarrow>
      case requests rs l' of (oks, l'') \<Rightarrow> ((key, ok) # oks, l''))"

definition admitted :: "string \<Rightarrow> (string \<times> bool) list \<Rightarrow> nat" where
  "admitted key oks = length (filter (\<lambda>x. x = (key, True)) oks)"

subsection \<open>The tokens a key could use\<close>

text \<open>
  The balance of a key at a time: what its bucket would hold after a refill, a full burst
  where it has no bucket.
\<close>

definition balance :: "limiter \<Rightarrow> string \<Rightarrow> gotime \<Rightarrow> rat" where
  "balance l key now = (case map_of (lm_buckets l) key of
     Some b \<Rightarrow> refill l now b | None \<Rightarrow> lm_burst l)"

definition limiter_wf :: "gotime \<Rightarrow> limiter \<Rightarrow> bool" where
  "limiter_wf now l \<longleftrightarrow> 0 < lm_rate l \<and> 1 \<le> lm_burst l \<and> distinct (map fst (lm_buckets l))
     \<and> (\<forall>(k, b) \<in> set (lm_buckets l). 0 \<le> b_tokens b \<and> b_tokens b \<le> lm_burst l \<and> b_last b \<le> now)"

lemma Seconds_mono: "d \<le> d' \<Longrightarrow> Seconds d \<le> Seconds d'"
  by (simp add: Seconds_def second_def divide_right_mono)

lemma Seconds_pos: "0 \<le> d \<Longrightarrow> 0 \<le> Seconds d"
  by (simp add: Seconds_def second_def)

lemma Seconds_add: "Seconds (a + b) = Seconds a + Seconds b"
  by (simp add: Seconds_def add_divide_distrib)

lemma time_sub_later: "now \<le> now' \<Longrightarrow> time_sub now' t \<le> time_sub now t + (now' - now)"
  by (auto simp: time_sub_def max_duration_def min_duration_def)

lemma time_sub_pos: "0 < time_sub now t \<longleftrightarrow> t < now"
  by (auto simp: time_sub_def max_duration_def min_duration_def)

lemma refill_bounds:
  assumes "0 \<le> lm_rate l" and "0 \<le> b_tokens b" and "b_tokens b \<le> lm_burst l"
  shows "b_tokens b \<le> refill l now b" and "refill l now b \<le> lm_burst l"
proof -
  have "0 \<le> Seconds (time_sub now (b_last b)) * lm_rate l" if "0 < time_sub now (b_last b)"
    using assms(1) Seconds_pos[of "time_sub now (b_last b)"] that by simp
  then show "b_tokens b \<le> refill l now b" "refill l now b \<le> lm_burst l"
    using assms(2,3) by (auto simp: refill_def Let_def)
qed

lemma refill_later:
  assumes "0 \<le> lm_rate l" and "0 \<le> b_tokens b" and "b_tokens b \<le> lm_burst l" and "b_last b \<le> now" and "now \<le> now'"
  shows "refill l now' b \<le> refill l now b + Seconds (now' - now) * lm_rate l"
proof -
  let ?d = "time_sub now (b_last b)" and ?d' = "time_sub now' (b_last b)"
  have step: "0 \<le> Seconds (now' - now) * lm_rate l" using assms(1,5) Seconds_pos[of "now' - now"] by simp
  have "Seconds ?d' \<le> Seconds ?d + Seconds (now' - now)"
    using Seconds_mono[OF time_sub_later[OF assms(5)]] by (simp add: Seconds_add)
  then have "Seconds ?d' * lm_rate l \<le> Seconds ?d * lm_rate l + Seconds (now' - now) * lm_rate l"
    using assms(1) by (metis distrib_right mult_right_mono)
  moreover have "0 \<le> ?d" using assms(4) by (simp add: time_sub_def max_duration_def min_duration_def)
  then have "0 \<le> Seconds ?d * lm_rate l" "\<not> 0 < ?d \<Longrightarrow> Seconds ?d * lm_rate l = 0"
    using assms(1) Seconds_pos[of ?d] by (simp, simp add: Seconds_def)
  ultimately show ?thesis using step assms(3) by (auto simp: refill_def Let_def min_def)
qed

lemma balance_later:
  assumes "limiter_wf now l" and "now \<le> now'"
  shows "balance l key now' \<le> balance l key now + Seconds (now' - now) * lm_rate l"
proof (cases "map_of (lm_buckets l) key")
  case None
  have "0 \<le> Seconds (now' - now) * lm_rate l" using assms Seconds_pos[of "now' - now"] by (simp add: limiter_wf_def)
  with None show ?thesis by (simp add: balance_def)
next
  case (Some b)
  then have "(key, b) \<in> set (lm_buckets l)" by (rule map_of_SomeD)
  with assms Some show ?thesis
    using refill_later[of l b now now'] by (auto simp: balance_def limiter_wf_def)
qed

text \<open>
  Evicting an idle bucket does not raise a balance, because in ten minutes the rate has
  filled any bucket to the burst.
\<close>

lemma evicted_full:
  assumes "lm_burst l \<le> 600 * lm_rate l" and "0 \<le> lm_rate l" and "0 \<le> b_tokens b" and "time_sub now (b_last b) > idleEvict"
  shows "refill l now b = lm_burst l"
proof -
  have "600 \<le> Seconds (time_sub now (b_last b))"
    using Seconds_mono[of idleEvict "time_sub now (b_last b)"] assms(4)
    by (simp add: Seconds_def duration_defs idleEvict_def)
  then have "600 * lm_rate l \<le> Seconds (time_sub now (b_last b)) * lm_rate l" using assms(2) by (rule mult_right_mono)
  with assms show ?thesis by (simp add: refill_def Let_def idleEvict_def duration_defs)
qed

lemma map_of_filter_distinct:
  "distinct (map fst xs) \<Longrightarrow> map_of (filter P xs) k = (case map_of xs k of Some v \<Rightarrow> if P (k, v) then Some v else None | None \<Rightarrow> None)"
  by (induction xs) (force split: option.splits dest: map_of_SomeD)+

lemma sweepLocked_wf: "limiter_wf now l \<Longrightarrow> limiter_wf now (sweepLocked now l)"
  by (auto simp: limiter_wf_def sweepLocked_def distinct_map_filter)

lemma sweepLocked_simps [simp]: "lm_rate (sweepLocked now l) = lm_rate l" "lm_burst (sweepLocked now l) = lm_burst l"
  by (simp_all add: sweepLocked_def)

lemma refill_cong: "lm_rate l = lm_rate l' \<Longrightarrow> lm_burst l = lm_burst l' \<Longrightarrow> refill l now b = refill l' now b"
  by (simp add: refill_def Let_def)

lemma sweepLocked_balance:
  assumes "limiter_wf now l" and "lm_burst l \<le> 600 * lm_rate l"
  shows "balance (sweepLocked now l) key now = balance l key now"
proof (cases "map_of (lm_buckets l) key")
  case None
  with assms(1) show ?thesis by (simp add: balance_def sweepLocked_def map_of_filter_distinct limiter_wf_def)
next
  case (Some b)
  then have b: "0 \<le> b_tokens b" "0 \<le> lm_rate l" using assms(1) by (auto simp: limiter_wf_def dest!: map_of_SomeD)
  have r: "refill (sweepLocked now l) now b = refill l now b" by (rule refill_cong) simp_all
  show ?thesis
    using Some assms(1) r evicted_full[OF assms(2) b(2,1), of now]
    by (auto simp: balance_def sweepLocked_def map_of_filter_distinct limiter_wf_def)
qed

lemma allow_cases:
  assumes "allow key now l = (ok, l')" and "limiter_wf now l"
  defines "v \<equiv> balance (sweepLocked now l) key now"
  shows "ok = (1 \<le> v)" and "lm_rate l' = lm_rate l" and "lm_burst l' = lm_burst l"
    and "map_of (lm_buckets l') k = (if k = key then Some \<lparr>b_tokens = (if ok then v - 1 else v), b_last = now\<rparr>
           else map_of (lm_buckets (sweepLocked now l)) k)"
    and "limiter_wf now l'"
proof -
  let ?l = "sweepLocked now l"
  define b where "b = (case map_of (lm_buckets ?l) key of Some b \<Rightarrow> b | None \<Rightarrow> \<lparr>b_tokens = lm_burst ?l, b_last = now\<rparr>)"
  have v: "refill ?l now b = v"
    by (auto simp: v_def balance_def b_def refill_def time_sub_def max_duration_def min_duration_def split: option.split)
  have wf: "limiter_wf now ?l" by (rule sweepLocked_wf[OF assms(2)])
  have bb: "0 \<le> b_tokens b" "b_tokens b \<le> lm_burst ?l" "0 \<le> lm_rate ?l"
    using wf by (auto simp: b_def limiter_wf_def dest!: map_of_SomeD split: option.split)
  have v0: "0 \<le> v" "v \<le> lm_burst l" using refill_bounds[OF bb(3,1,2), of now] bb v by auto
  have a: "(ok, l') = (if v < 1 then (False, ?l\<lparr>lm_buckets := AList.update key \<lparr>b_tokens = v, b_last = now\<rparr> (lm_buckets ?l)\<rparr>)
      else (True, ?l\<lparr>lm_buckets := AList.update key \<lparr>b_tokens = v - 1, b_last = now\<rparr> (lm_buckets ?l)\<rparr>))"
    using assms(1) unfolding allow_def Let_def b_def[symmetric] v by simp
  then show "ok = (1 \<le> v)" "lm_rate l' = lm_rate l" "lm_burst l' = lm_burst l"
    "map_of (lm_buckets l') k = (if k = key then Some \<lparr>b_tokens = (if ok then v - 1 else v), b_last = now\<rparr>
           else map_of (lm_buckets ?l) k)"
    by (auto split: if_splits simp: update_conv')
  have upd: "limiter_wf now (?l\<lparr>lm_buckets := AList.update key \<lparr>b_tokens = w, b_last = now\<rparr> (lm_buckets ?l)\<rparr>)"
    if "0 \<le> w" "w \<le> lm_burst l" for w
  proof -
    have "set (AList.update key c al) \<subseteq> insert (key, c) (set al)" for c and al :: "(string \<times> bucket) list"
      by (induction al) auto
    with wf that show ?thesis by (fastforce simp: limiter_wf_def distinct_update)
  qed
  show "limiter_wf now l'" using a upd[of v] upd[of "v - 1"] v0 by (auto split: if_splits)
qed

lemma balance_bounds: "limiter_wf now l \<Longrightarrow> 0 \<le> balance l key now \<and> balance l key now \<le> lm_burst l"
proof (cases "map_of (lm_buckets l) key")
  case (Some b)
  assume wf: "limiter_wf now l"
  with Some have "0 \<le> lm_rate l" "0 \<le> b_tokens b" "b_tokens b \<le> lm_burst l"
    by (auto simp: limiter_wf_def dest!: map_of_SomeD)
  with Some refill_bounds[of l b now] show ?thesis by (auto simp: balance_def)
qed (auto simp: balance_def limiter_wf_def)

lemma limiter_wf_later: "limiter_wf t l \<Longrightarrow> t \<le> now \<Longrightarrow> limiter_wf now l"
  by (fastforce simp: limiter_wf_def)

lemma allow_balance:
  assumes "allow key now l = (ok, l')" and "limiter_wf now l" and "lm_burst l \<le> 600 * lm_rate l"
  shows "balance l' k now = balance l k now - (if k = key \<and> ok then 1 else 0)"
proof (cases "k = key")
  case True
  have "refill l' now \<lparr>b_tokens = w, b_last = now\<rparr> = w" for w
    by (simp add: refill_def time_sub_def max_duration_def min_duration_def)
  with True show ?thesis
    using allow_cases(4)[OF assms(1,2), of k] sweepLocked_balance[OF assms(2,3), of key]
    by (simp add: balance_def)
next
  case False
  then have "map_of (lm_buckets l') k = map_of (lm_buckets (sweepLocked now l)) k"
    using allow_cases(4)[OF assms(1,2), of k] by simp
  moreover have "refill l' now b = refill (sweepLocked now l) now b" for b
    using allow_cases(2,3)[OF assms(1,2)] by (intro refill_cong) simp_all
  ultimately have "balance l' k now = balance (sweepLocked now l) k now"
    using allow_cases(3)[OF assms(1,2)] by (simp add: balance_def split: option.split)
  with False sweepLocked_balance[OF assms(2,3)] show ?thesis by simp
qed

text \<open>Requests admitted and the balance left never exceed the balance before plus the refill.\<close>

lemma requests_bound:
  assumes "requests rs l = (oks, l')" and "limiter_wf t l" and "lm_burst l \<le> 600 * lm_rate l"
    and "sorted (t # map snd rs)"
  shows "of_nat (admitted key oks) \<le> balance l key t + Seconds (last (t # map snd rs) - t) * lm_rate l
    \<and> limiter_wf (last (t # map snd rs)) l' \<and> lm_rate l' = lm_rate l \<and> lm_burst l' = lm_burst l"
  using assms
proof (induction rs arbitrary: l t oks)
  case Nil
  then show ?case using balance_bounds[of t l key] by (simp add: admitted_def Seconds_def)
next
  case (Cons r rs)
  obtain k now where r: "r = (k, now)" by (cases r)
  obtain ok l1 where a: "allow k now l = (ok, l1)" by (cases "allow k now l") auto
  with Cons.prems(1) r obtain oks1 where q: "requests rs l1 = (oks1, l')" "oks = (k, ok) # oks1"
    by (auto split: prod.splits)
  let ?e = "last (now # map snd rs)"
  have t: "t \<le> now" and srt: "sorted (now # map snd rs)" using Cons.prems(4) r by auto
  have wf: "limiter_wf now l" by (rule limiter_wf_later[OF Cons.prems(2) t])
  note A = allow_cases[OF a wf]
  have A3: "lm_burst l1 \<le> 600 * lm_rate l1" using A(2,3) Cons.prems(3) by simp
  note IH = Cons.IH[OF q(1) A(5) A3 srt]
  have "balance l1 key now + (if key = k \<and> ok then 1 else 0) \<le> balance l key t + Seconds (now - t) * lm_rate l"
    using allow_balance[OF a wf Cons.prems(3), of key] balance_later[OF Cons.prems(2) t, of key] by simp
  moreover have "of_nat (admitted key oks) = of_nat (admitted key oks1) + (if key = k \<and> ok then 1 else (0::rat))"
    by (auto simp: admitted_def q(2))
  moreover have "Seconds (?e - t) * lm_rate l = Seconds (?e - now) * lm_rate l + Seconds (now - t) * lm_rate l"
    by (simp add: Seconds_def diff_divide_distrib left_diff_distrib flip: distrib_right)
  ultimately show ?case using IH A(2,3) r by auto
qed

lemma requests_append:
  "requests (xs @ ys) l = (case requests xs l of (a, l1) \<Rightarrow> case requests ys l1 of (b, l2) \<Rightarrow> (a @ b, l2))"
  by (induction xs l rule: requests.induct) (auto split: prod.splits)

lemma length_requests: "length (fst (requests rs l)) = length rs"
  by (induction rs l rule: requests.induct) (auto split: prod.splits)



text \<open>
  A key that paces itself is never refused: a request is admitted if the key has no
  bucket, or if its bucket was last used long enough ago for one token at the rate. A
  refused request spends nothing: the bucket keeps its refilled tokens.
\<close>

theorem paced_request_admitted:
  assumes "limiter_wf now l" and "lm_burst l \<le> 600 * lm_rate l"
    and "\<And>b. map_of (lm_buckets l) key = Some b \<Longrightarrow> 1 \<le> Seconds (time_sub now (b_last b)) * lm_rate l"
  shows "fst (allow key now l) \<and> balance (snd (allow key now l)) key now = balance l key now - 1"
proof -
  obtain ok l' where a: "allow key now l = (ok, l')" by (rule prod.exhaust)
  have "1 \<le> balance l key now"
  proof (cases "map_of (lm_buckets l) key")
    case None
    with assms(1) show ?thesis by (simp add: balance_def limiter_wf_def)
  next
    case (Some b)
    then have b: "0 \<le> b_tokens b" "b_last b \<le> now" "1 \<le> lm_burst l"
      using assms(1) by (auto simp: limiter_wf_def dest!: map_of_SomeD)
    have p: "1 \<le> Seconds (time_sub now (b_last b)) * lm_rate l" by (rule assms(3)[OF Some])
    have "time_sub now (b_last b) \<noteq> 0" using p by (auto simp: Seconds_def)
    moreover have "0 \<le> time_sub now (b_last b)" using b(2) by (simp add: time_sub_def max_duration_def min_duration_def)
    ultimately show ?thesis using Some b p by (simp add: balance_def refill_def Let_def)
  qed
  with allow_cases(1)[OF a assms(1)] sweepLocked_balance[OF assms(1,2), of key] allow_balance[OF a assms(1,2), of key] a
  show ?thesis by simp
qed

theorem paced_request_admitted_witness: "fst (allow ''AK'' 0 (newLimiter 0 0))"
  using paced_request_admitted[of 0 "newLimiter 0 0" "''AK''"]
  by (simp add: limiter_wf_def newLimiter_def DefaultRatePerSecond_def DefaultRateBurst_def)

text \<open>
  The comment on the sweep says it drops buckets that are idle and full, but it only looks
  at the idle time. With a rate that does not fill the burst in ten minutes the sweep hands
  a drained key a full burst: here 2 requests pass at once after eleven minutes, where the
  rate has earned 0.66 of a token.
\<close>

lemma sweep_refills_drained_bucket:
  "fst (requests [(''AK'', 0), (''AK'', 0), (''AK'', 11 * minute), (''AK'', 11 * minute)] (newLimiter (1/1000) 2)) =
     [(''AK'', True), (''AK'', True), (''AK'', True), (''AK'', True)]"
  by code_simp

end
