(* ===== verification/Gateway.thy ===== *)
theory Gateway
  imports SigV4 Client_IP Rate_Limit Device_Keys Object_Store
begin

section \<open>The S3 gateway\<close>

text \<open>
  Models \<^verbatim>\<open>src/fleet/gateway/handler.go\<close> and \<^verbatim>\<open>src/fleet/gateway/xmlout.go\<close>: the whole request
  handler, from the bucket check through both rate limits, signature verification and the
  key cache to the storage call and the response. The stores are an array indexed by target
  with one record of operations each; \<open>storeFor\<close> resolves an agent to its target. XML
  documents are kept as the values that are marshalled, so a response carries no
  Content-Length for them. Log lines that only go to the process log are not modelled; the
  request log entry is.
\<close>

subsection \<open>Responses\<close>

record owner =
  ow_ID :: string
  ow_DisplayName :: string

record objectEntry =
  en_Key :: string
  en_LastModified :: string
  en_ETag :: string
  en_Size :: int
  en_StorageClass :: string
  en_Owner :: "owner option"

record listBucketResult =
  lr_Name :: string
  lr_Prefix :: string
  lr_StartAfter :: string
  lr_ContinuationToken :: string
  lr_NextContinuationToken :: string
  lr_KeyCount :: int
  lr_MaxKeys :: int
  lr_Delimiter :: string
  lr_EncodingType :: string
  lr_IsTruncated :: bool
  lr_Contents :: "objectEntry list"
  lr_CommonPrefixes :: "string list"

datatype rbody =
  NoBody
| ErrorDoc string string string      \<comment> \<open>code, message, resource\<close>
| ListDoc listBucketResult
| LocationDoc string
| Content body

record response =
  rs_status :: nat
  rs_header :: "(string \<times> string) list"
  rs_body :: rbody

definition writeXML :: "nat \<Rightarrow> rbody \<Rightarrow> response" where
  "writeXML status v = \<lparr>rs_status = status, rs_header = [(''Content-Type'', ''application/xml'')], rs_body = v\<rparr>"

definition writeError :: "request \<Rightarrow> nat \<Rightarrow> string \<Rightarrow> string \<Rightarrow> response" where
  "writeError r status code msg =
     (if rq_Method r = ''HEAD''
      then \<lparr>rs_status = status, rs_header = [(''X-Warphold-Error-Code'', code)], rs_body = NoBody\<rparr>
      else writeXML status (ErrorDoc code msg (rq_Path r)))"

definition NotActivatedHandler :: "request \<Rightarrow> response" where
  "NotActivatedHandler r = writeError r 403 ''AccessDenied'' ''access denied''"

definition urlEncodeName :: "string \<Rightarrow> string" where
  "urlEncodeName s = plus_to_20 (QueryEscape s)"

text \<open>
  \<^verbatim>\<open>strconv.Quote\<close> on the ETags it is given, which are printable ASCII.
\<close>

definition Quote :: "string \<Rightarrow> string" where
  "Quote s = [CHR 0x22] @ concat (map (\<lambda>c. if c = CHR 0x22 \<or> c = CHR 0x5C then [CHR 0x5C, c] else [c]) s) @ [CHR 0x22]"

definition writeSlowDown :: "request \<Rightarrow> response" where
  "writeSlowDown r = (let e = writeError r 503 ''SlowDown'' ''too many requests; slow down''
     in e\<lparr>rs_header := (''Retry-After'', ''1'') # rs_header e\<rparr>)"

definition writeNotImplemented :: "request \<Rightarrow> string \<Rightarrow> response" where
  "writeNotImplemented r msg = writeError r 501 ''NotImplemented'' msg"

definition writeStoreError :: "request \<Rightarrow> gw_error \<Rightarrow> response" where
  "writeStoreError r err =
     (if err = ErrNotFound then writeError r 404 ''NoSuchKey'' ''no such key''
      else if err = ErrRange then writeError r 416 ''InvalidRange'' ''the requested range is not satisfiable''
      else if err = ErrBadKey then writeError r 403 ''AccessDenied'' ''access denied''
      else writeError r 500 ''InternalError'' ''storage error'')"

definition mapAuthError :: "auth_error \<Rightarrow> nat \<times> string" where
  "mapAuthError err = (case err of
     ErrStreamingUnsupported \<Rightarrow> (501, ''NotImplemented'')
   | ErrRequestTimeTooSkewed \<Rightarrow> (403, ''RequestTimeTooSkewed'')
   | ErrInvalidAccessKeyID \<Rightarrow> (403, ''InvalidAccessKeyId'')
   | ErrSignatureDoesNotMatch \<Rightarrow> (403, ''SignatureDoesNotMatch'')
   | ErrUnsignedAmzHeader \<Rightarrow> (403, ''AccessDenied'')
   | ErrMalformedQuery \<Rightarrow> (400, ''InvalidURI'')
   | _ \<Rightarrow> (400, ''AuthorizationHeaderMalformed''))"

definition authMessage :: "auth_error \<Rightarrow> string \<Rightarrow> string" where
  "authMessage err code =
     (if err = ErrStreamingUnsupported
      then ''streaming payload signing is not supported; use an https:// endpoint so the client sends UNSIGNED-PAYLOAD''
      else code)"

subsection \<open>The append-only rules\<close>

definition lower_hex :: "char \<Rightarrow> bool" where
  "lower_hex c \<longleftrightarrow> byte_in 48 57 c \<or> byte_in 97 102 c"

text \<open>The expression \<^verbatim>\<open>^s[0-9a-f]{16,}\<close> matches at the start of the name.\<close>

definition allowDelete :: "string \<Rightarrow> bool" where
  "allowDelete blobName \<longleftrightarrow> (case blobName of
     [] \<Rightarrow> False | c # rest \<Rightarrow> c = CHR ''s'' \<and> 16 \<le> length (takeWhile lower_hex rest))"

definition deviceOverwrite :: bool where "deviceOverwrite = False"

definition knownQueryKeys :: "string list" where
  "knownQueryKeys = [''list-type'', ''prefix'', ''start-after'', ''continuation-token'', ''max-keys'', ''delimiter'',
     ''encoding-type'', ''fetch-owner'', ''location'', ''versioning'', ''uploads'', ''uploadId'', ''partNumber'',
     ''delete'', ''retention'', ''versionId'', ''versions'', ''metadata'']"

definition keyClass :: "string \<Rightarrow> string" where
  "keyClass blobName =
     (if blobName = [] then []
      else if HasPrefix blobName ''kopia.'' then ''kopia-meta''
      else if hd blobName = CHR ''.'' then ''dot''
      else if HasPrefix blobName ''_log_'' then ''_log_''
      else if hd blobName = CHR ''x'' \<and> length blobName > 1 then take 2 blobName
      else take 1 blobName)"

subsection \<open>The gateway and its state\<close>

datatype sf_error = ErrAccessDenied | ErrUnsupportedStorageMode | SfOther

record Config =
  cf_Bucket :: string
  cf_Region :: string
  cf_MaxObjectBytes :: int
  cf_RatePerSecond :: rat
  cf_RateBurst :: rat
  cf_IPRatePerSecond :: rat
  cf_IPRateBurst :: rat
  cf_TrustedProxies :: "IPNet list"

text \<open>The immutable part of a Gateway, with the functions it was configured with.\<close>

record ('e, 's) Gateway =
  g_bucket :: string
  g_region :: string
  g_maxBytes :: int
  g_trusted :: "IPNet list"
  g_crypto :: crypto
  g_md5 :: "string \<Rightarrow> string"
  g_open_sealed :: "string \<Rightarrow> string option"
  g_storeFor :: "string \<Rightarrow> sf_error + nat"
  g_ops :: "nat \<Rightarrow> ('e, 's) ObjectStore"

record 's gw_state =
  gs_keys :: Keys
  gs_db :: "DeviceKey list"
  gs_limit :: limiter
  gs_ipLimit :: limiter
  gs_stores :: "nat \<Rightarrow> 's"

text \<open>The outside world of one request: the clock at each reading, and of each storage call.\<close>

record 'e gw_env =
  ge_now_ip :: gotime
  ge_now_verify :: gotime
  ge_now_lookup :: gotime
  ge_now_limit :: gotime
  ge_db_err :: bool
  ge_op :: 'e
  ge_head :: 'e

record LogEntry =
  lg_DeviceID :: string
  lg_AccessKeyID :: string
  lg_Method :: string
  lg_Key :: string
  lg_Class :: string
  lg_Status :: nat

definition DefaultMaxObjectBytes :: int where "DefaultMaxObjectBytes = 64 * 2 ^ 20"
definition maxListKeys :: int where "maxListKeys = 1000"
definition BucketName :: string where "BucketName = ''warphold''"
definition DefaultRegion :: string where "DefaultRegion = BucketName"
definition locationRegion :: string where "locationRegion = ''us-east-1''"

definition NewGateway ::
  "Config \<Rightarrow> crypto \<Rightarrow> (string \<Rightarrow> string) \<Rightarrow> (string \<Rightarrow> string option) \<Rightarrow> (string \<Rightarrow> sf_error + nat)
    \<Rightarrow> (nat \<Rightarrow> ('e, 's) ObjectStore) \<Rightarrow> DeviceKey list \<Rightarrow> (nat \<Rightarrow> 's) \<Rightarrow> ('e, 's) Gateway \<times> 's gw_state" where
  "NewGateway c cr md5 u sf ops db stores =
     (\<lparr>g_bucket = (if cf_Bucket c = [] then BucketName else cf_Bucket c),
       g_region = (if cf_Region c = [] then DefaultRegion else cf_Region c),
       g_maxBytes = (if cf_MaxObjectBytes c \<le> 0 then DefaultMaxObjectBytes else cf_MaxObjectBytes c),
       g_trusted = cf_TrustedProxies c, g_crypto = cr, g_md5 = md5, g_open_sealed = u, g_storeFor = sf, g_ops = ops\<rparr>,
      \<lparr>gs_keys = NewKeys, gs_db = db, gs_limit = newLimiter (cf_RatePerSecond c) (cf_RateBurst c),
       gs_ipLimit = newIPLimiter (cf_IPRatePerSecond c) (cf_IPRateBurst c), gs_stores = stores\<rparr>)"

subsection \<open>Byte ranges\<close>

datatype range_error = errMultiRange | HeadError gw_error

definition parseRange :: "string \<Rightarrow> ('e, 's) ObjectStore \<Rightarrow> 'e \<Rightarrow> 's \<Rightarrow> string \<Rightarrow> range_error + (int \<times> int \<times> bool)" where
  "parseRange hdr st e s key =
     (case CutPrefix (TrimSpace hdr) ''bytes='' of (spec, ok) \<Rightarrow>
      if \<not> ok then Inr (0, -1, False)
      else if Contains spec (CHR '','') then Inl errMultiRange
      else case Cut spec (CHR ''-'') of (first, final, ok2) \<Rightarrow>
      if \<not> ok2 then Inr (0, -1, False)
      else if first = [] then
        (case ParseInt64 final of
           None \<Rightarrow> Inr (0, -1, False)
         | Some n \<Rightarrow>
             if n \<le> 0 then Inr (0, -1, False)
             else (case os_Head st e s key of
                     Inl herr \<Rightarrow> Inl (HeadError herr)
                   | Inr info \<Rightarrow>
                       (let n' = (if n > oi_Size info then oi_Size info else n)
                        in Inr (oi_Size info - n', n', True))))
      else case ParseInt64 first of
        None \<Rightarrow> Inr (0, -1, False)
      | Some start \<Rightarrow>
          if start < 0 then Inr (0, -1, False)
          else if final = [] then Inr (start, -1, True)
          else (case ParseInt64 final of
                  None \<Rightarrow> Inr (0, -1, False)
                | Some end_ \<Rightarrow>
                    if end_ < start then Inr (0, -1, False)
                    else Inr (start, wrap64 (end_ - start + 1), True)))"

definition writeRangeError :: "request \<Rightarrow> range_error \<Rightarrow> response" where
  "writeRangeError r err = (case err of
     errMultiRange \<Rightarrow> writeNotImplemented r ''only a single byte range is supported''
   | HeadError herr \<Rightarrow> writeStoreError r herr)"

subsection \<open>Objects\<close>

text \<open>
  A body read through md5Check: the digest is compared when the underlying reader reports
  its end, and a mismatch turns that end into \<^const>\<open>errBadDigest\<close>. The check has run
  exactly when the wrapped body was read to its end.
\<close>

definition md5Check :: "(string \<Rightarrow> string) \<Rightarrow> string \<Rightarrow> body \<Rightarrow> body" where
  "md5Check md5 want b =
     (if bd_end b = None \<and> md5 (bd_data b) \<noteq> want then b\<lparr>bd_end := Some errBadDigest\<rparr> else b)"

definition put_error :: "request \<Rightarrow> gw_error \<Rightarrow> response" where
  "put_error r err =
     (if err = errBadDigest then writeError r 400 ''BadDigest'' ''the Content-MD5 does not match the body''
      else if err = ErrExists
      then writeError r 409 ''ObjectAlreadyExists'' ''append-only: this object already exists and cannot be replaced''
      else if err = ErrIncompleteBody
      then writeError r 400 ''IncompleteBody'' ''the body did not match Content-Length''
      else if err = ErrTooLarge
      then writeError r 413 ''EntityTooLarge'' (''object exceeds the store'' @ [CHR 0x27] @ ''s size limit'')
      else if err = ErrBadKey then writeError r 400 ''InvalidObjectKey'' ''invalid object key''
      else writeError r 500 ''InternalError'' ''could not store the object'')"

definition gw_put :: "('e, 's) Gateway \<Rightarrow> request \<Rightarrow> ('e, 's) ObjectStore \<Rightarrow> 'e \<Rightarrow> 's \<Rightarrow> string \<Rightarrow> bool \<Rightarrow> response \<times> 's" where
  "gw_put g r st e s key readOnly =
     (if readOnly then (writeError r 403 ''AccessDenied'' ''this key is read-only'', s)
      else if rq_ContentLength r < 0
      then (writeError r 411 ''MissingContentLength'' ''Content-Length is required'', s)
      else if rq_ContentLength r > g_maxBytes g
      then (writeError r 413 ''EntityTooLarge''
              (''object exceeds the '' @ FormatInt (g_maxBytes g) @ '' byte limit''), s)
      else case StdEncoding_DecodeString (header_Get r ''Content-MD5'') of
        None \<Rightarrow> (writeError r 400 ''MissingContentMD5'' ''a valid base64 Content-MD5 header is required'', s)
      | Some want \<Rightarrow>
          if length want \<noteq> 16
          then (writeError r 400 ''MissingContentMD5'' ''a valid base64 Content-MD5 header is required'', s)
          else (case os_Put st e s key (md5Check (g_md5 g) want (rq_Body r)) (rq_ContentLength r) deviceOverwrite of
                  (Inl err, verified, s') \<Rightarrow> (put_error r err, s')
                | (Inr info, verified, s') \<Rightarrow>
                    (if \<not> verified then writeError r 500 ''InternalError'' ''could not store the object''
                     else \<lparr>rs_status = 200, rs_header = [(''ETag'', Quote (oi_ETag info))], rs_body = NoBody\<rparr>, s')))"

definition gw_get :: "request \<Rightarrow> ('e, 's) ObjectStore \<Rightarrow> 'e \<Rightarrow> 'e \<Rightarrow> 's \<Rightarrow> string \<Rightarrow> response" where
  "gw_get r st eh e s key =
     (case parseRange (header_Get r ''Range'') st eh s key of
        Inl err \<Rightarrow> writeRangeError r err
      | Inr (offset, len, ranged) \<Rightarrow>
          (case os_Get st e s key offset len of
             Inl err \<Rightarrow> writeStoreError r err
           | Inr (rc, info) \<Rightarrow>
               (let served0 = oi_Size info - offset;
                    served = (if len \<ge> 0 \<and> len < served0 then len else served0);
                    h = [(''Content-Type'', ''application/octet-stream''),
                         (''Content-Length'', FormatInt served),
                         (''Last-Modified'', http_TimeFormat (oi_LastModified info)),
                         (''Accept-Ranges'', ''bytes'')]
                in if ranged \<and> served > 0
                   then \<lparr>rs_status = 206,
                         rs_header = h @ [(''Content-Range'', ''bytes '' @ FormatInt offset @ ''-''
                            @ FormatInt (offset + served - 1) @ ''/'' @ FormatInt (oi_Size info))],
                         rs_body = Content rc\<rparr>
                   else \<lparr>rs_status = 200, rs_header = h, rs_body = Content rc\<rparr>)))"

definition gw_head :: "request \<Rightarrow> ('e, 's) ObjectStore \<Rightarrow> 'e \<Rightarrow> 's \<Rightarrow> string \<Rightarrow> response" where
  "gw_head r st e s key =
     (case os_Head st e s key of
        Inl err \<Rightarrow> writeStoreError r err
      | Inr info \<Rightarrow>
          \<lparr>rs_status = 200,
           rs_header = [(''Content-Type'', ''application/octet-stream''),
                        (''Content-Length'', FormatInt (oi_Size info)),
                        (''Last-Modified'', http_TimeFormat (oi_LastModified info)),
                        (''Accept-Ranges'', ''bytes'')]
                       @ (if oi_ETag info \<noteq> [] then [(''ETag'', Quote (oi_ETag info))] else []),
           rs_body = NoBody\<rparr>)"

definition gw_delete :: "request \<Rightarrow> ('e, 's) ObjectStore \<Rightarrow> 'e \<Rightarrow> 's \<Rightarrow> string \<Rightarrow> string \<Rightarrow> bool \<Rightarrow> response \<times> 's" where
  "gw_delete r st e s key blobName readOnly =
     (if readOnly \<or> \<not> allowDelete blobName
      then (writeError r 403 ''AppendOnlyDeleteDenied''
              ''append-only: only Kopia session markers may be deleted (docs/RECONCILE-append-only.md)'', s)
      else (case os_Delete st e s key of (err, s') \<Rightarrow>
              (if err \<noteq> None \<and> err \<noteq> Some ErrNotFound then writeStoreError r (the err)
               else \<lparr>rs_status = 204, rs_header = [], rs_body = NoBody\<rparr>, s')))"

subsection \<open>Listing\<close>

definition encodeToken :: "string \<Rightarrow> string \<Rightarrow> string" where
  "encodeToken devPrefix after = RawURLEncoding_EncodeToString (devPrefix @ [CHR 0x00] @ after)"

definition decodeToken :: "string \<Rightarrow> string \<Rightarrow> gw_error + string" where
  "decodeToken token devPrefix =
     (case RawURLEncoding_DecodeString token of
        None \<Rightarrow> Inl ErrBadKey
      | Some raw \<Rightarrow>
          (case Cut raw (CHR 0x00) of (got, rest, ok) \<Rightarrow>
             if \<not> ok \<or> got \<noteq> devPrefix then Inl ErrBadKey else Inr rest))"

definition collect :: "('e, 's) ObjectStore \<Rightarrow> 'e \<Rightarrow> 's \<Rightarrow> string \<Rightarrow> string \<Rightarrow> int
    \<Rightarrow> gw_error + (ObjectInfo list \<times> string \<times> bool)" where
  "collect st e s pfx after maxKeys =
     (case os_List st e s pfx after maxKeys of
        Inl err \<Rightarrow> Inl err
      | Inr (batch, truncated) \<Rightarrow>
          if batch = [] then Inr ([], after, False)
          else Inr (batch, oi_Key (last batch), truncated))"

definition list_entry :: "string \<Rightarrow> bool \<Rightarrow> bool \<Rightarrow> ObjectInfo \<Rightarrow> objectEntry" where
  "list_entry bucket encode fetchOwner o1 =
     \<lparr>en_Key = (if encode then urlEncodeName (oi_Key o1) else oi_Key o1),
      en_LastModified = s3Time (oi_LastModified o1),
      en_ETag = (if oi_ETag o1 \<noteq> [] then Quote (oi_ETag o1) else []),
      en_Size = oi_Size o1,
      en_StorageClass = ''STANDARD'',
      en_Owner = (if fetchOwner then Some \<lparr>ow_ID = bucket, ow_DisplayName = bucket\<rparr> else None)\<rparr>"

definition list_maxKeys :: "url_values \<Rightarrow> int" where
  "list_maxKeys query =
     (let v = query_Get query ''max-keys'' in
      if v = [] then maxListKeys
      else case ParseInt64 v of
        None \<Rightarrow> maxListKeys
      | Some n \<Rightarrow> if n > 0 \<and> n < maxListKeys then n else maxListKeys)"

definition gw_list :: "('e, 's) Gateway \<Rightarrow> request \<Rightarrow> url_values \<Rightarrow> ('e, 's) ObjectStore \<Rightarrow> 'e \<Rightarrow> 's \<Rightarrow> string \<Rightarrow> response" where
  "gw_list g r query st e s devPrefix =
     (let askedPrefix = query_Get query ''prefix'';
          pfx = (if HasPrefix askedPrefix devPrefix then askedPrefix else devPrefix);
          maxKeys = list_maxKeys query;
          startAfter = query_Get query ''start-after'';
          token = query_Get query ''continuation-token''
      in case (if token \<noteq> [] then decodeToken token devPrefix else Inr startAfter) of
           Inl err \<Rightarrow> writeError r 403 ''AccessDenied'' ''access denied''
         | Inr after0 \<Rightarrow>
         (let after = (if after0 < pfx then [] else after0);
              delimiter = query_Get query ''delimiter'';
              encode = EqualFold (query_Get query ''encoding-type'') ''url'';
              fetchOwner = EqualFold (query_Get query ''fetch-owner'') ''true'';
              enc = (if encode then urlEncodeName else (\<lambda>x. x))
          in case collect st e s pfx after maxKeys of
               Inl err \<Rightarrow> writeStoreError r err
             | Inr (objs, nxt, truncated) \<Rightarrow>
                 if \<not> list_all (\<lambda>o1. HasPrefix (oi_Key o1) devPrefix) objs
                 then writeError r 500 ''InternalError'' ''storage error''
                 else writeXML 200 (ListDoc
                   \<lparr>lr_Name = g_bucket g, lr_Prefix = enc askedPrefix, lr_StartAfter = enc startAfter,
                    lr_ContinuationToken = token,
                    lr_NextContinuationToken = (if truncated then encodeToken devPrefix nxt else []),
                    lr_KeyCount = int (length objs), lr_MaxKeys = maxKeys, lr_Delimiter = enc delimiter,
                    lr_EncodingType = (if encode then ''url'' else []), lr_IsTruncated = truncated,
                    lr_Contents = map (list_entry (g_bucket g) encode fetchOwner) objs,
                    lr_CommonPrefixes = []\<rparr>)))"

definition serveBucket :: "('e, 's) Gateway \<Rightarrow> request \<Rightarrow> url_values \<Rightarrow> ('e, 's) ObjectStore \<Rightarrow> 'e \<Rightarrow> 's \<Rightarrow> string
    \<Rightarrow> LogEntry \<Rightarrow> response \<times> LogEntry" where
  "serveBucket g r query st e s devPrefix lg =
     (if rq_Method r = ''POST'' then (writeNotImplemented r ''this operation is not supported'', lg)
      else if query_has query ''versioning''
      then (writeNotImplemented r ''bucket versioning is not supported'', lg\<lparr>lg_Class := ''versioning''\<rparr>)
      else if query_has query ''location''
      then (writeXML 200 (LocationDoc (g_region g)), lg\<lparr>lg_Class := ''location''\<rparr>)
      else if rq_Method r = ''HEAD''
      then (\<lparr>rs_status = 200, rs_header = [], rs_body = NoBody\<rparr>, lg\<lparr>lg_Class := ''bucket''\<rparr>)
      else if rq_Method r \<noteq> ''GET'' then (writeError r 403 ''AccessDenied'' ''access denied'', lg)
      else if query_Get query ''list-type'' \<noteq> ''2''
      then (writeNotImplemented r ''only ListObjectsV2 (list-type=2) is supported'', lg)
      else (gw_list g r query st e s devPrefix, lg\<lparr>lg_Class := ''list''\<rparr>))"

subsection \<open>The handler\<close>

text \<open>
  The credential lookup that Verify calls. Its state is the key cache together with the
  identity it captures: agent, prefix and the read-only flag.
\<close>

type_synonym identity = "string \<times> string \<times> bool"

definition gw_look :: "('e, 's) Gateway \<Rightarrow> gotime \<Rightarrow> bool \<Rightarrow> DeviceKey list \<Rightarrow> string \<Rightarrow> Keys \<times> identity
    \<Rightarrow> string option \<times> Keys \<times> identity" where
  "gw_look g now db_err db accessKeyID st =
     (case st of (k, ident) \<Rightarrow>
      case Lookup (g_open_sealed g) now db_err db accessKeyID k of
        (None, k') \<Rightarrow> (None, k', ident)
      | (Some e, k') \<Rightarrow>
          if ke_prefix e \<noteq> ke_agentID e @ ''/'' \<or> checkKey (ke_prefix e @ ''x'') \<noteq> None
          then (None, k', ident)
          else (Some (ke_secret e), k', (ke_agentID e, ke_prefix e, ke_readOnly e)))"

definition sign_region :: "('e, 's) Gateway \<Rightarrow> request \<Rightarrow> string \<Rightarrow> string" where
  "sign_region g r key =
     (case ParseQuery (rq_RawQuery r) of
        None \<Rightarrow> g_region g
      | Some q \<Rightarrow> if key = [] \<and> query_has q ''location'' then locationRegion else g_region g)"

text \<open>
  The refusals between the device limiter and the store: a query parameter that is not
  known, multipart uploads, versions and server-side copies.
\<close>

definition refuse_request :: "request \<Rightarrow> url_values \<Rightarrow> response option" where
  "refuse_request r query =
     (if \<not> list_all (\<lambda>(k, v). k \<in> set knownQueryKeys) query
      then Some (writeError r 400 ''InvalidArgument'' ''unsupported query parameter'')
      else if query_has query ''uploads'' then Some (writeNotImplemented r ''multipart upload is not supported'')
      else if list_ex (query_has query) [''uploadId'', ''partNumber'']
      then Some (writeNotImplemented r ''multipart upload is not supported'')
      else if list_ex (query_has query) [''versionId'', ''versions'', ''metadata'']
      then Some (writeNotImplemented r ''object versions are not supported by hosted targets'')
      else if header_Get r ''X-Amz-Copy-Source'' \<noteq> []
      then Some (writeNotImplemented r ''server-side copy is not supported'')
      else None)"

definition store_refused :: "request \<Rightarrow> sf_error \<Rightarrow> response" where
  "store_refused r err = (case err of
     ErrAccessDenied \<Rightarrow> writeError r 403 ''AccessDenied'' ''access denied''
   | ErrUnsupportedStorageMode \<Rightarrow>
       writeNotImplemented r (''this target'' @ [CHR 0x27] @ ''s storage mode is not served by the gateway'')
   | SfOther \<Rightarrow> writeError r 500 ''InternalError'' ''storage unavailable'')"

text \<open>The verb switch on an object, over the store of the device's target.\<close>

definition serve_object :: "('e, 's) Gateway \<Rightarrow> request \<Rightarrow> url_values \<Rightarrow> ('e, 's) ObjectStore \<Rightarrow> 'e gw_env \<Rightarrow> 's \<Rightarrow> string
    \<Rightarrow> identity \<Rightarrow> LogEntry \<Rightarrow> response \<times> LogEntry \<times> 's" where
  "serve_object g r query st ev s key ident lg =
     (case ident of (agentID, devPrefix, readOnly) \<Rightarrow>
      case NormalizeKey key devPrefix of
        Inl err \<Rightarrow>
          ((if \<not> HasPrefix key devPrefix then writeError r 403 ''AccessDenied'' ''access denied''
            else writeError r 400 ''InvalidObjectKey'' ''invalid object key''), lg, s)
      | Inr full \<Rightarrow>
         (let blobName = TrimPrefix full devPrefix;
              lg' = lg\<lparr>lg_Class := keyClass blobName\<rparr>;
              m = rq_Method r
          in if m = ''PUT'' then
               (if query_has query ''retention''
                then (writeNotImplemented r ''object retention is applied by the mirror job, not by the device'', lg', s)
                else (case gw_put g r st (ge_op ev) s full readOnly of (rs, s') \<Rightarrow> (rs, lg', s')))
             else if m = ''GET'' then (gw_get r st (ge_head ev) (ge_op ev) s full, lg', s)
             else if m = ''HEAD'' then (gw_head r st (ge_op ev) s full, lg', s)
             else if m = ''DELETE'' then
               (case gw_delete r st (ge_op ev) s full blobName readOnly of (rs, s') \<Rightarrow> (rs, lg', s'))
             else if m = ''POST'' then (writeNotImplemented r ''this operation is not supported'', lg', s)
             else (writeError r 403 ''AccessDenied'' ''access denied'', lg', s)))"

text \<open>Everything after the signature has been verified.\<close>

definition serve_verified :: "('e, 's) Gateway \<Rightarrow> request \<Rightarrow> string \<Rightarrow> 'e gw_env \<Rightarrow> identity \<Rightarrow> LogEntry \<Rightarrow> 's gw_state
    \<Rightarrow> response \<times> LogEntry \<times> 's gw_state" where
  "serve_verified g r key ev ident lg w =
     (case ident of (agentID, devPrefix, readOnly) \<Rightarrow>
      case allow agentID (ge_now_limit ev) (gs_limit w) of (admit, limit1) \<Rightarrow>
      let w1 = w\<lparr>gs_limit := limit1\<rparr> in
      if \<not> admit then (writeSlowDown r, lg, w1)
      else case ParseQuery (rq_RawQuery r) of
        None \<Rightarrow> (writeError r 400 ''InvalidURI'' ''malformed query string'', lg, w1)
      | Some query \<Rightarrow>
      (case refuse_request r query of
        Some rs \<Rightarrow> (rs, lg, w1)
      | None \<Rightarrow>
      (case g_storeFor g agentID of
        Inl err \<Rightarrow> (store_refused r err, lg, w1)
      | Inr t \<Rightarrow>
          if key = [] then
            (case serveBucket g r query (g_ops g t) (ge_op ev) (gs_stores w t) devPrefix lg of
               (rs, lg') \<Rightarrow> (rs, lg', w1))
          else
            (case serve_object g r query (g_ops g t) ev (gs_stores w t) key ident lg of
               (rs, lg', s') \<Rightarrow> (rs, lg', w1\<lparr>gs_stores := (gs_stores w)(t := s')\<rparr>)))))"

definition serve :: "('e, 's) Gateway \<Rightarrow> request \<Rightarrow> 'e gw_env \<Rightarrow> LogEntry \<Rightarrow> 's gw_state
    \<Rightarrow> response \<times> LogEntry \<times> 's gw_state" where
  "serve g r ev lg w =
     (case Cut (TrimPrefix (rq_Path r) ''/'') (CHR ''/'') of (bucket, key, found) \<Rightarrow>
      if bucket \<noteq> g_bucket g then (writeError r 404 ''NoSuchBucket'' ''no such bucket'', lg, w)
      else
       (let lg1 = lg\<lparr>lg_Key := key\<rparr>; region = sign_region g r key in
        case allow (ClientIP r (g_trusted g)) (ge_now_ip ev) (gs_ipLimit w) of (admit, limit1) \<Rightarrow>
        let w1 = w\<lparr>gs_ipLimit := limit1\<rparr> in
        if \<not> admit then (writeSlowDown r, lg1, w1)
        else if header_Get r ''Authorization'' = []
        then (writeError r 403 ''AccessDenied'' ''access denied'', lg1, w1)
        else
         (case Verify (g_crypto g) r region ''s3''
                 (gw_look g (ge_now_lookup ev) (ge_db_err ev) (gs_db w))
                 (ge_now_verify ev) (gs_keys w, [], [], False) of
            (res, keys, ident) \<Rightarrow>
              let w2 = w1\<lparr>gs_keys := keys\<rparr> in
              (case res of
                 Inl err \<Rightarrow>
                   (case mapAuthError err of (status, code) \<Rightarrow>
                      (writeError r status code (authMessage err code), lg1, w2))
               | Inr akid \<Rightarrow>
                   serve_verified g r key ev ident (lg1\<lparr>lg_AccessKeyID := akid, lg_DeviceID := fst ident\<rparr>) w2))))"

definition ServeHTTP :: "('e, 's) Gateway \<Rightarrow> request \<times> 'e gw_env \<Rightarrow> 's gw_state \<Rightarrow> response \<times> LogEntry \<times> 's gw_state" where
  "ServeHTTP g q w =
     (case q of (r, ev) \<Rightarrow>
      case serve g r ev \<lparr>lg_DeviceID = [], lg_AccessKeyID = [], lg_Method = rq_Method r, lg_Key = [],
                         lg_Class = [], lg_Status = 200\<rparr> w of
        (rs, lg, w') \<Rightarrow> (rs, lg\<lparr>lg_Status := rs_status rs\<rparr>, w'))"

definition InvalidateKeys :: "string \<Rightarrow> 's gw_state \<Rightarrow> 's gw_state" where
  "InvalidateKeys agentID w = w\<lparr>gs_keys := Invalidate agentID (gs_keys w)\<rparr>"

text \<open>The gateway's state after a sequence of requests, served one after the other.\<close>

definition serve_all :: "('e, 's) Gateway \<Rightarrow> (request \<times> 'e gw_env) list \<Rightarrow> 's gw_state \<Rightarrow> 's gw_state" where
  "serve_all g qs w = fold (\<lambda>q w. snd (snd (ServeHTTP g q w))) qs w"

end
