(* ===== verification/File_System.thy ===== *)
theory File_System
  imports Object_Keys
begin

section \<open>The part of the file system below a hosted root\<close>

text \<open>
  What \<^verbatim>\<open>src/fleet/gateway/local.go\<close> sees through its \<^verbatim>\<open>os.Root\<close>: the root directory with its
  entries, and one level of directories below it. Names are single path components. A
  hard link shares its inode with the original name; the only file the code links is a
  temporary file whose contents are complete and never written again, so a link is a
  second entry with the same contents.
\<close>

datatype node_kind = Regular | Symlink | Directory | Special

record inode =
  ino_kind :: node_kind
  ino_data :: string
  ino_mtime :: gotime
  ino_etag :: "string option"

datatype rootent = Dir "(string \<times> inode) list" | NotDir

type_synonym fs = "(string \<times> rootent) list"

text \<open>The error numbers the code distinguishes.\<close>

datatype errno = ENAMETOOLONG | ENOENT | EEXIST | EOTHER

definition fs_dir :: "fs \<Rightarrow> string \<Rightarrow> (string \<times> inode) list option" where
  "fs_dir s d = (case map_of s d of Some (Dir es) \<Rightarrow> Some es | _ \<Rightarrow> None)"

definition fs_node :: "fs \<Rightarrow> string \<Rightarrow> string \<Rightarrow> inode option" where
  "fs_node s d n = (case fs_dir s d of Some es \<Rightarrow> map_of es n | None \<Rightarrow> None)"

definition fs_set :: "fs \<Rightarrow> string \<Rightarrow> string \<Rightarrow> inode \<Rightarrow> fs" where
  "fs_set s d n i = (case fs_dir s d of
     Some es \<Rightarrow> AList.update d (Dir (AList.update n i es)) s | None \<Rightarrow> s)"

definition fs_del :: "fs \<Rightarrow> string \<Rightarrow> string \<Rightarrow> fs" where
  "fs_del s d n = (case fs_dir s d of
     Some es \<Rightarrow> AList.update d (Dir (AList.delete n es)) s | None \<Rightarrow> s)"

text \<open>\<^verbatim>\<open>Root.MkdirAll\<close> of one component: an existing directory is fine, a file is not.\<close>

definition fs_mkdir :: "fs \<Rightarrow> string \<Rightarrow> errno + fs" where
  "fs_mkdir s d = (case map_of s d of
     None \<Rightarrow> Inr (AList.update d (Dir []) s)
   | Some (Dir _) \<Rightarrow> Inr s
   | Some NotDir \<Rightarrow> Inl EOTHER)"

text \<open>
  \<^verbatim>\<open>Root.Link\<close> refuses an existing name of any kind; \<^verbatim>\<open>Root.Rename\<close> replaces one unless it
  is a directory.
\<close>

definition fs_link :: "fs \<Rightarrow> string \<times> string \<Rightarrow> string \<times> string \<Rightarrow> errno + fs" where
  "fs_link s src dst = (case fs_node s (fst src) (snd src) of
     None \<Rightarrow> Inl ENOENT
   | Some i \<Rightarrow> (case fs_dir s (fst dst) of
       None \<Rightarrow> Inl ENOENT
     | Some _ \<Rightarrow> if fs_node s (fst dst) (snd dst) \<noteq> None then Inl EEXIST
                else Inr (fs_set s (fst dst) (snd dst) i)))"

definition fs_rename :: "fs \<Rightarrow> string \<times> string \<Rightarrow> string \<times> string \<Rightarrow> errno + fs" where
  "fs_rename s src dst = (case fs_node s (fst src) (snd src) of
     None \<Rightarrow> Inl ENOENT
   | Some i \<Rightarrow> (case fs_dir s (fst dst) of
       None \<Rightarrow> Inl ENOENT
     | Some _ \<Rightarrow> (case fs_node s (fst dst) (snd dst) of
         Some t \<Rightarrow> if ino_kind t = Directory then Inl EOTHER
                   else Inr (fs_del (fs_set s (fst dst) (snd dst) i) (fst src) (snd src))
       | None \<Rightarrow> Inr (fs_del (fs_set s (fst dst) (snd dst) i) (fst src) (snd src)))))"

text \<open>\<^verbatim>\<open>fs.ReadDir\<close> sorts the entries by name.\<close>

definition fs_readdir :: "fs \<Rightarrow> string \<Rightarrow> errno + (string \<times> inode) list" where
  "fs_readdir s d =
     (if \<not> ValidString d then Inl EOTHER
      else case map_of s d of
        None \<Rightarrow> Inl ENOENT
      | Some NotDir \<Rightarrow> Inl EOTHER
      | Some (Dir es) \<Rightarrow> Inr (sort_key fst es))"

subsection \<open>Well-formed roots\<close>

definition dir_wf :: "(string \<times> inode) list \<Rightarrow> bool" where
  "dir_wf es \<longleftrightarrow> distinct (map fst es) \<and> (\<forall>n \<in> fst ` set es. proper_name n)"

definition fs_wf :: "fs \<Rightarrow> bool" where
  "fs_wf s \<longleftrightarrow> distinct (map fst s) \<and> (\<forall>d \<in> fst ` set s. proper_name d)
     \<and> (\<forall>d es. (d, Dir es) \<in> set s \<longrightarrow> dir_wf es)"

lemma fs_dir_wf: "fs_wf s \<Longrightarrow> fs_dir s d = Some es \<Longrightarrow> dir_wf es \<and> proper_name d"
  by (auto simp: fs_wf_def fs_dir_def split: option.splits rootent.splits dest: map_of_SomeD)

lemma fs_dir_update [simp]:
  "fs_dir (AList.update d (Dir es) s) d' = (if d' = d then Some es else fs_dir s d')"
  by (simp add: fs_dir_def update_conv')

lemma fs_dir_set: "fs_dir (fs_set s d n i) d' =
    (if d' = d then map_option (AList.update n i) (fs_dir s d) else fs_dir s d')"
  by (auto simp: fs_set_def split: option.splits)

lemma fs_node_set:
  "fs_dir s d \<noteq> None \<Longrightarrow>
   fs_node (fs_set s d n i) d' n' = (if d' = d \<and> n' = n then Some i else fs_node s d' n')"
  by (auto simp: fs_node_def fs_dir_set update_conv' split: option.splits)

lemma fs_node_set_other: "d' \<noteq> d \<Longrightarrow> fs_node (fs_set s d n i) d' n' = fs_node s d' n'"
  by (simp add: fs_node_def fs_dir_set)

lemma fs_node_set_missing: "fs_dir s d = None \<Longrightarrow> fs_set s d n i = s"
  by (simp add: fs_set_def)

lemma fs_node_del:
  "fs_node (fs_del s d n) d' n' = (if d' = d \<and> n' = n then None else fs_node s d' n')"
  by (auto simp: fs_node_def fs_del_def delete_conv' split: option.splits)

lemma fs_node_dir: "fs_node s d n = Some i \<Longrightarrow> fs_dir s d \<noteq> None"
  by (auto simp: fs_node_def split: option.splits)

lemma dir_wf_update: "dir_wf es \<Longrightarrow> proper_name n \<Longrightarrow> dir_wf (AList.update n i es)"
  by (auto simp: dir_wf_def distinct_update dom_update)

lemma dir_wf_delete: "dir_wf es \<Longrightarrow> dir_wf (AList.delete n es)"
  by (auto simp: dir_wf_def AList.delete_eq distinct_map_filter)

lemma fs_wf_update:
  assumes "fs_wf s" and "proper_name d" and "dir_wf es"
  shows "fs_wf (AList.update d (Dir es) s)"
proof -
  have "(d', Dir es') \<in> set (AList.update d (Dir es) s) \<Longrightarrow> dir_wf es'" for d' es'
  proof -
    assume "(d', Dir es') \<in> set (AList.update d (Dir es) s)"
    moreover have "distinct (map fst (AList.update d (Dir es) s))"
      using assms(1) by (simp add: fs_wf_def distinct_update)
    ultimately have "map_of (AList.update d (Dir es) s) d' = Some (Dir es')" by simp
    then show "dir_wf es'"
      using assms by (auto simp: update_conv' fs_wf_def split: if_splits dest: map_of_SomeD)
  qed
  with assms show ?thesis
    by (auto simp: fs_wf_def distinct_update dom_update)
qed

lemma fs_wf_set: "fs_wf s \<Longrightarrow> proper_name n \<Longrightarrow> fs_wf (fs_set s d n i)"
  by (auto simp: fs_set_def split: option.splits dest: fs_dir_wf intro!: fs_wf_update dir_wf_update)

lemma fs_wf_del: "fs_wf s \<Longrightarrow> fs_wf (fs_del s d n)"
  by (auto simp: fs_del_def split: option.splits dest: fs_dir_wf intro!: fs_wf_update dir_wf_delete)

lemma fs_wf_mkdir: "fs_wf s \<Longrightarrow> proper_name d \<Longrightarrow> fs_mkdir s d = Inr s' \<Longrightarrow> fs_wf s'"
  by (auto simp: fs_mkdir_def dir_wf_def split: option.splits rootent.splits intro!: fs_wf_update)

lemma fs_mkdir_node: "fs_mkdir s d = Inr s' \<Longrightarrow> fs_node s' d' n = fs_node s d' n"
  by (auto simp: fs_mkdir_def fs_node_def fs_dir_def update_conv' split: option.splits rootent.splits if_splits)

lemma fs_mkdir_dir: "fs_mkdir s d = Inr s' \<Longrightarrow> fs_dir s' d \<noteq> None"
  by (auto simp: fs_mkdir_def fs_dir_def update_conv' split: option.splits rootent.splits)

subsection \<open>Directory listings are strictly sorted\<close>

lemma sorted_readdir:
  assumes "dir_wf es"
  shows "sorted_wrt (<) (map fst (sort_key fst es))"
proof -
  have "distinct (map fst (sort_key fst es))"
    using assms by (simp add: dir_wf_def distinct_map)
  then show ?thesis
    by (simp add: strict_sorted_iff)
qed

lemma key_less_iff: "((d::string) @ CHR ''/'' # n < d @ CHR ''/'' # n') \<longleftrightarrow> n < n'"
  by (induction d) (auto simp: less_list_code)

end
