(* ===== verification/Local_Store.thy ===== *)
theory Local_Store
  imports File_System Object_Store
begin

section \<open>The Fleet-disk backend\<close>

text \<open>
  Models \<^verbatim>\<open>src/fleet/gateway/local.go\<close> operation by operation over the file system of
  \<open>File_System\<close>. The record \<open>local_env\<close> is the outside world of one call: which system
  calls fail and how, the clock, and the random name of the temporary file. MD5 is the
  parameter \<open>md5\<close> of the operations that hash.
\<close>

record local =
  l_dir :: string
  l_maxSize :: nat

definition DefaultMaxObjectSize :: nat where "DefaultMaxObjectSize = 64 * 2 ^ 20"

definition maxKeys :: int where "maxKeys = 1000"

definition tempSweepAge :: duration where "tempSweepAge = hour"

record local_env =
  le_ctx_err :: bool                \<comment> \<open>the context is done on entry\<close>
  le_now :: gotime
  le_tmp :: string                  \<comment> \<open>\<^verbatim>\<open>rand.Text()\<close>\<close>
  le_create_err :: bool
  le_copy_err :: "nat option"       \<comment> \<open>writing the temporary file fails after so many bytes\<close>
  le_xattr_ok :: bool
  le_sync_err :: bool               \<comment> \<open>\<^verbatim>\<open>f.Sync\<close> or the deferred \<^verbatim>\<open>f.Close\<close>\<close>
  le_mkdir_err :: "errno option"
  le_store_err :: "errno option"    \<comment> \<open>\<^verbatim>\<open>Root.Link\<close> or \<^verbatim>\<open>Root.Rename\<close> fails for a reason of its own\<close>
  le_stat_err :: bool
  le_rmtmp_err :: bool
  le_lstat_err :: "errno option"
  le_open_err :: bool
  le_fstat_err :: bool
  le_seek_err :: bool
  le_read_err :: "nat option"       \<comment> \<open>reading the object fails after so many bytes\<close>
  le_getxattr_err :: bool
  le_readdir_err :: bool
  le_gone :: "string \<Rightarrow> bool"       \<comment> \<open>keys a concurrent Delete removes during a listing\<close>
  le_info_err :: "string \<Rightarrow> bool"
  le_remove_err :: "errno option"

definition mapKeyErr :: "errno \<Rightarrow> gw_error" where
  "mapKeyErr en = (if en = ENAMETOOLONG then ErrBadKey else ErrOther)"

subsection \<open>Opening a root\<close>

record newlocal_env =
  ne_mkdir_err :: bool
  ne_chmod_err :: bool
  ne_open_err :: bool
  ne_tmp_err :: bool
  ne_now :: gotime
  ne_readdir_err :: bool
  ne_info_err :: "string \<Rightarrow> bool"
  ne_rm_err :: "string \<Rightarrow> bool"

definition swept :: "newlocal_env \<Rightarrow> string \<times> inode \<Rightarrow> bool" where
  "swept e x \<longleftrightarrow>
     \<not> (ne_info_err e (fst x) \<or> ino_mtime (snd x) > ne_now e - tempSweepAge) \<and> \<not> ne_rm_err e (fst x)"

definition sweepTemp :: "newlocal_env \<Rightarrow> fs \<Rightarrow> nat \<times> fs" where
  "sweepTemp e s =
     (if ne_readdir_err e then (0, s)
      else case fs_readdir s tmpDir of
        Inl _ \<Rightarrow> (0, s)
      | Inr ents \<Rightarrow>
          (length (filter (swept e) ents),
           fold (\<lambda>x t. fs_del t tmpDir (fst x)) (filter (swept e) ents) s))"

definition NewLocal :: "newlocal_env \<Rightarrow> string \<Rightarrow> int \<Rightarrow> fs \<Rightarrow> gw_error + (local \<times> fs)" where
  "NewLocal e dir maxObjectSize s =
     (if dir = [] then Inl ErrOther
      else if ne_mkdir_err e then Inl ErrOther
      else if ne_chmod_err e then Inl ErrOther
      else if ne_open_err e then Inl ErrOther
      else if ne_tmp_err e then Inl ErrOther
      else case fs_mkdir s tmpDir of
        Inl _ \<Rightarrow> Inl ErrOther
      | Inr s1 \<Rightarrow>
          let l = \<lparr>l_dir = dir,
                   l_maxSize = (if maxObjectSize \<le> 0 then DefaultMaxObjectSize else nat maxObjectSize)\<rparr>
          in Inr (l, snd (sweepTemp e s1)))"

subsection \<open>Put\<close>

definition createTemp :: "local_env \<Rightarrow> fs \<Rightarrow> (string \<times> fs) option" where
  "createTemp e s =
     (if le_create_err e \<or> fs_dir s tmpDir = None \<or> fs_node s tmpDir (le_tmp e) \<noteq> None
         \<or> \<not> proper_name (le_tmp e) then None
      else Some (le_tmp e, fs_set s tmpDir (le_tmp e)
             \<lparr>ino_kind = Regular, ino_data = [], ino_mtime = le_now e, ino_etag = None\<rparr>))"

definition write_file :: "local_env \<Rightarrow> fs \<Rightarrow> string \<Rightarrow> string \<Rightarrow> string option \<Rightarrow> fs" where
  "write_file e s tmp d x = fs_set s tmpDir tmp
     \<lparr>ino_kind = Regular, ino_data = d, ino_mtime = le_now e, ino_etag = x\<rparr>"

definition writeTemp ::
  "(string \<Rightarrow> string) \<Rightarrow> local_env \<Rightarrow> string \<Rightarrow> body \<Rightarrow> int \<Rightarrow> int \<Rightarrow> fs \<Rightarrow> (gw_error + string) \<times> bool \<times> fs" where
  "writeTemp md5 e tmp b sz maxSize s =
     (let limit = (if sz \<ge> 0 \<and> sz < maxSize then sz else maxSize)
      in case copy_limited b (nat (limit + 1)) of (d, err, eof) \<Rightarrow>
        case le_copy_err e of
          Some k \<Rightarrow> (Inl ErrOther, False, write_file e s tmp (take k d) None)
        | None \<Rightarrow>
            (case err of
               Some er \<Rightarrow> (Inl er, eof, write_file e s tmp d None)
             | None \<Rightarrow>
                 if int (length d) > maxSize then (Inl ErrTooLarge, eof, write_file e s tmp d None)
                 else if sz \<ge> 0 \<and> int (length d) \<noteq> sz
                 then (Inl ErrIncompleteBody, eof, write_file e s tmp d None)
                 else
                   let etag = hex_EncodeToString (md5 d);
                       s' = write_file e s tmp d (if le_xattr_ok e then Some etag else None)
                   in if le_sync_err e then (Inl ErrOther, eof, s') else (Inr etag, eof, s')))"

definition remove_temp :: "local_env \<Rightarrow> string \<Rightarrow> fs \<Rightarrow> fs" where
  "remove_temp e tmp s = (if le_rmtmp_err e then s else fs_del s tmpDir tmp)"

definition store_temp :: "local_env \<Rightarrow> bool \<Rightarrow> string \<Rightarrow> string \<times> string \<Rightarrow> fs \<Rightarrow> errno + fs" where
  "store_temp e overwrite tmp dst s = (case le_store_err e of
     Some en \<Rightarrow> Inl en
   | None \<Rightarrow> if overwrite then fs_rename s (tmpDir, tmp) dst else fs_link s (tmpDir, tmp) dst)"

definition local_Put ::
  "(string \<Rightarrow> string) \<Rightarrow> local \<Rightarrow> local_env \<Rightarrow> fs \<Rightarrow> string \<Rightarrow> body \<Rightarrow> int \<Rightarrow> bool
    \<Rightarrow> (gw_error + ObjectInfo) \<times> bool \<times> fs" where
  "local_Put md5 l e s key b sz overwrite =
     (if le_ctx_err e then (Inl ErrOther, False, s)
      else case checkKey key of
        Some err \<Rightarrow> (Inl err, False, s)
      | None \<Rightarrow>
      if sz > int (l_maxSize l) then (Inl ErrTooLarge, False, s)
      else case createTemp e s of
        None \<Rightarrow> (Inl ErrOther, False, s)
      | Some (tmp, s1) \<Rightarrow>
      (case writeTemp md5 e tmp b sz (int (l_maxSize l)) s1 of
         (Inl err, eof, s2) \<Rightarrow> (Inl err, eof, remove_temp e tmp s2)
       | (Inr etag, eof, s2) \<Rightarrow>
      (case Cut key CHR ''/'' of (device, name, _) \<Rightarrow>
       (case (case le_mkdir_err e of Some en \<Rightarrow> Inl en | None \<Rightarrow> fs_mkdir s2 device) of
          Inl en \<Rightarrow> (Inl (mapKeyErr en), eof, remove_temp e tmp s2)
        | Inr s3 \<Rightarrow>
       (case store_temp e overwrite tmp (device, name) s3 of
          Inl en \<Rightarrow> (Inl (if \<not> overwrite \<and> en = EEXIST then ErrExists else mapKeyErr en),
                     eof, remove_temp e tmp s3)
        | Inr s4 \<Rightarrow>
            if le_stat_err e then (Inl ErrOther, eof, remove_temp e tmp s4)
            else (case fs_node s4 device name of
                None \<Rightarrow> (Inl ErrOther, eof, remove_temp e tmp s4)
              | Some st \<Rightarrow>
                  (Inr \<lparr>oi_Key = key, oi_Size = int (length (ino_data st)), oi_ETag = etag,
                        oi_LastModified = ino_mtime st\<rparr>, eof, remove_temp e tmp s4)))))))"

subsection \<open>Get and Head\<close>

definition lstatObject :: "local_env \<Rightarrow> fs \<Rightarrow> string \<Rightarrow> gw_error + inode" where
  "lstatObject e s key = (case le_lstat_err e of
     Some en \<Rightarrow> Inl (if en = ENAMETOOLONG then mapKeyErr en else ErrNotFound)
   | None \<Rightarrow>
      (case Cut key CHR ''/'' of (d, n, _) \<Rightarrow>
        (case fs_node s d n of
           None \<Rightarrow> Inl ErrNotFound
         | Some st \<Rightarrow> if ino_kind st \<noteq> Regular then Inl ErrNotFound else Inr st)))"

definition local_open :: "local_env \<Rightarrow> fs \<Rightarrow> string \<Rightarrow> gw_error + inode" where
  "local_open e s key = (case checkKey key of
     Some err \<Rightarrow> Inl err
   | None \<Rightarrow>
      (case lstatObject e s key of
         Inl err \<Rightarrow> Inl err
       | Inr st \<Rightarrow> if le_open_err e then Inl ErrNotFound
                   else if le_fstat_err e then Inl ErrNotFound else Inr st))"

text \<open>Reading the opened file through \<^verbatim>\<open>io.LimitReader\<close>.\<close>

definition read_file :: "local_env \<Rightarrow> string \<Rightarrow> body" where
  "read_file e d = (case le_read_err e of
     None \<Rightarrow> \<lparr>bd_data = d, bd_end = None\<rparr>
   | Some k \<Rightarrow> \<lparr>bd_data = take k d, bd_end = Some ErrOther\<rparr>)"

definition local_Get :: "local_env \<Rightarrow> fs \<Rightarrow> string \<Rightarrow> int \<Rightarrow> int \<Rightarrow> gw_error + (body \<times> ObjectInfo)" where
  "local_Get e s key offset len =
     (if le_ctx_err e then Inl ErrOther
      else case local_open e s key of
        Inl err \<Rightarrow> Inl err
      | Inr st \<Rightarrow>
          let sz = int (length (ino_data st)) in
          if offset < 0 \<or> (offset > 0 \<and> offset \<ge> sz) then Inl ErrRange
          else if offset > 0 \<and> le_seek_err e then Inl ErrOther
          else Inr (read_file e (take (nat (clamp_len sz offset len)) (drop (nat offset) (ino_data st))),
                    \<lparr>oi_Key = key, oi_Size = sz, oi_ETag = [], oi_LastModified = ino_mtime st\<rparr>))"

definition isMD5Hex :: "string \<Rightarrow> bool" where
  "isMD5Hex s \<longleftrightarrow> length s = 32 \<and> hex_DecodeString s \<noteq> None"

definition local_Head :: "(string \<Rightarrow> string) \<Rightarrow> local_env \<Rightarrow> fs \<Rightarrow> string \<Rightarrow> gw_error + ObjectInfo" where
  "local_Head md5 e s key =
     (if le_ctx_err e then Inl ErrOther
      else case local_open e s key of
        Inl err \<Rightarrow> Inl err
      | Inr st \<Rightarrow>
          let info = (\<lambda>etag. \<lparr>oi_Key = key, oi_Size = int (length (ino_data st)), oi_ETag = etag,
                              oi_LastModified = ino_mtime st\<rparr>) in
          (case (if le_getxattr_err e then None else ino_etag st) of
             Some etag \<Rightarrow>
               if isMD5Hex etag then Inr (info etag)
               else if le_read_err e \<noteq> None then Inl ErrOther
               else Inr (info (hex_EncodeToString (md5 (ino_data st))))
           | None \<Rightarrow>
               if le_read_err e \<noteq> None then Inl ErrOther
               else Inr (info (hex_EncodeToString (md5 (ino_data st))))))"

subsection \<open>List\<close>

definition listDirs :: "local_env \<Rightarrow> fs \<Rightarrow> string \<Rightarrow> gw_error + (string list \<times> string)" where
  "listDirs e s prefix = (case Cut prefix CHR ''/'' of (device, blob, found) \<Rightarrow>
     if found then
       (if device = [] \<or> device = ''.'' \<or> device = ''..'' \<or> device = tmpDir \<or> Contains device CHR 0x5C
        then Inl ErrBadKey else Inr ([device], blob))
     else if le_readdir_err e then Inl ErrOther
     else Inr (map fst (filter (\<lambda>(d, r). (case r of Dir _ \<Rightarrow> True | NotDir \<Rightarrow> False)
                                  \<and> d \<noteq> tmpDir \<and> HasPrefix d prefix) (sort_key fst s)), []))"

definition entry_key :: "string \<Rightarrow> string \<Rightarrow> string" where
  "entry_key d n = d @ ''/'' @ n"

definition entry_info :: "string \<Rightarrow> string \<times> inode \<Rightarrow> ObjectInfo" where
  "entry_info d x = \<lparr>oi_Key = entry_key d (fst x), oi_Size = int (length (ino_data (snd x))),
     oi_ETag = [], oi_LastModified = ino_mtime (snd x)\<rparr>"

definition list_skips :: "string \<Rightarrow> string \<Rightarrow> string \<Rightarrow> string \<times> inode \<Rightarrow> bool" where
  "list_skips d name after x \<longleftrightarrow>
     ino_kind (snd x) \<noteq> Regular \<or> \<not> HasPrefix (fst x) name \<or> entry_key d (fst x) \<le> after"

fun list_entries ::
  "local_env \<Rightarrow> string \<Rightarrow> string \<Rightarrow> string \<Rightarrow> nat \<Rightarrow> ObjectInfo list \<Rightarrow> (string \<times> inode) list
    \<Rightarrow> gw_error + (ObjectInfo list \<times> bool)" where
  "list_entries e d name after mx os [] = Inr (os, False)"
| "list_entries e d name after mx os (x # xs) =
     (if list_skips d name after x then list_entries e d name after mx os xs
      else if le_gone e (entry_key d (fst x)) then list_entries e d name after mx os xs
      else if le_info_err e (entry_key d (fst x)) then Inl ErrOther
      else
        let os' = os @ [entry_info d x] in
        if length os' > mx then Inr (take mx os', True)
        else list_entries e d name after mx os' xs)"

fun list_dirs ::
  "local_env \<Rightarrow> fs \<Rightarrow> string \<Rightarrow> string \<Rightarrow> nat \<Rightarrow> ObjectInfo list \<Rightarrow> string list
    \<Rightarrow> gw_error + (ObjectInfo list \<times> bool)" where
  "list_dirs e s name after mx os [] = Inr (os, False)"
| "list_dirs e s name after mx os (d # ds) =
     (if le_readdir_err e then Inl ErrOther
      else case fs_readdir s d of
        Inl ENOENT \<Rightarrow> list_dirs e s name after mx os ds
      | Inl _ \<Rightarrow> Inl ErrOther
      | Inr ents \<Rightarrow>
          (case list_entries e d name after mx os ents of
             Inl err \<Rightarrow> Inl err
           | Inr (os', True) \<Rightarrow> Inr (os', True)
           | Inr (os', False) \<Rightarrow> list_dirs e s name after mx os' ds))"

definition clamp_max :: "int \<Rightarrow> nat" where
  "clamp_max mx = nat (if mx \<le> 0 \<or> mx > maxKeys then maxKeys else mx)"

definition local_List ::
  "local_env \<Rightarrow> fs \<Rightarrow> string \<Rightarrow> string \<Rightarrow> int \<Rightarrow> gw_error + (ObjectInfo list \<times> bool)" where
  "local_List e s prefix after mx =
     (if le_ctx_err e then Inl ErrOther
      else case listDirs e s prefix of
        Inl err \<Rightarrow> Inl err
      | Inr (dirs, name) \<Rightarrow> list_dirs e s name after (clamp_max mx) [] dirs)"

subsection \<open>Delete, and the backend as an ObjectStore\<close>

definition local_Delete :: "local_env \<Rightarrow> fs \<Rightarrow> string \<Rightarrow> gw_error option \<times> fs" where
  "local_Delete e s key =
     (if le_ctx_err e then (Some ErrOther, s)
      else case checkKey key of
        Some err \<Rightarrow> (Some err, s)
      | None \<Rightarrow>
      (case lstatObject e s key of
         Inl err \<Rightarrow> (Some err, s)
       | Inr _ \<Rightarrow>
          (case le_remove_err e of
             Some en \<Rightarrow> (Some (if en = ENOENT then ErrNotFound else ErrOther), s)
           | None \<Rightarrow> (case Cut key CHR ''/'' of (d, n, _) \<Rightarrow> (None, fs_del s d n)))))"

definition local_Versioned :: "local_env \<Rightarrow> fs \<Rightarrow> bool" where
  "local_Versioned e s = False"

definition local_ops :: "(string \<Rightarrow> string) \<Rightarrow> local \<Rightarrow> (local_env, fs) ObjectStore" where
  "local_ops md5 l = \<lparr>os_Put = local_Put md5 l, os_Get = local_Get, os_Head = local_Head md5,
     os_List = local_List, os_Delete = local_Delete, os_Versioned = local_Versioned\<rparr>"

text \<open>The objects a root holds: the regular files of its device directories.\<close>

definition local_objs :: "fs \<Rightarrow> string \<Rightarrow> string option" where
  "local_objs s key = (case Cut key CHR ''/'' of (d, n, found) \<Rightarrow>
     if found \<and> d \<noteq> tmpDir then
       (case fs_node s d n of Some i \<Rightarrow> if ino_kind i = Regular then Some (ino_data i) else None
                            | None \<Rightarrow> None)
     else None)"

subsection \<open>Steps that touch the staging directory only\<close>

definition tmp_only :: "fs \<Rightarrow> fs \<Rightarrow> bool" where
  "tmp_only s s' \<longleftrightarrow> (\<forall>d n. d \<noteq> tmpDir \<longrightarrow> fs_node s' d n = fs_node s d n)"

lemma tmp_only_refl [simp]: "tmp_only s s"
  by (simp add: tmp_only_def)

lemma tmp_only_trans: "tmp_only s t \<Longrightarrow> tmp_only t u \<Longrightarrow> tmp_only s u"
  by (simp add: tmp_only_def)

lemma tmp_only_objs: "tmp_only s s' \<Longrightarrow> local_objs s' = local_objs s"
  by (rule ext) (auto simp: tmp_only_def local_objs_def split: prod.splits option.splits)

lemma tmp_only_set: "tmp_only s (fs_set s tmpDir n i)"
  by (simp add: tmp_only_def fs_node_set_other)

lemma tmp_only_del: "tmp_only s (fs_del s tmpDir n)"
  by (simp add: tmp_only_def fs_node_del)

lemma tmp_only_mkdir: "fs_mkdir s d = Inr s' \<Longrightarrow> tmp_only s s'"
  by (simp add: tmp_only_def fs_mkdir_node)

lemma remove_temp: "fs_wf s \<Longrightarrow> fs_wf (remove_temp e tmp s)" "tmp_only s (remove_temp e tmp s)"
  by (simp_all add: remove_temp_def fs_wf_del tmp_only_del)

lemma createTemp_Some:
  assumes "createTemp e s = Some (tmp, s1)"
  shows "tmp_only s s1 \<and> (fs_wf s \<longrightarrow> fs_wf s1) \<and> fs_dir s1 tmpDir \<noteq> None \<and> proper_name tmp"
  using assms
  by (auto simp: createTemp_def tmp_only_set fs_wf_set fs_dir_set split: if_splits)

lemma write_file: "tmp_only s (write_file e s tmp d x)"
  "fs_wf s \<Longrightarrow> proper_name tmp \<Longrightarrow> fs_wf (write_file e s tmp d x)"
  "fs_dir s tmpDir \<noteq> None \<Longrightarrow> fs_node (write_file e s tmp d x) tmpDir tmp =
     Some \<lparr>ino_kind = Regular, ino_data = d, ino_mtime = le_now e, ino_etag = x\<rparr>"
  by (simp_all add: write_file_def tmp_only_set fs_wf_set fs_node_set)

lemma writeTemp_frame:
  assumes "writeTemp md5 e tmp b sz mx s = (r, eof, s')"
  shows "tmp_only s s' \<and> (fs_wf s \<longrightarrow> proper_name tmp \<longrightarrow> fs_wf s')"
  using assms unfolding writeTemp_def
  by (auto simp: Let_def write_file split: prod.splits option.splits if_splits)

lemma writeTemp_Inr:
  assumes "writeTemp md5 e tmp b sz mx s = (Inr etag, eof, s')" and "fs_dir s tmpDir \<noteq> None" and "0 \<le> mx"
  shows "bd_end b = None \<and> eof \<and> (0 \<le> sz \<longrightarrow> int (length (bd_data b)) = sz) \<and> int (length (bd_data b)) \<le> mx
    \<and> etag = hex_EncodeToString (md5 (bd_data b))
    \<and> (\<exists>x. fs_node s' tmpDir tmp = Some \<lparr>ino_kind = Regular, ino_data = bd_data b,
           ino_mtime = le_now e, ino_etag = x\<rparr> \<and> (x = None \<or> x = Some etag))"
proof -
  define limit where "limit = (if sz \<ge> 0 \<and> sz < mx then sz else mx)"
  obtain d err eof' where c: "copy_limited b (nat (limit + 1)) = (d, err, eof')" by (metis prod_cases3)
  from assms(1) c have k: "err = None" "eof' = eof" "int (length d) \<le> mx" "sz \<ge> 0 \<longrightarrow> int (length d) = sz"
      "etag = hex_EncodeToString (md5 d)"
      "s' = write_file e s tmp d (if le_xattr_ok e then Some etag else None)"
    by (auto simp: writeTemp_def limit_def[symmetric] Let_def split: option.splits if_splits)
  have "length d \<le> nat limit" using k(3,4) by (auto simp: limit_def)
  moreover have "nat (limit + 1) = Suc (nat limit)" using assms(3) by (auto simp: limit_def)
  ultimately have "d = bd_data b \<and> bd_end b = None \<and> eof"
    using copy_limited_complete[of b "nat limit" d eof] c k(1,2) by simp
  with k write_file(3)[OF assms(2)] show ?thesis by auto
qed

lemma store_temp_Inr:
  assumes "store_temp e ow tmp (d, n) s = Inr s'" and "fs_node s tmpDir tmp = Some i" and "d \<noteq> tmpDir"
  shows "(ow \<or> fs_node s d n = None) \<and> fs_node s' d n = Some i
    \<and> (\<forall>d' n'. d' \<noteq> tmpDir \<longrightarrow> (d', n') \<noteq> (d, n) \<longrightarrow> fs_node s' d' n' = fs_node s d' n')
    \<and> (fs_wf s \<longrightarrow> proper_name n \<longrightarrow> fs_wf s')"
  using assms
  by (auto simp: store_temp_def fs_rename_def fs_link_def fs_node_set fs_node_del fs_wf_set fs_wf_del
      split: option.splits if_splits)

subsection \<open>Put stores all of the body or nothing\<close>

text \<open>
  Every run of Put either leaves the objects alone and fails, or it has stored the whole
  body under the key; then it succeeds unless the final Stat fails.
\<close>

definition put_stored :: "fs \<Rightarrow> fs \<Rightarrow> string \<Rightarrow> body \<Rightarrow> int \<Rightarrow> bool \<Rightarrow> bool" where
  "put_stored s s' key b sz ow \<longleftrightarrow>
     checkKey key = None \<and> (ow \<or> local_objs s key = None) \<and> bd_end b = None
     \<and> (0 \<le> sz \<longrightarrow> int (length (bd_data b)) = sz) \<and> local_objs s' = (local_objs s)(key \<mapsto> bd_data b)"

lemma local_objs_key: "CHR ''/'' \<notin> set d \<Longrightarrow> local_objs s (d @ CHR ''/'' # n) =
    (if d \<noteq> tmpDir then (case fs_node s d n of
       Some i \<Rightarrow> if ino_kind i = Regular then Some (ino_data i) else None | None \<Rightarrow> None) else None)"
  by (simp add: local_objs_def)

lemma local_objs_update:
  assumes "proper_name d" and "d \<noteq> tmpDir" and "fs_node s' d n = Some i" and "ino_kind i = Regular"
    and "\<forall>d' n'. d' \<noteq> tmpDir \<longrightarrow> (d', n') \<noteq> (d, n) \<longrightarrow> fs_node s' d' n' = fs_node s d' n'"
  shows "local_objs s' = (local_objs s)(d @ CHR ''/'' # n \<mapsto> ino_data i)"
proof
  fix key
  have nd: "CHR ''/'' \<notin> set d" using assms(1) by (simp add: proper_name_def)
  show "local_objs s' key = ((local_objs s)(d @ CHR ''/'' # n \<mapsto> ino_data i)) key"
  proof (cases key "CHR ''/''" rule: Cut_cases)
    case (found d' n')
    show ?thesis
    proof (cases "(d', n') = (d, n)")
      case True
      with found assms(2-4) nd show ?thesis by (simp add: local_objs_key)
    next
      case False
      then have "d' @ CHR ''/'' # n' \<noteq> d @ CHR ''/'' # n"
        using found(2) nd by (metis Cut_append Pair_inject)
      with False found assms(5) show ?thesis by (auto simp: local_objs_key)
    qed
  next
    case absent
    then have "key \<noteq> d @ CHR ''/'' # n" by auto
    with absent show ?thesis by (simp add: local_objs_def)
  qed
qed

lemma local_Put_store:
  assumes wf: "fs_wf s2" and node: "fs_node s2 tmpDir tmp = Some i" and i: "ino_kind i = Regular"
    and key: "checkKey key = None" "Cut key CHR ''/'' = (device, name, f)"
    and mk: "fs_mkdir s2 device = Inr s3" and st: "store_temp e ow tmp (device, name) s3 = Inr s4"
  shows "fs_wf s4 \<and> (ow \<or> local_objs s2 key = None) \<and> local_objs s4 = (local_objs s2)(key \<mapsto> ino_data i)
    \<and> fs_node s4 device name = Some i"
proof -
  from key obtain d n where dn: "key = d @ CHR ''/'' # n" "proper_name d" "proper_name n" "d \<noteq> tmpDir"
    "device = d" "name = n" by (auto elim!: checkKey_split)
  have node3: "fs_node s3 tmpDir tmp = Some i" using mk node by (simp add: fs_mkdir_node)
  have wf3: "fs_wf s3" using fs_wf_mkdir[OF wf _ mk] dn by simp
  note st' = store_temp_Inr[OF st node3, unfolded dn(5,6), OF dn(4)]
  have o3: "local_objs s3 = local_objs s2" by (rule tmp_only_objs[OF tmp_only_mkdir[OF mk]])
  have "local_objs s4 = (local_objs s3)(key \<mapsto> ino_data i)"
    unfolding dn(1) using st' by (intro local_objs_update dn i) auto
  moreover have "ow \<or> local_objs s3 key = None"
    using st' dn by (auto simp: local_objs_key proper_name_def)
  ultimately show ?thesis using st' wf3 dn o3 by simp
qed

lemma local_Put_cases:
  assumes "fs_wf s" and "local_Put md5 l e s key b sz ow = (r, eof, s')"
  shows "fs_wf s' \<and> (local_objs s' = local_objs s \<and> (\<exists>err. r = Inl err)
      \<or> put_stored s s' key b sz ow \<and> eof
        \<and> (r = Inl ErrOther \<or> (\<exists>i. r = Inr i \<and> oi_Key i = key \<and> oi_Size i = int (length (bd_data b))
             \<and> oi_ETag i = hex_EncodeToString (md5 (bd_data b)))))"
    (is "?G")
proof (cases "le_ctx_err e \<or> checkKey key \<noteq> None \<or> sz > int (l_maxSize l) \<or> createTemp e s = None")
  case True
  with assms show ?thesis by (auto simp: local_Put_def split: if_splits option.splits)
next
  case False
  then obtain tmp s1 where t: "createTemp e s = Some (tmp, s1)" by auto
  obtain w eof' s2 where w: "writeTemp md5 e tmp b sz (int (l_maxSize l)) s1 = (w, eof', s2)"
    by (metis prod_cases3)
  note T = createTemp_Some[OF t] and W = writeTemp_frame[OF w]
  have wf2: "fs_wf s2" using T W assms(1) by blast
  have o2: "tmp_only s s2" using T W by (blast intro: tmp_only_trans)
  have fin: "fs_wf (remove_temp e tmp u) \<and> local_objs (remove_temp e tmp u) = local_objs u" if "fs_wf u" for u
    using remove_temp(1)[OF that] tmp_only_objs[OF remove_temp(2)] by blast
  obtain device name f where c: "Cut key CHR ''/'' = (device, name, f)" by (metis prod_cases3)
  note put = assms(2)[unfolded local_Put_def, simplified]
  show ?thesis
  proof (cases w)
    case (Inl err)
    with put False t w have "r = Inl err" "s' = remove_temp e tmp s2" by auto
    with fin[OF wf2] tmp_only_objs[OF o2] show ?thesis by auto
  next
    case (Inr etag)
    note W' = writeTemp_Inr[OF w[unfolded Inr] _ of_nat_0_le_iff]
    from W' T obtain x where i: "fs_node s2 tmpDir tmp = Some \<lparr>ino_kind = Regular, ino_data = bd_data b,
        ino_mtime = le_now e, ino_etag = x\<rparr>" by blast
    show ?thesis
    proof (cases "case le_mkdir_err e of Some en \<Rightarrow> Inl en | None \<Rightarrow> fs_mkdir s2 device")
      case (Inl en)
      with put False t w Inr c have "\<exists>err. r = Inl err" "s' = remove_temp e tmp s2" by auto
      with fin[OF wf2] tmp_only_objs[OF o2] show ?thesis by auto
    next
      case mk: (Inr s3)
      then have mk': "fs_mkdir s2 device = Inr s3" by (auto split: option.splits)
      have dev: "proper_name device" using False c by (auto elim!: checkKey_split)
      have wf3: "fs_wf s3" by (rule fs_wf_mkdir[OF wf2 dev mk'])
      have o3: "local_objs s3 = local_objs s"
        using tmp_only_objs[OF tmp_only_mkdir[OF mk']] tmp_only_objs[OF o2] by simp
      show ?thesis
      proof (cases "store_temp e ow tmp (device, name) s3")
        case (Inl en)
        with put False t w Inr c mk have "\<exists>err. r = Inl err" "s' = remove_temp e tmp s3"
          by (auto split: if_splits)
        with fin[OF wf3] o3 show ?thesis by auto
      next
        case st: (Inr s4)
        have S: "fs_wf s4" "ow \<or> local_objs s2 key = None"
          "local_objs s4 = (local_objs s2)(key \<mapsto> bd_data b)"
          "fs_node s4 device name = Some \<lparr>ino_kind = Regular, ino_data = bd_data b,
             ino_mtime = le_now e, ino_etag = x\<rparr>"
          using local_Put_store[OF wf2 i _ _ c mk' st] False by auto
        from put False t w Inr c mk st S(4) have
          "s' = remove_temp e tmp s4" "eof = eof'"
          "r = Inl ErrOther \<or> (\<exists>i. r = Inr i \<and> oi_Key i = key \<and> oi_Size i = int (length (bd_data b))
             \<and> oi_ETag i = etag)"
          by (auto split: if_splits)
        with fin[OF S(1)] S W' T tmp_only_objs[OF o2] False show ?thesis
          by (auto simp: put_stored_def)
      qed
    qed
  qed
qed

subsection \<open>Listings\<close>

text \<open>The entries of one directory that a listing without failures returns.\<close>

definition listable :: "local_env \<Rightarrow> string \<Rightarrow> string \<Rightarrow> string \<Rightarrow> string \<times> inode \<Rightarrow> bool" where
  "listable e d name after x \<longleftrightarrow> \<not> list_skips d name after x \<and> \<not> le_gone e (entry_key d (fst x))"

definition dir_page :: "local_env \<Rightarrow> fs \<Rightarrow> string \<Rightarrow> string \<Rightarrow> string \<Rightarrow> ObjectInfo list" where
  "dir_page e s name after d = (case fs_readdir s d of
     Inl _ \<Rightarrow> [] | Inr ents \<Rightarrow> map (entry_info d) (filter (listable e d name after) ents))"

lemma list_entries_Inr:
  "list_entries e d name after mx os ents = Inr (res, full) \<Longrightarrow> length os \<le> mx \<Longrightarrow>
   res = take mx (os @ map (entry_info d) (filter (listable e d name after) ents))
   \<and> full = (mx < length (os @ map (entry_info d) (filter (listable e d name after) ents)))"
proof (induction ents arbitrary: os)
  case (Cons x xs)
  show ?case
  proof (cases "listable e d name after x")
    case False
    then have "list_entries e d name after mx os (x # xs) = list_entries e d name after mx os xs"
      by (auto simp: listable_def)
    with Cons False show ?thesis by simp
  next
    case True
    with Cons.prems(1) have r: "(if mx < length (os @ [entry_info d x]) then Inr (take mx (os @ [entry_info d x]), True)
        else list_entries e d name after mx (os @ [entry_info d x]) xs) = Inr (res, full)"
      by (auto simp: listable_def Let_def split: if_splits)
    show ?thesis
    proof (cases "mx < length (os @ [entry_info d x])")
      case full: True
      with r True Cons.prems(2) show ?thesis by auto
    next
      case False
      with r Cons.IH[of "os @ [entry_info d x]"] True show ?thesis by simp
    qed
  qed
qed simp

lemma list_dirs_Inr:
  "list_dirs e s name after mx os ds = Inr (res, full) \<Longrightarrow> length os \<le> mx \<Longrightarrow>
   let all = os @ concat (map (dir_page e s name after) ds)
   in res = take mx all \<and> full = (mx < length all)"
proof (induction ds arbitrary: os)
  case (Cons d ds)
  show ?case
  proof (cases "fs_readdir s d")
    case (Inl en)
    with Cons show ?thesis by (cases en) (auto simp: dir_page_def split: if_splits)
  next
    case (Inr ents)
    with Cons.prems obtain r f where r: "list_entries e d name after mx os ents = Inr (r, f)"
      by (auto split: if_splits sum.splits)
    note R = list_entries_Inr[OF r Cons.prems(2)]
    show ?thesis
    proof (cases f)
      case True
      with Cons.prems Inr r R show ?thesis by (auto simp: dir_page_def Let_def split: if_splits)
    next
      case False
      with Cons.prems Inr r have "list_dirs e s name after mx r ds = Inr (res, full)"
        by (auto split: if_splits)
      moreover from R False have "r = os @ dir_page e s name after d" "length r \<le> mx"
        using Inr by (auto simp: dir_page_def)
      ultimately show ?thesis using Cons.IH[of r] by (simp add: Let_def)
    qed
  qed
qed simp

lemma sorted_wrt_map_filter_mono:
  "sorted_wrt R (map f xs) \<Longrightarrow> (\<And>x y. R (f x) (f y) \<Longrightarrow> Q (g x) (g y)) \<Longrightarrow> sorted_wrt Q (map g (filter P xs))"
  by (induction xs) auto

lemma dir_page_sorted:
  assumes "fs_wf s"
  shows "sorted_wrt (<) (map oi_Key (dir_page e s name after d))"
proof (cases "fs_readdir s d")
  case (Inl en)
  then show ?thesis by (simp add: dir_page_def)
next
  case (Inr ents)
  then obtain es where "fs_dir s d = Some es" "ents = sort_key fst es"
    by (auto simp: fs_readdir_def fs_dir_def split: if_splits option.splits rootent.splits)
  with fs_dir_wf[OF assms] have "sorted_wrt (<) (map fst ents)" by (auto intro: sorted_readdir)
  then have "sorted_wrt (<) (map (oi_Key \<circ> entry_info d) (filter (listable e d name after) ents))"
    by (rule sorted_wrt_map_filter_mono) (simp add: entry_info_def entry_key_def key_less_iff)
  with Inr show ?thesis by (simp add: dir_page_def)
qed

lemma dir_page_mem:
  assumes "fs_wf s" and "o1 \<in> set (dir_page e s name after d)"
  obtains n i where "fs_node s d n = Some i" "ino_kind i = Regular" "oi_Key o1 = entry_key d n"
    "oi_Size o1 = int (length (ino_data i))" "HasPrefix n name" "after < entry_key d n" "proper_name d" "proper_name n"
proof -
  from assms(2) obtain ents where ents: "fs_readdir s d = Inr ents"
    by (cases "fs_readdir s d") (auto simp: dir_page_def)
  then obtain es where es: "fs_dir s d = Some es" "ents = sort_key fst es"
    by (auto simp: fs_readdir_def fs_dir_def split: if_splits option.splits rootent.splits)
  from assms(2) ents es obtain n i where x: "(n, i) \<in> set es" "listable e d name after (n, i)" "o1 = entry_info d (n, i)"
    by (auto simp: dir_page_def)
  have wf: "dir_wf es" "proper_name d" using fs_dir_wf[OF assms(1) es(1)] by auto
  have "map_of es n = Some i" using x wf by (simp add: dir_wf_def)
  then have "fs_node s d n = Some i" using es by (simp add: fs_node_def)
  moreover have "proper_name n" using x wf by (force simp: dir_wf_def)
  ultimately show ?thesis
    using that x wf by (auto simp: listable_def list_skips_def entry_info_def)
qed

lemma dir_page_complete:
  assumes "fs_node s d n = Some i" and "ino_kind i = Regular" and "HasPrefix n name"
    and "after < entry_key d n" and "\<not> le_gone e (entry_key d n)" and "ValidString d"
  shows "entry_info d (n, i) \<in> set (dir_page e s name after d)"
proof -
  from assms(1) obtain es where es: "fs_dir s d = Some es" "map_of es n = Some i"
    by (auto simp: fs_node_def split: option.splits)
  then have "fs_readdir s d = Inr (sort_key fst es)"
    using assms(6) by (auto simp: fs_readdir_def fs_dir_def split: option.splits rootent.splits)
  moreover have "(n, i) \<in> set es" using es by (simp add: map_of_SomeD)
  ultimately show ?thesis
    using assms by (auto simp: dir_page_def listable_def list_skips_def intro!: image_eqI)
qed

text \<open>A listing for a prefix with a slash reads exactly one device directory.\<close>

lemma local_List_device:
  assumes "local_List e s (d @ CHR ''/'' # blob) after mx = Inr (res, full)" and "CHR ''/'' \<notin> set d"
  shows "res = take (clamp_max mx) (dir_page e s blob after d)
    \<and> full = (clamp_max mx < length (dir_page e s blob after d))"
proof -
  from assms have "list_dirs e s blob after (clamp_max mx) [] [d] = Inr (res, full)"
    by (auto simp: local_List_def listDirs_def split: if_splits)
  from list_dirs_Inr[OF this] show ?thesis by (simp add: Let_def)
qed

lemma local_List_mem:
  assumes "fs_wf s" and "local_List e s prefix after mx = Inr (res, full)" and "o1 \<in> set res"
  obtains d n i where "fs_node s d n = Some i" "ino_kind i = Regular" "oi_Key o1 = entry_key d n" "d \<noteq> tmpDir"
    "oi_Size o1 = int (length (ino_data i))" "HasPrefix (entry_key d n) prefix" "after < entry_key d n"
    "proper_name d" "proper_name n"
proof -
  from assms(2) obtain ds name where ds: "listDirs e s prefix = Inr (ds, name)"
    "list_dirs e s name after (clamp_max mx) [] ds = Inr (res, full)"
    by (auto simp: local_List_def split: if_splits sum.splits)
  from list_dirs_Inr[OF ds(2)] assms(3) obtain d where d: "d \<in> set ds" "o1 \<in> set (dir_page e s name after d)"
    by (auto simp: Let_def dest!: in_set_takeD)
  from assms(1) d(2) obtain n i where ni: "fs_node s d n = Some i" "ino_kind i = Regular" "oi_Key o1 = entry_key d n"
    "oi_Size o1 = int (length (ino_data i))" "HasPrefix n name" "after < entry_key d n" "proper_name d" "proper_name n"
    by (rule dir_page_mem)
  have "d \<noteq> tmpDir \<and> HasPrefix (entry_key d n) prefix"
  proof (cases prefix "CHR ''/''" rule: Cut_cases)
    case (found a b)
    with ds(1) have "ds = [a]" "name = b" "a \<noteq> tmpDir" by (auto simp: listDirs_def split: if_splits)
    with d(1) ni(5) found(1) show ?thesis by (auto simp: entry_key_def HasPrefix_iff)
  next
    case absent
    with ds(1) d(1) have "HasPrefix d prefix" "d \<noteq> tmpDir" by (auto simp: listDirs_def split: if_splits)
    then show ?thesis by (auto simp: entry_key_def HasPrefix_iff)
  qed
  with ni that show ?thesis by blast
qed

lemma sorted_take_complete:
  fixes k :: "'a::linorder"
  assumes "sorted_wrt (<) ks" and "k \<in> set ks" and "m < length ks" and "0 < m" and "k \<le> last (take m ks)"
  shows "k \<in> set (take m ks)"
proof (rule ccontr)
  assume "k \<notin> set (take m ks)"
  with assms(2) have k: "k \<in> set (drop m ks)" by (metis append_take_drop_id Un_iff set_append)
  have "sorted_wrt (<) (take m ks @ drop m ks)" using assms(1) by simp
  then have "\<forall>x \<in> set (take m ks). x < k" using k unfolding sorted_wrt_append by blast
  moreover have "last (take m ks) \<in> set (take m ks)" using assms(3,4) by (intro last_in_set) auto
  ultimately show False using assms(5) by auto
qed

lemma clamp_max_bounds: "0 < clamp_max mx" "0 < mx \<Longrightarrow> int (clamp_max mx) \<le> mx" "clamp_max mx \<le> 1000"
  by (auto simp: clamp_max_def maxKeys_def)

subsection \<open>The backend implements the contract\<close>

lemma local_open_Inr:
  assumes "local_open e s key = Inr st"
  shows "checkKey key = None \<and> local_objs s key = Some (ino_data st)
    \<and> (\<exists>d n. Cut key CHR ''/'' = (d, n, True) \<and> fs_node s d n = Some st \<and> ino_kind st = Regular)"
proof -
  from assms have k: "checkKey key = None" "lstatObject e s key = Inr st"
    by (auto simp: local_open_def split: option.splits sum.splits if_splits)
  from k(1) obtain d n where dn: "Cut key CHR ''/'' = (d, n, True)" "d \<noteq> tmpDir"
    by (rule checkKey_split)
  with k show ?thesis
    by (auto simp: lstatObject_def local_objs_def split: option.splits if_splits)
qed

lemma local_put_Inr:
  assumes "fs_wf s" and "local_Put md5 l e s k b sz ow = (Inr i, eof, s')"
  shows "fs_wf s' \<and> local_objs s' = (local_objs s)(k \<mapsto> bd_data b) \<and> (ow \<or> local_objs s k = None)
      \<and> eof \<and> bd_end b = None \<and> (0 \<le> sz \<longrightarrow> int (length (bd_data b)) = sz)
      \<and> oi_Key i = k \<and> oi_Size i = int (length (bd_data b)) \<and> checkKey k = None"
  using local_Put_cases[OF assms] by (simp add: put_stored_def)

lemma local_put_Inl:
  assumes "fs_wf s" and "local_Put md5 l e s k b sz ow = (Inl err, eof, s')"
  shows "fs_wf s' \<and> (local_objs s' = local_objs s \<or> err = ErrOther \<and> (ow \<or> local_objs s k = None) \<and> bd_end b = None
         \<and> local_objs s' = (local_objs s)(k \<mapsto> bd_data b))"
  using local_Put_cases[OF assms] by (auto simp: put_stored_def)

lemma read_file_prefix:
  "(\<exists>m. bd_data (read_file e d) = take m d) \<and> (bd_end (read_file e d) = None \<longrightarrow> bd_data (read_file e d) = d)"
proof (cases "le_read_err e")
  case None
  then have "bd_data (read_file e d) = d" by (simp add: read_file_def)
  then show ?thesis by (metis take_all_iff order_refl)
next
  case (Some k)
  then show ?thesis by (auto simp: read_file_def)
qed

lemma local_get_Inr:
  assumes "local_Get e s k off len = Inr (b, i)"
  shows "\<exists>v. local_objs s k = Some v \<and> 0 \<le> off \<and> (off = 0 \<or> off < int (length v))
        \<and> oi_Key i = k \<and> oi_Size i = int (length v)
        \<and> (\<exists>m. bd_data b = take m (byte_range v off len))
        \<and> (bd_end b = None \<longrightarrow> bd_data b = byte_range v off len)"
proof -
  from assms obtain st where st: "local_open e s k = Inr st"
    by (auto simp: local_Get_def split: if_splits sum.splits)
  let ?v = "ino_data st"
  from assms st have r: "0 \<le> off" "off = 0 \<or> off < int (length ?v)" "oi_Key i = k" "oi_Size i = int (length ?v)"
    "b = read_file e (take (nat (clamp_len (int (length ?v)) off len)) (drop (nat off) ?v))"
    by (auto simp: local_Get_def Let_def split: if_splits)
  then have "b = read_file e (byte_range ?v off len)" using clamp_len_range[of off ?v len] by auto
  with r(1-4) local_open_Inr[OF st] read_file_prefix[of e "byte_range ?v off len"] show ?thesis by simp
qed

lemma local_get_missing: "local_objs s k = None \<Longrightarrow> \<exists>err. local_Get e s k off len = Inl err"
proof (cases "local_Get e s k off len")
  case (Inr r)
  assume "local_objs s k = None"
  moreover from Inr have "local_Get e s k off len = Inr (fst r, snd r)" by simp
  ultimately show ?thesis using local_get_Inr[of e s k off len "fst r" "snd r"] by auto
qed blast

lemma local_head_Inr:
  assumes "local_Head md5 e s k = Inr i"
  shows "\<exists>v. local_objs s k = Some v \<and> oi_Key i = k \<and> oi_Size i = int (length v)"
proof -
  from assms obtain st where st: "local_open e s k = Inr st"
    by (auto simp: local_Head_def split: if_splits sum.splits)
  with assms local_open_Inr[OF st] show ?thesis
    by (auto simp: local_Head_def Let_def split: if_splits option.splits)
qed

lemma local_list_sound:
  assumes "fs_wf s" and "local_List e s p a mx = Inr (os, tr)" and "o1 \<in> set os"
  shows "\<exists>v. local_objs s (oi_Key o1) = Some v \<and> oi_Size o1 = int (length v)
        \<and> HasPrefix (oi_Key o1) p \<and> a < oi_Key o1"
proof -
  from assms obtain d n i where "fs_node s d n = Some i" "ino_kind i = Regular" "oi_Key o1 = entry_key d n" "d \<noteq> tmpDir"
    "oi_Size o1 = int (length (ino_data i))" "HasPrefix (entry_key d n) p" "a < entry_key d n"
    "proper_name d" "proper_name n"
    by (rule local_List_mem)
  then show ?thesis by (auto simp: entry_key_def local_objs_key proper_name_def)
qed

lemma slash_split:
  assumes "CHR ''/'' \<in> set (p::string)"
  obtains d blob where "p = d @ CHR ''/'' # blob" "CHR ''/'' \<notin> set d"
  using assms by (auto dest: split_list_first)

lemma local_list_sorted:
  assumes "fs_wf s" and "CHR ''/'' \<in> set p" and "local_List e s p a mx = Inr (os, tr)"
  shows "sorted_wrt (<) (map oi_Key os) \<and> (tr \<longrightarrow> os \<noteq> []) \<and> (0 < mx \<longrightarrow> int (length os) \<le> mx)"
proof -
  from assms(2) obtain d blob where p: "p = d @ CHR ''/'' # blob" "CHR ''/'' \<notin> set d" by (rule slash_split)
  note L = local_List_device[OF assms(3)[unfolded p(1)] p(2)]
  have "sorted_wrt (<) (map oi_Key os)"
    using L dir_page_sorted[OF assms(1), of e blob a d] by (simp add: take_map[symmetric] sorted_wrt_take)
  with L clamp_max_bounds[of mx] show ?thesis by auto
qed

lemma local_list_valid:
  assumes "local_List e s (d @ CHR ''/'' # blob) a mx = Inr (os, tr)" and "CHR ''/'' \<notin> set d"
  shows "ValidString d \<and> d \<noteq> tmpDir"
  using assms by (auto simp: local_List_def listDirs_def fs_readdir_def split: if_splits)

lemma local_list_complete:
  assumes "fs_wf s" and "CHR ''/'' \<in> set p" and "local_List e s p a mx = Inr (os, tr)"
    and "local_objs s k = Some v" and "HasPrefix k p" and "a < k" and "\<not> le_gone e k" and "\<not> tr \<or> k \<le> oi_Key (last os)"
  shows "k \<in> oi_Key ` set os"
proof -
  from assms(2) obtain d blob where p: "p = d @ CHR ''/'' # blob" "CHR ''/'' \<notin> set d" by (rule slash_split)
  note L = local_List_device[OF assms(3)[unfolded p(1)] p(2)] and V = local_list_valid[OF assms(3)[unfolded p(1)] p(2)]
  from assms(5) p obtain n where n: "k = entry_key d n" "HasPrefix n blob"
    by (auto simp: HasPrefix_iff entry_key_def)
  from assms(4) n p V obtain i where i: "fs_node s d n = Some i" "ino_kind i = Regular"
    by (auto simp: entry_key_def local_objs_key split: option.splits if_splits)
  from dir_page_complete[OF i n(2), of a e] V assms(6,7) n(1)
  have "entry_info d (n, i) \<in> set (dir_page e s blob a d)" by simp
  then have k: "k \<in> set (map oi_Key (dir_page e s blob a d))"
    using n(1) by (force simp: entry_info_def)
  have "k \<in> set (take (clamp_max mx) (map oi_Key (dir_page e s blob a d)))"
  proof (cases tr)
    case False
    with L k show ?thesis by simp
  next
    case True
    with L clamp_max_bounds(1)[of mx] have ne: "os \<noteq> []" by auto
    then have "k \<le> last (take (clamp_max mx) (map oi_Key (dir_page e s blob a d)))"
      using True assms(8) L by (simp add: take_map last_map)
    with True L show ?thesis
      by (intro sorted_take_complete dir_page_sorted assms(1) k clamp_max_bounds) auto
  qed
  with L show ?thesis by (simp add: take_map)
qed

lemma local_delete_cases:
  assumes "fs_wf s" and "local_Delete e s k = (r, s')"
  shows "fs_wf s' \<and> (r = None \<and> local_objs s k \<noteq> None \<and> local_objs s' = (local_objs s)(k := None)
     \<or> (\<exists>err. r = Some err) \<and> s' = s)"
proof (cases "\<exists>err. r = Some err")
  case True
  with assms show ?thesis
    by (auto simp: local_Delete_def split: if_splits option.splits sum.splits prod.splits)
next
  case False
  with assms(2) obtain st where st: "checkKey k = None" "lstatObject e s k = Inr st" "r = None"
    "s' = (case Cut k CHR ''/'' of (d, n, _) \<Rightarrow> fs_del s d n)"
    by (auto simp: local_Delete_def split: if_splits option.splits sum.splits prod.splits)
  from st(1) obtain d n where dn: "k = d @ CHR ''/'' # n" "Cut k CHR ''/'' = (d, n, True)" "proper_name d" "d \<noteq> tmpDir"
    by (rule checkKey_split)
  have s': "s' = fs_del s d n" using st(4) dn(2) by simp
  have "local_objs s k \<noteq> None"
    using st(2) dn by (auto simp: lstatObject_def local_objs_def split: option.splits if_splits)
  moreover have "local_objs s' = (local_objs s)(k := None)"
    using dn(1,3) s' by (auto simp: local_objs_def fs_node_del proper_name_def fun_eq_iff Cut_True split: prod.splits)
  ultimately show ?thesis using st(3) s' fs_wf_del[OF assms(1)] by simp
qed

interpretation lo: object_store_contract "local_ops md5 l" fs_wf local_objs le_gone for md5 l
proof (unfold_locales, goal_cases)
  case 1 then show ?case by (intro local_put_Inr) (simp_all add: local_ops_def)
next
  case 2 then show ?case by (intro local_put_Inl) (simp_all add: local_ops_def)
next
  case 3 then show ?case by (intro local_get_Inr) (simp add: local_ops_def)
next
  case 4 then show ?case by (simp add: local_ops_def local_get_missing)
next
  case 5 then show ?case by (intro local_head_Inr) (simp add: local_ops_def)
next
  case 6 then show ?case by (intro local_list_sound) (simp_all add: local_ops_def)
next
  case 7 then show ?case by (intro local_list_sorted) (simp_all add: local_ops_def)
next
  case 8 then show ?case by (intro local_list_complete) (simp_all add: local_ops_def)
next
  case 9 then show ?case using local_delete_cases by (fastforce simp: local_ops_def)
next
  case 10 then show ?case using local_delete_cases by (fastforce simp: local_ops_def)
qed

end
