(* ===== verification/Local_Correct.thy ===== *)
theory Local_Correct
  imports Local_Store
begin

section \<open>Correctness of the Fleet-disk backend\<close>

text \<open>
  The properties of \<^verbatim>\<open>src/fleet/gateway/local.go\<close> beyond the interface contract: what a run
  with no failing system call does (an upload is stored and read back, a second upload is
  refused), that the ETag a Head reports is the MD5 of the stored bytes in every reachable
  state, and that opening a root sweeps abandoned temporary files only.
\<close>

subsection \<open>Runs without failures\<close>

definition fault_free :: "local_env \<Rightarrow> bool" where
  "fault_free e \<longleftrightarrow> \<not> le_ctx_err e \<and> \<not> le_create_err e \<and> le_copy_err e = None \<and> \<not> le_sync_err e
     \<and> le_mkdir_err e = None \<and> le_store_err e = None \<and> \<not> le_stat_err e \<and> le_lstat_err e = None
     \<and> \<not> le_open_err e \<and> \<not> le_fstat_err e \<and> \<not> le_seek_err e \<and> le_read_err e = None"

text \<open>
  An upload the backend can accept: a valid key, a body within the limits and of the
  declared length, a staging directory with the chosen name free, and no plain file where
  the device directory belongs.
\<close>

definition uploadable :: "local \<Rightarrow> local_env \<Rightarrow> fs \<Rightarrow> string \<Rightarrow> body \<Rightarrow> int \<Rightarrow> bool" where
  "uploadable l e s key b sz \<longleftrightarrow>
     checkKey key = None \<and> bd_end b = None \<and> length (bd_data b) \<le> l_maxSize l
     \<and> (sz < 0 \<or> sz = int (length (bd_data b)))
     \<and> fs_dir s tmpDir \<noteq> None \<and> fs_node s tmpDir (le_tmp e) = None \<and> proper_name (le_tmp e)
     \<and> map_of s (fst (Cut key CHR ''/'')) \<noteq> Some NotDir"

definition stored_inode :: "(string \<Rightarrow> string) \<Rightarrow> local_env \<Rightarrow> string \<Rightarrow> inode" where
  "stored_inode md5 e d = \<lparr>ino_kind = Regular, ino_data = d, ino_mtime = le_now e,
     ino_etag = (if le_xattr_ok e then Some (hex_EncodeToString (md5 d)) else None)\<rparr>"

lemma writeTemp_ok:
  assumes "le_copy_err e = None" and "\<not> le_sync_err e" and "bd_end b = None"
    and "int (length (bd_data b)) \<le> mx" and "sz < 0 \<or> sz = int (length (bd_data b))"
  shows "writeTemp md5 e tmp b sz mx s =
    (Inr (hex_EncodeToString (md5 (bd_data b))), True, fs_set s tmpDir tmp (stored_inode md5 e (bd_data b)))"
proof -
  define limit where "limit = (if sz \<ge> 0 \<and> sz < mx then sz else mx)"
  have "int (length (bd_data b)) \<le> limit" using assms(4,5) by (auto simp: limit_def)
  then have "copy_limited b (nat (limit + 1)) = (bd_data b, None, True)"
    using assms(3) by (auto simp: copy_limited_def)
  with assms show ?thesis
    by (auto simp: writeTemp_def limit_def[symmetric] Let_def write_file_def stored_inode_def)
qed

text \<open>The rest of Put from the state in which the staged file is about to get its name.\<close>

definition link_staged ::
  "(string \<Rightarrow> string) \<Rightarrow> local_env \<Rightarrow> bool \<Rightarrow> string \<Rightarrow> body \<Rightarrow> string \<Rightarrow> string \<Rightarrow> fs
    \<Rightarrow> (gw_error + ObjectInfo) \<times> bool \<times> fs" where
  "link_staged md5 e ow key b device name s3 =
       (case store_temp e ow (le_tmp e) (device, name) s3 of
          Inl en \<Rightarrow> (Inl (if \<not> ow \<and> en = EEXIST then ErrExists else mapKeyErr en), True, remove_temp e (le_tmp e) s3)
        | Inr s4 \<Rightarrow> (case fs_node s4 device name of
             None \<Rightarrow> (Inl ErrOther, True, remove_temp e (le_tmp e) s4)
           | Some st \<Rightarrow> (Inr \<lparr>oi_Key = key, oi_Size = int (length (ino_data st)),
                 oi_ETag = hex_EncodeToString (md5 (bd_data b)), oi_LastModified = ino_mtime st\<rparr>,
               True, remove_temp e (le_tmp e) s4)))"

lemma fs_mkdir_ok: "map_of s d \<noteq> Some NotDir \<Longrightarrow> \<exists>s'. fs_mkdir s d = Inr s'"
  by (auto simp: fs_mkdir_def split: option.split rootent.split)

lemma store_temp_ok:
  "le_store_err e = None \<Longrightarrow> fs_node s tmpDir tmp = Some i \<Longrightarrow> fs_dir s d \<noteq> None \<Longrightarrow> fs_node s d n = None \<Longrightarrow>
   \<exists>s'. store_temp e ow tmp (d, n) s = Inr s'"
  by (auto simp: store_temp_def fs_rename_def fs_link_def)

lemma local_Put_staged:
  assumes "fault_free e" and "uploadable l e s key b sz" and c: "Cut key CHR ''/'' = (device, name, f)"
  obtains s3 where
    "local_Put md5 l e s key b sz ow = link_staged md5 e ow key b device name s3"
    "fs_node s3 tmpDir (le_tmp e) = Some (stored_inode md5 e (bd_data b))"
    "fs_node s3 device name = fs_node s device name" "fs_dir s3 device \<noteq> None" "device \<noteq> tmpDir"
proof -
  note ff = assms(1)[unfolded fault_free_def] and up = assms(2)[unfolded uploadable_def]
  from up c have dev: "device \<noteq> tmpDir" by (auto elim!: checkKey_split)
  obtain i where t: "createTemp e s = Some (le_tmp e, fs_set s tmpDir (le_tmp e) i)"
    using ff up by (auto simp: createTemp_def)
  let ?s1 = "fs_set s tmpDir (le_tmp e) i"
  let ?s2 = "fs_set ?s1 tmpDir (le_tmp e) (stored_inode md5 e (bd_data b))"
  have w: "writeTemp md5 e (le_tmp e) b sz (int (l_maxSize l)) ?s1 =
      (Inr (hex_EncodeToString (md5 (bd_data b))), True, ?s2)"
    using ff up by (intro writeTemp_ok) auto
  have m2: "map_of ?s2 device = map_of s device"
    using dev by (simp add: fs_set_def update_conv' split: option.splits)
  then obtain s3 where s3: "fs_mkdir ?s2 device = Inr s3"
    using up c fs_mkdir_ok[of ?s2 device] by auto
  have "fs_dir ?s1 tmpDir \<noteq> None" using up by (simp add: fs_dir_set)
  then have "fs_node s3 tmpDir (le_tmp e) = Some (stored_inode md5 e (bd_data b))"
    using fs_mkdir_node[OF s3] by (simp add: fs_node_set)
  moreover have "fs_node s3 device name = fs_node s device name"
    using fs_mkdir_node[OF s3] dev by (simp add: fs_node_set_other)
  moreover note fs_mkdir_dir[OF s3] dev
  ultimately show ?thesis
    using that[of s3] ff up t w s3 c by (auto simp: local_Put_def link_staged_def split: sum.split option.split)
qed

lemma local_Put_ok:
  assumes "fault_free e" and "uploadable l e s key b sz" and c: "Cut key CHR ''/'' = (device, name, f)"
    and free: "fs_node s device name = None"
  shows "\<exists>s'. local_Put md5 l e s key b sz ow =
      (Inr \<lparr>oi_Key = key, oi_Size = int (length (bd_data b)),
            oi_ETag = hex_EncodeToString (md5 (bd_data b)), oi_LastModified = le_now e\<rparr>, True, s')
    \<and> fs_node s' device name = Some (stored_inode md5 e (bd_data b))"
proof -
  from local_Put_staged[OF assms(1-3), of md5 ow] obtain s3 where p:
    "local_Put md5 l e s key b sz ow = link_staged md5 e ow key b device name s3"
    and n: "fs_node s3 tmpDir (le_tmp e) = Some (stored_inode md5 e (bd_data b))"
    and d: "fs_node s3 device name = None" "fs_dir s3 device \<noteq> None" "device \<noteq> tmpDir"
    unfolding free by blast
  from n d assms(1) obtain s4 where s4: "store_temp e ow (le_tmp e) (device, name) s3 = Inr s4"
    using store_temp_ok[of e s3 "le_tmp e" _ device name ow] by (auto simp: fault_free_def)
  have k: "fs_node s4 device name = Some (stored_inode md5 e (bd_data b))"
    using store_temp_Inr[OF s4 n d(3)] by simp
  then have "fs_node (remove_temp e (le_tmp e) s4) device name = Some (stored_inode md5 e (bd_data b))"
    using remove_temp(2)[of s4 e "le_tmp e"] d(3) by (simp add: tmp_only_def)
  with p s4 k show ?thesis by (simp add: link_staged_def stored_inode_def)
qed

lemma local_Put_taken:
  assumes "fault_free e" and "uploadable l e s key b sz" and c: "Cut key CHR ''/'' = (device, name, f)"
    and taken: "fs_node s device name = Some x"
  shows "\<exists>s'. local_Put md5 l e s key b sz False = (Inl ErrExists, True, s')"
proof -
  from local_Put_staged[OF assms(1-3), of md5 False] obtain s3 where p:
    "local_Put md5 l e s key b sz False = link_staged md5 e False key b device name s3"
    and n: "fs_node s3 tmpDir (le_tmp e) = Some (stored_inode md5 e (bd_data b))"
      "fs_node s3 device name = Some x" "fs_dir s3 device \<noteq> None"
    unfolding taken by blast
  from n assms(1) have "store_temp e False (le_tmp e) (device, name) s3 = Inl EEXIST"
    by (auto simp: store_temp_def fs_link_def fault_free_def)
  with p show ?thesis by (simp add: link_staged_def)
qed


text \<open>Reading an object in a run without failures.\<close>

lemma local_open_ok:
  assumes "fault_free e" and "checkKey key = None" and "Cut key CHR ''/'' = (d, n, f)"
    and "fs_node s d n = Some i" and "ino_kind i = Regular"
  shows "local_open e s key = Inr i"
  using assms by (simp add: local_open_def lstatObject_def fault_free_def)

lemma local_Get_ok:
  assumes "fault_free e" and "checkKey key = None" and "Cut key CHR ''/'' = (d, n, f)"
    and "fs_node s d n = Some i" and "ino_kind i = Regular"
    and "0 \<le> off" and "off = 0 \<or> off < int (length (ino_data i))"
  shows "local_Get e s key off len = Inr (\<lparr>bd_data = byte_range (ino_data i) off len, bd_end = None\<rparr>,
    \<lparr>oi_Key = key, oi_Size = int (length (ino_data i)), oi_ETag = [], oi_LastModified = ino_mtime i\<rparr>)"
proof -
  have "take (nat (clamp_len (int (length (ino_data i))) off len)) (drop (nat off) (ino_data i)) =
      byte_range (ino_data i) off len"
    using assms(6,7) by (intro clamp_len_range) auto
  with local_open_ok[OF assms(1-5)] assms(1,6,7) show ?thesis
    by (auto simp: local_Get_def read_file_def fault_free_def)
qed

lemma local_Head_stored:
  assumes "fault_free e" and "checkKey key = None" and "Cut key CHR ''/'' = (d, n, f)"
    and "fs_node s d n = Some (stored_inode md5 e' v)"
  shows "local_Head md5 e s key = Inr \<lparr>oi_Key = key, oi_Size = int (length v),
    oi_ETag = hex_EncodeToString (md5 v), oi_LastModified = le_now e'\<rparr>"
  using local_open_ok[OF assms] assms(1)
  by (auto simp: local_Head_def stored_inode_def fault_free_def split: option.split)

text \<open>
  C31. An upload in a run without failures is stored: Put answers with the size and the MD5
  of the body, every later read of any range of the key returns exactly those bytes, Head
  reports the same MD5, and a second upload to the key without overwrite is refused with
  ErrExists.
\<close>

theorem local_put_then_read:
  assumes "fault_free e" and "uploadable l e s key b sz"
    and "Cut key CHR ''/'' = (device, name, found)" and "fs_node s device name = None"
    and "fault_free e2"
  shows "\<exists>s'. local_Put md5 l e s key b sz ow =
        (Inr \<lparr>oi_Key = key, oi_Size = int (length (bd_data b)),
              oi_ETag = hex_EncodeToString (md5 (bd_data b)), oi_LastModified = le_now e\<rparr>, True, s')
    \<and> (\<forall>off len. 0 \<le> off \<longrightarrow> off = 0 \<or> off < int (length (bd_data b)) \<longrightarrow>
         local_Get e2 s' key off len =
           Inr (\<lparr>bd_data = byte_range (bd_data b) off len, bd_end = None\<rparr>,
                \<lparr>oi_Key = key, oi_Size = int (length (bd_data b)), oi_ETag = [], oi_LastModified = le_now e\<rparr>))
    \<and> local_Head md5 e2 s' key =
        Inr \<lparr>oi_Key = key, oi_Size = int (length (bd_data b)),
             oi_ETag = hex_EncodeToString (md5 (bd_data b)), oi_LastModified = le_now e\<rparr>
    \<and> (\<forall>b2 sz2. uploadable l e2 s' key b2 sz2 \<longrightarrow>
         (\<exists>s2. local_Put md5 l e2 s' key b2 sz2 False = (Inl ErrExists, True, s2)))"
proof -
  obtain s' where p: "local_Put md5 l e s key b sz ow =
        (Inr \<lparr>oi_Key = key, oi_Size = int (length (bd_data b)),
              oi_ETag = hex_EncodeToString (md5 (bd_data b)), oi_LastModified = le_now e\<rparr>, True, s')"
    and n: "fs_node s' device name = Some (stored_inode md5 e (bd_data b))"
    using local_Put_ok[OF assms(1-4)] by blast
  have k: "checkKey key = None" using assms(2) by (simp add: uploadable_def)
  show ?thesis
    using p local_Get_ok[OF assms(5) k assms(3) n] local_Head_stored[OF assms(5) k assms(3) n]
      local_Put_taken[OF assms(5) _ assms(3) n]
    by (intro exI[of _ s']) (simp add: stored_inode_def)
qed

definition calm :: local_env where
  "calm = \<lparr>le_ctx_err = False, le_now = 0, le_tmp = ''T'', le_create_err = False, le_copy_err = None,
     le_xattr_ok = True, le_sync_err = False, le_mkdir_err = None, le_store_err = None, le_stat_err = False,
     le_rmtmp_err = False, le_lstat_err = None, le_open_err = False, le_fstat_err = False, le_seek_err = False,
     le_read_err = None, le_getxattr_err = False, le_readdir_err = False, le_gone = (\<lambda>_. False),
     le_info_err = (\<lambda>_. False), le_remove_err = None\<rparr>"

definition small_local :: local where "small_local = \<lparr>l_dir = ''/srv'', l_maxSize = 16\<rparr>"

lemma calm_fault_free: "fault_free calm"
  by (simp add: fault_free_def calm_def)

theorem local_put_then_read_witness:
  "\<exists>s'. local_Put (\<lambda>_. ''0123456789abcdef'') small_local calm [(tmpDir, Dir [])] ''dev/p1''
      \<lparr>bd_data = ''hello'', bd_end = None\<rparr> 5 False =
        (Inr \<lparr>oi_Key = ''dev/p1'', oi_Size = 5,
              oi_ETag = ''30313233343536373839616263646566'', oi_LastModified = 0\<rparr>, True, s')
    \<and> local_Get calm s' ''dev/p1'' 1 3 =
           Inr (\<lparr>bd_data = ''ell'', bd_end = None\<rparr>,
                \<lparr>oi_Key = ''dev/p1'', oi_Size = 5, oi_ETag = [], oi_LastModified = 0\<rparr>)"
proof -
  have u: "uploadable small_local calm [(tmpDir, Dir [])] ''dev/p1'' \<lparr>bd_data = ''hello'', bd_end = None\<rparr> 5"
    and c: "Cut ''dev/p1'' CHR ''/'' = (''dev'', ''p1'', True)"
    and n: "fs_node [(tmpDir, Dir [])] ''dev'' ''p1'' = None"
    and h: "hex_EncodeToString ''0123456789abcdef'' = ''30313233343536373839616263646566''"
    and t: "le_now calm = 0" "byte_range ''hello'' 1 3 = ''ell''"
    by code_simp+
  from local_put_then_read[OF calm_fault_free u c n calm_fault_free, of "\<lambda>_. ''0123456789abcdef''" False]
  show ?thesis by (auto simp: h t)
qed

subsection \<open>Sequences of operations\<close>

text \<open>
  Any sequence of calls on one root, each with an outside world of its own, successful or
  not, with the keys it was told to delete or overwrite; other openers of the same root
  may sweep in between.
\<close>

inductive local_run :: "(string \<Rightarrow> string) \<Rightarrow> local \<Rightarrow> fs \<Rightarrow> string list \<Rightarrow> fs \<Rightarrow> bool" for md5 l s where
  run_start: "local_run md5 l s [] s"
| run_put: "local_run md5 l s ks t \<Longrightarrow> local_Put md5 l e t key b sz ow = (r, eof, u) \<Longrightarrow>
    local_run md5 l s (if ow then key # ks else ks) u"
| run_delete: "local_run md5 l s ks t \<Longrightarrow> local_Delete e t key = (r, u) \<Longrightarrow> local_run md5 l s (key # ks) u"
| run_open: "local_run md5 l s ks t \<Longrightarrow> NewLocal ne dir mx t = Inr (l', u) \<Longrightarrow> local_run md5 l s ks u"

lemma fold_del:
  "fs_node (fold (\<lambda>x t. fs_del t d (fst x)) xs s) d' n =
     (if d' = d \<and> n \<in> fst ` set xs then None else fs_node s d' n)"
  by (induction xs arbitrary: s) (auto simp: fs_node_del)

lemma fold_del_wf: "fs_wf s \<Longrightarrow> fs_wf (fold (\<lambda>x t. fs_del t d (fst x)) xs s)"
  by (induction xs arbitrary: s) (auto simp: fs_wf_del)

lemma sweepTemp_frame: "tmp_only s (snd (sweepTemp e s))" "fs_wf s \<Longrightarrow> fs_wf (snd (sweepTemp e s))"
  by (auto simp: sweepTemp_def tmp_only_def fold_del intro: fold_del_wf split: sum.split)

lemma tmpDir_proper: "proper_name tmpDir"
  by code_simp

lemma tmpDir_valid: "ValidString tmpDir"
  by code_simp

lemma NewLocal_Inr:
  assumes "NewLocal e dir mx s = Inr (l, s')"
  obtains s1 where "fs_mkdir s tmpDir = Inr s1" "s' = snd (sweepTemp e s1)"
    "l_maxSize l = (if mx \<le> 0 then DefaultMaxObjectSize else nat mx)"
  using assms by (auto simp: NewLocal_def Let_def split: if_splits sum.splits)

lemma NewLocal_frame:
  assumes "NewLocal e dir mx s = Inr (l, s')"
  shows "local_objs s' = local_objs s" and "fs_wf s \<Longrightarrow> fs_wf s'"
proof -
  from assms obtain s1 where s1: "fs_mkdir s tmpDir = Inr s1" "s' = snd (sweepTemp e s1)"
    by (rule NewLocal_Inr)
  show "local_objs s' = local_objs s"
    using tmp_only_objs[OF tmp_only_mkdir[OF s1(1)]] tmp_only_objs[OF sweepTemp_frame(1)] s1(2) by simp
  show "fs_wf s \<Longrightarrow> fs_wf s'"
    using fs_wf_mkdir[OF _ tmpDir_proper s1(1)] sweepTemp_frame(2) s1(2) by simp
qed

lemma local_run_inv:
  "local_run md5 l s ks t \<Longrightarrow> fs_wf s \<Longrightarrow> fs_wf t \<and> (\<forall>k. k \<notin> set ks \<longrightarrow> local_objs s k \<noteq> None \<longrightarrow> local_objs t k = local_objs s k)"
proof (induction rule: local_run.induct)
  case (run_put ks t e key b sz ow r eof u)
  have c: "fs_wf u \<and> (local_objs u = local_objs t \<or> (ow \<or> local_objs t key = None) \<and> bd_end b = None \<and> local_objs u = (local_objs t)(key \<mapsto> bd_data b))"
    using lo.put_cases[of t md5 l e key b sz ow r eof u] run_put by (simp add: local_ops_def)
  with run_put.IH[OF run_put.prems] show ?case by (cases ow) auto
next
  case (run_delete ks t e key r u)
  have "fs_wf u \<and> (local_objs u = local_objs t \<or> local_objs u = (local_objs t)(key := None))"
    using lo.delete_cases[of t md5 l e key r u] run_delete by (simp add: local_ops_def)
  with run_delete.IH[OF run_delete.prems] show ?case by auto
next
  case (run_open ks t ne dir mx l' u)
  with NewLocal_frame[OF run_open(2)] show ?case by simp
qed simp

text \<open>
  C20. The append-only rule of the disk backend. Whatever sequence of uploads, deletions and
  sweeps runs against a root, with whatever failures, an object whose key was neither
  deleted nor overwritten is still there with the same bytes, and every read of it that
  ends without an error returns exactly the requested range of those bytes.
\<close>

theorem local_append_only:
  assumes "fs_wf s" and "local_run md5 l s ks t" and "local_objs s k = Some v" and "k \<notin> set ks"
  shows "local_objs t k = Some v
    \<and> (\<forall>e off len b i. local_Get e t k off len = Inr (b, i) \<longrightarrow> bd_end b = None \<longrightarrow> bd_data b = byte_range v off len)"
proof -
  have "local_objs t k = Some v" using local_run_inv[OF assms(2,1)] assms(3,4) by simp
  with local_get_Inr[of _ t k] show ?thesis by fastforce
qed

definition one_object :: fs where
  "one_object = [(tmpDir, Dir []), (''dev'', Dir [(''p1'',
     \<lparr>ino_kind = Regular, ino_data = ''hello'', ino_mtime = 0, ino_etag = None\<rparr>)])]"

lemma one_object_wf: "fs_wf one_object"
  by (simp add: fs_wf_def one_object_def dir_wf_def proper_name_def relative_segment_def tmpDir_def)

lemma one_object_run:
  "local_run md5 small_local one_object [''dev/p2''] (snd (snd (local_Put md5 small_local calm
     (snd (local_Delete calm one_object ''dev/p2'')) ''dev/p1'' \<lparr>bd_data = ''other'', bd_end = None\<rparr> 5 False)))"
  using run_put[OF run_delete[OF run_start], of calm one_object "''dev/p2''", OF prod.collapse[symmetric],
      of md5 small_local calm "''dev/p1''" "\<lparr>bd_data = ''other'', bd_end = None\<rparr>" 5 False]
  by (metis prod.collapse)

theorem local_append_only_witness:
  "local_objs (snd (snd (local_Put (\<lambda>_. []) small_local calm
     (snd (local_Delete calm one_object ''dev/p2'')) ''dev/p1'' \<lparr>bd_data = ''other'', bd_end = None\<rparr> 5 False)))
     ''dev/p1'' = Some ''hello''"
  by (rule local_append_only[OF one_object_wf one_object_run, THEN conjunct1]) (code_simp, simp)

subsection \<open>The ETag cache\<close>

text \<open>The extended attribute of a file, where it has one, is the MD5 of the file's contents.\<close>

definition etags_ok :: "(string \<Rightarrow> string) \<Rightarrow> fs \<Rightarrow> bool" where
  "etags_ok md5 s \<longleftrightarrow> (\<forall>d n i x. fs_node s d n = Some i \<longrightarrow> ino_etag i = Some x \<longrightarrow>
     x = hex_EncodeToString (md5 (ino_data i)))"

lemma etags_ok_set:
  assumes "etags_ok md5 s" and "ino_etag i = None \<or> ino_etag i = Some (hex_EncodeToString (md5 (ino_data i)))"
  shows "etags_ok md5 (fs_set s d n i)"
proof (cases "fs_dir s d")
  case None
  with assms show ?thesis by (simp add: fs_node_set_missing)
next
  case (Some es)
  with assms show ?thesis by (auto simp: etags_ok_def fs_node_set split: if_splits)
qed

lemma etags_ok_del: "etags_ok md5 s \<Longrightarrow> etags_ok md5 (fs_del s d n)"
  by (auto simp: etags_ok_def fs_node_del split: if_splits)

lemma etags_ok_mkdir: "etags_ok md5 s \<Longrightarrow> fs_mkdir s d = Inr s' \<Longrightarrow> etags_ok md5 s'"
  by (simp add: etags_ok_def fs_mkdir_node)

lemma etags_ok_remove_temp: "etags_ok md5 s \<Longrightarrow> etags_ok md5 (remove_temp e tmp s)"
  by (simp add: remove_temp_def etags_ok_del)

lemma etags_ok_node:
  "etags_ok md5 s \<Longrightarrow> fs_node s d n = Some i \<Longrightarrow>
   ino_etag i = None \<or> ino_etag i = Some (hex_EncodeToString (md5 (ino_data i)))"
  by (cases "ino_etag i") (auto simp: etags_ok_def)

lemma etags_ok_store_temp:
  "etags_ok md5 s \<Longrightarrow> store_temp e ow tmp dst s = Inr s' \<Longrightarrow> etags_ok md5 s'"
  by (auto simp: store_temp_def fs_rename_def fs_link_def split: option.splits if_splits
      intro!: etags_ok_set etags_ok_del dest: etags_ok_node)

lemma etags_ok_createTemp: "etags_ok md5 s \<Longrightarrow> createTemp e s = Some (tmp, s') \<Longrightarrow> etags_ok md5 s'"
  by (auto simp: createTemp_def intro!: etags_ok_set split: if_splits)

lemma etags_ok_writeTemp:
  "etags_ok md5 s \<Longrightarrow> writeTemp md5 e tmp b sz mx s = (r, eof, s') \<Longrightarrow> etags_ok md5 s'"
  by (auto simp: writeTemp_def write_file_def Let_def intro!: etags_ok_set split: option.splits if_splits prod.splits)

text \<open>The states a Put can end in.\<close>

lemma local_Put_final:
  assumes "local_Put md5 l e s key b sz ow = (r, eof, s')" and "createTemp e s = Some (tmp, s1)"
    and "writeTemp md5 e tmp b sz (int (l_maxSize l)) s1 = (w, eof', s2)"
    and "Cut key CHR ''/'' = (device, name, f)"
  shows "s' = s \<or> s' = remove_temp e tmp s2
    \<or> (\<exists>s3. fs_mkdir s2 device = Inr s3 \<and> (s' = remove_temp e tmp s3
        \<or> (\<exists>s4. store_temp e ow tmp (device, name) s3 = Inr s4 \<and> s' = remove_temp e tmp s4)))"
  using assms
  by (cases w) (auto simp: local_Put_def split: option.splits if_splits sum.splits)

lemma etags_ok_Put:
  assumes "etags_ok md5 s" and "local_Put md5 l e s key b sz ow = (r, eof, s')"
  shows "etags_ok md5 s'"
proof (cases "createTemp e s")
  case None
  with assms show ?thesis by (auto simp: local_Put_def split: option.splits if_splits)
next
  case (Some ts)
  obtain tmp s1 where t: "createTemp e s = Some (tmp, s1)" using Some by (cases ts) simp
  obtain w eof' s2 where w: "writeTemp md5 e tmp b sz (int (l_maxSize l)) s1 = (w, eof', s2)"
    by (metis prod_cases3)
  obtain device name f where c: "Cut key CHR ''/'' = (device, name, f)" by (metis prod_cases3)
  have "etags_ok md5 s2" using etags_ok_writeTemp[OF etags_ok_createTemp[OF assms(1) t] w] .
  with local_Put_final[OF assms(2) t w c] assms(1) show ?thesis
    by (auto intro!: etags_ok_remove_temp dest: etags_ok_mkdir etags_ok_store_temp)
qed

lemma etags_ok_Delete: "etags_ok md5 s \<Longrightarrow> local_Delete e s key = (r, s') \<Longrightarrow> etags_ok md5 s'"
  by (auto simp: local_Delete_def intro: etags_ok_del split: option.splits if_splits prod.splits sum.splits)

lemma etags_ok_sweepTemp: "etags_ok md5 s \<Longrightarrow> etags_ok md5 (snd (sweepTemp e s))"
  by (auto simp: sweepTemp_def etags_ok_def fold_del split: sum.splits if_splits)

lemma etags_ok_run: "local_run md5 l s ks t \<Longrightarrow> etags_ok md5 s \<Longrightarrow> etags_ok md5 t"
proof (induction rule: local_run.induct)
  case (run_open ks t ne dir mx l' u)
  from run_open(2) obtain s1 where "fs_mkdir t tmpDir = Inr s1" "u = snd (sweepTemp ne s1)"
    by (rule NewLocal_Inr)
  with run_open show ?case by (auto intro: etags_ok_sweepTemp etags_ok_mkdir)
qed (auto intro: etags_ok_Put etags_ok_Delete)

text \<open>
  C34. Head never reports a wrong checksum. From a root whose extended attributes are
  right, after any sequence of operations, a Head that succeeds reports the MD5 of the
  bytes the object holds, whether it took it from the attribute or hashed the object.
\<close>

theorem local_Head_checksum:
  assumes "etags_ok md5 s" and "local_run md5 l s ks t" and "local_Head md5 e t k = Inr i"
  shows "\<exists>v. local_objs t k = Some v \<and> oi_ETag i = hex_EncodeToString (md5 v) \<and> oi_Size i = int (length v)"
proof -
  from assms(3) obtain st where st: "local_open e t k = Inr st"
    by (cases "local_open e t k") (auto simp: local_Head_def split: if_splits)
  from local_open_Inr[OF st] obtain d n where o: "local_objs t k = Some (ino_data st)" "fs_node t d n = Some st"
    by blast
  from etags_ok_run[OF assms(2,1)] o(2)
  have "ino_etag st = None \<or> ino_etag st = Some (hex_EncodeToString (md5 (ino_data st)))"
    by (rule etags_ok_node)
  with assms(3) st o(1) show ?thesis
    by (auto simp: local_Head_def Let_def split: if_splits option.splits)
qed

theorem local_Head_checksum_witness:
  "\<exists>v. local_objs one_object ''dev/p1'' = Some v \<and> ''6869'' = hex_EncodeToString ((\<lambda>_. ''hi'') v)"
proof -
  have e: "etags_ok (\<lambda>_. ''hi'') one_object"
    by (simp add: etags_ok_def one_object_def fs_node_def fs_dir_def split: if_splits option.splits)
  have h: "local_Head (\<lambda>_. ''hi'') calm one_object ''dev/p1'' =
      Inr \<lparr>oi_Key = ''dev/p1'', oi_Size = 5, oi_ETag = ''6869'', oi_LastModified = 0\<rparr>"
    by code_simp
  from local_Head_checksum[OF e run_start[of _ small_local] h] show ?thesis by auto
qed

subsection \<open>Opening a root\<close>

text \<open>
  Opening a root never loses data: every object stays as it was, every staged file
  younger than an hour stays, and so does every entry whose age cannot be read; without
  failures every older staged file is gone. The object size limit of the opened store is
  positive.
\<close>

theorem NewLocal_sweeps_stale_only:
  assumes "fs_wf s" and "NewLocal e dir mx s = Inr (l, s')"
  shows "fs_wf s' \<and> local_objs s' = local_objs s \<and> 0 < l_maxSize l
    \<and> (\<forall>n i. fs_node s tmpDir n = Some i \<longrightarrow> (ne_info_err e n \<or> ino_mtime i > ne_now e - tempSweepAge) \<longrightarrow>
          fs_node s' tmpDir n = Some i)
    \<and> (\<forall>n i. fs_node s tmpDir n = Some i \<longrightarrow> \<not> ne_readdir_err e \<longrightarrow> \<not> ne_info_err e n \<longrightarrow> \<not> ne_rm_err e n \<longrightarrow>
          ino_mtime i \<le> ne_now e - tempSweepAge \<longrightarrow> fs_node s' tmpDir n = None)"
proof -
  from assms(2) obtain s1 where s1: "fs_mkdir s tmpDir = Inr s1" "s' = snd (sweepTemp e s1)"
    "l_maxSize l = (if mx \<le> 0 then DefaultMaxObjectSize else nat mx)"
    by (rule NewLocal_Inr)
  have same: "fs_node s1 tmpDir n = fs_node s tmpDir n" for n by (rule fs_mkdir_node[OF s1(1)])
  obtain es where es: "fs_dir s1 tmpDir = Some es" using fs_mkdir_dir[OF s1(1)] by auto
  have wf: "dir_wf es" using fs_wf_mkdir[OF assms(1) tmpDir_proper s1(1)] es by (auto dest: fs_dir_wf)
  have rd: "fs_readdir s1 tmpDir = Inr (sort_key fst es)"
    using es tmpDir_valid by (auto simp: fs_readdir_def fs_dir_def split: option.splits rootent.splits)
  have node: "fs_node s tmpDir n = Some i \<longleftrightarrow> (n, i) \<in> set es" for n i
    using same[of n] es wf by (auto simp: fs_node_def dir_wf_def)
  have swept: "n \<in> fst ` set (filter (swept e) (sort_key fst es)) \<longleftrightarrow> swept e (n, i)" if "(n, i) \<in> set es" for n i
    using that wf by (auto simp: dir_wf_def dest: eq_key_imp_eq_value intro!: image_eqI[of _ _ "(n, i)"])
  have s': "fs_node s' tmpDir n = (if \<not> ne_readdir_err e \<and> n \<in> fst ` set (filter (swept e) (sort_key fst es))
      then None else fs_node s1 tmpDir n)" for n
    using rd s1(2) by (simp add: sweepTemp_def fold_del)
  have "fs_node s' tmpDir n = (if \<not> ne_readdir_err e \<and> swept e (n, i) then None else Some i)"
    if "fs_node s tmpDir n = Some i" for n i
    using that node[of n i] swept[of n i] s'[of n] same[of n] by simp
  moreover have "0 < l_maxSize l" using s1(3) by (simp add: DefaultMaxObjectSize_def)
  ultimately show ?thesis using NewLocal_frame[OF assms(2)] assms(1) by (auto simp: swept_def)
qed

definition open_env :: newlocal_env where
  "open_env = \<lparr>ne_mkdir_err = False, ne_chmod_err = False, ne_open_err = False, ne_tmp_err = False,
     ne_now = 2 * hour, ne_readdir_err = False, ne_info_err = (\<lambda>_. False), ne_rm_err = (\<lambda>_. False)\<rparr>"

definition staged :: fs where
  "staged = [(tmpDir, Dir [(''OLD'', \<lparr>ino_kind = Regular, ino_data = ''x'', ino_mtime = 0, ino_etag = None\<rparr>),
     (''NEW'', \<lparr>ino_kind = Regular, ino_data = ''y'', ino_mtime = 2 * hour, ino_etag = None\<rparr>)])]"

theorem NewLocal_sweeps_stale_only_witness:
  "\<exists>l s'. NewLocal open_env ''/srv'' 0 staged = Inr (l, s') \<and> fs_node s' tmpDir ''OLD'' = None
     \<and> fs_node s' tmpDir ''NEW'' = fs_node staged tmpDir ''NEW''"
proof -
  have wf: "fs_wf staged"
    by (simp add: fs_wf_def staged_def dir_wf_def proper_name_def relative_segment_def tmpDir_def)
  obtain l s' where n: "NewLocal open_env ''/srv'' 0 staged = Inr (l, s')"
    by (cases "NewLocal open_env ''/srv'' 0 staged") (auto simp: NewLocal_def open_env_def staged_def fs_mkdir_def Let_def)
  have "fs_node staged tmpDir ''OLD'' = Some \<lparr>ino_kind = Regular, ino_data = ''x'', ino_mtime = 0, ino_etag = None\<rparr>"
    "fs_node staged tmpDir ''NEW'' = Some \<lparr>ino_kind = Regular, ino_data = ''y'', ino_mtime = 2 * hour, ino_etag = None\<rparr>"
    by code_simp+
  then show ?thesis
    using NewLocal_sweeps_stale_only[OF wf n] n
    by (simp add: open_env_def tempSweepAge_def duration_defs)
qed

end
