(* ===== verification/Gateway_Correct.thy ===== *)
theory Gateway_Correct
  imports Gateway SigV4_Correct Local_Correct
begin

section \<open>Correctness of the gateway\<close>

text \<open>
  What the handler guarantees over any array of stores that keeps the ObjectStore
  contract, proved once in the locale \<open>gateway_stores\<close> and read off for the disk backend:
  the append-only rule, confinement to the device's prefix, and that nothing but an
  authenticated request reaches a store.
\<close>

subsection \<open>Refusals\<close>

text \<open>A response that carries nothing of a store: an error status and at most an error document.\<close>

definition refusal :: "response \<Rightarrow> bool" where
  "refusal rs \<longleftrightarrow> 400 \<le> rs_status rs \<and> (case rs_body rs of NoBody \<Rightarrow> True | ErrorDoc _ _ _ \<Rightarrow> True | _ \<Rightarrow> False)"

named_theorems refuse

lemma refusal_writeError [refuse]: "400 \<le> st \<Longrightarrow> refusal (writeError r st code msg)"
  by (simp add: refusal_def writeError_def writeXML_def)

lemma refusal_NotImplemented [refuse]: "refusal (writeNotImplemented r msg)"
  by (simp add: writeNotImplemented_def refuse)

lemma refusal_SlowDown [refuse]: "refusal (writeSlowDown r)"
  by (simp add: refusal_def writeSlowDown_def writeError_def writeXML_def)

lemma refusal_StoreError [refuse]: "refusal (writeStoreError r err)"
  by (simp add: writeStoreError_def refuse)

lemma refusal_RangeError [refuse]: "refusal (writeRangeError r err)"
  by (cases err) (simp_all add: writeRangeError_def refuse)

lemma refusal_put_error [refuse]: "refusal (put_error r err)"
  by (simp add: put_error_def refuse)

lemma refusal_store_refused [refuse]: "refusal (store_refused r err)"
  by (cases err) (simp_all add: store_refused_def refuse)

lemma refusal_refuse_request [refuse]: "refuse_request r q = Some rs \<Longrightarrow> refusal rs"
  by (auto simp: refuse_request_def refuse split: if_splits)

lemma refusal_mapAuthError [refuse]: "mapAuthError err = (st, code) \<Longrightarrow> refusal (writeError r st code msg)"
  by (rule refusal_writeError) (cases err; auto simp: mapAuthError_def)

subsection \<open>Who is served\<close>

text \<open>The object key a request path names, where its bucket is the gateway's.\<close>

definition request_key :: "('e, 's) Gateway \<Rightarrow> request \<Rightarrow> string option" where
  "request_key g r = (case Cut (TrimPrefix (rq_Path r) ''/'') (CHR ''/'') of (bucket, key, found) \<Rightarrow>
     if bucket = g_bucket g then Some key else None)"

text \<open>
  The request carries a valid signature under a device key that resolves to this agent, as
  the gateway's own Verify decides it.
\<close>

definition authentic :: "('e, 's) Gateway \<Rightarrow> request \<Rightarrow> 'e gw_env \<Rightarrow> 's gw_state \<Rightarrow> string \<Rightarrow> bool \<Rightarrow> bool" where
  "authentic g r ev w agentID readOnly \<longleftrightarrow> (\<exists>key akid keys.
     request_key g r = Some key
     \<and> Verify (g_crypto g) r (sign_region g r key) ''s3''
         (gw_look g (ge_now_lookup ev) (ge_db_err ev) (gs_db w)) (ge_now_verify ev) (gs_keys w, [], [], False)
       = (Inr akid, keys, agentID, agentID @ ''/'', readOnly))"

lemma gw_look_Some:
  assumes "gw_look g now db_err db akid st = (Some secret, keys, agentID, devPrefix, readOnly)"
  shows "devPrefix = agentID @ ''/'' \<and> checkKey (devPrefix @ ''x'') = None"
  using assms by (auto simp: gw_look_def split: prod.splits option.splits if_splits)

lemma Verify_identity:
  assumes "Verify cr r region ''s3'' (gw_look g now db_err db) now' st = (Inr akid, keys, agentID, devPrefix, readOnly)"
  shows "devPrefix = agentID @ ''/''"
  by (rule Verify_cases[OF assms]) (use gw_look_Some in blast)

text \<open>
  Every request is either refused with the stores untouched, or authentic and served by the
  bucket or the object handler over its own target's store.
\<close>

lemma serve_verified_cases:
  assumes "serve_verified g r key ev (agentID, devPrefix, readOnly) lg w = (rs, lg', w')"
  obtains (refused) "gs_stores w' = gs_stores w" "refusal rs"
  | (bucket) t query where "g_storeFor g agentID = Inr t" "ParseQuery (rq_RawQuery r) = Some query" "key = []"
      "gs_stores w' = gs_stores w"
      "rs = fst (serveBucket g r query (g_ops g t) (ge_op ev) (gs_stores w t) devPrefix lg)"
  | (object) t query s' where "g_storeFor g agentID = Inr t" "ParseQuery (rq_RawQuery r) = Some query" "key \<noteq> []"
      "serve_object g r query (g_ops g t) ev (gs_stores w t) key (agentID, devPrefix, readOnly) lg = (rs, lg', s')"
      "gs_stores w' = (gs_stores w)(t := s')"
proof -
  obtain admit l where a: "allow agentID (ge_now_limit ev) (gs_limit w) = (admit, l)" by (rule prod.exhaust)
  note v = assms[unfolded serve_verified_def prod.case a Let_def]
  show ?thesis
  proof (cases "admit \<and> (\<exists>query t. ParseQuery (rq_RawQuery r) = Some query \<and> refuse_request r query = None
                  \<and> g_storeFor g agentID = Inr t)")
    case False
    then have "gs_stores w' = gs_stores w \<and> refusal rs"
      using v by (auto simp: refuse split: if_splits option.splits sum.splits)
    with refused show ?thesis by blast
  next
    case True
    then obtain query t where q: "admit" "ParseQuery (rq_RawQuery r) = Some query" "refuse_request r query = None"
      "g_storeFor g agentID = Inr t" by blast
    note v' = v[unfolded q(2,3,4) option.case sum.case]
    show ?thesis
    proof (cases "key = []")
      case True
      with v' q(1) bucket[OF q(4,2)] show ?thesis by (auto split: prod.splits)
    next
      case False
      with v' q(1) object[OF q(4,2)] show ?thesis by (auto split: prod.splits)
    qed
  qed
qed

lemma ServeHTTP_cases:
  assumes "ServeHTTP g (r, ev) w = (rs, lg, w')"
  obtains (refused) "gs_stores w' = gs_stores w" "refusal rs"
  | (bucket) agentID readOnly t query lg0 where "authentic g r ev w agentID readOnly" "request_key g r = Some []"
      "g_storeFor g agentID = Inr t" "ParseQuery (rq_RawQuery r) = Some query" "gs_stores w' = gs_stores w"
      "rs = fst (serveBucket g r query (g_ops g t) (ge_op ev) (gs_stores w t) (agentID @ ''/'') lg0)"
  | (object) agentID readOnly t query key lg0 lg1 s' where "authentic g r ev w agentID readOnly"
      "request_key g r = Some key" "g_storeFor g agentID = Inr t" "ParseQuery (rq_RawQuery r) = Some query"
      "serve_object g r query (g_ops g t) ev (gs_stores w t) key (agentID, agentID @ ''/'', readOnly) lg0 = (rs, lg1, s')"
      "gs_stores w' = (gs_stores w)(t := s')"
proof -
  obtain lg0 lg1 where s: "serve g r ev lg0 w = (rs, lg1, w')"
    using assms by (auto simp: ServeHTTP_def split: prod.splits)
  obtain b key f where c: "Cut (TrimPrefix (rq_Path r) ''/'') (CHR ''/'') = (b, key, f)" by (rule prod_cases3)
  obtain admit l where a: "allow (ClientIP r (g_trusted g)) (ge_now_ip ev) (gs_ipLimit w) = (admit, l)"
    by (rule prod.exhaust)
  obtain res keys agentID devPrefix readOnly where v: "Verify (g_crypto g) r (sign_region g r key) ''s3''
      (gw_look g (ge_now_lookup ev) (ge_db_err ev) (gs_db w)) (ge_now_verify ev) (gs_keys w, [], [], False)
      = (res, keys, agentID, devPrefix, readOnly)"
    by (metis prod_cases5)
  note s' = s[unfolded serve_def c prod.case a Let_def v]
  show ?thesis
  proof (cases "b = g_bucket g \<and> admit \<and> header_Get r ''Authorization'' \<noteq> [] \<and> (\<exists>akid. res = Inr akid)")
    case False
    then have "gs_stores w' = gs_stores w \<and> refusal rs"
      using s' by (auto simp: refuse split: if_splits sum.splits prod.splits)
    with refused show ?thesis by blast
  next
    case True
    then obtain akid where k: "b = g_bucket g" "admit" "header_Get r ''Authorization'' \<noteq> []" "res = Inr akid" by blast
    have rk: "request_key g r = Some key" using c k(1) by (simp add: request_key_def)
    have dp: "devPrefix = agentID @ ''/''" using Verify_identity v k(4) by blast
    have au: "authentic g r ev w agentID readOnly"
      unfolding authentic_def using rk v[unfolded k(4) dp] by blast
    obtain lg2 w2 where sv: "serve_verified g r key ev (agentID, devPrefix, readOnly) lg2 w2 = (rs, lg1, w')"
        "gs_stores w2 = gs_stores w"
      using s' k by auto
    from sv(1) show ?thesis
    proof (cases rule: serve_verified_cases)
      case refused
      with that(1) sv(2) show ?thesis by simp
    next
      case (bucket t query)
      with that(2)[OF au] rk sv(2) dp show ?thesis by simp
    next
      case (object t query s2)
      with that(3)[OF au rk] sv(2) dp show ?thesis by simp
    qed
  qed
qed

subsection \<open>The abstract gateway\<close>

text \<open>
  What one request of a device may do to its target's objects: nothing, create an object
  under its own prefix that did not exist, or delete one of its own session markers. A
  read-only key does nothing.
\<close>

inductive device_step :: "string \<Rightarrow> bool \<Rightarrow> (string \<Rightarrow> string option) \<Rightarrow> (string \<Rightarrow> string option) \<Rightarrow> bool"
  for agentID readOnly where
  step_none: "device_step agentID readOnly m m"
| step_create: "\<not> readOnly \<Longrightarrow> checkKey (agentID @ ''/'' @ n) = None \<Longrightarrow> m (agentID @ ''/'' @ n) = None \<Longrightarrow>
    device_step agentID readOnly m (m(agentID @ ''/'' @ n \<mapsto> v))"
| step_unmark: "\<not> readOnly \<Longrightarrow> allowDelete n \<Longrightarrow>
    device_step agentID readOnly m (m(agentID @ ''/'' @ n := None))"

inductive_cases device_step_cases: "device_step agentID readOnly m m'"

lemma device_step_readOnly: "device_step agentID True m m' \<Longrightarrow> m' = m"
  by (erule device_step_cases) auto

lemma device_step_frame: "device_step agentID readOnly m m' \<Longrightarrow> \<not> HasPrefix k (agentID @ ''/'') \<Longrightarrow> m' k = m k"
  by (erule device_step_cases) (auto simp: HasPrefix_iff)

text \<open>The blob names that may disappear, as part of a full key.\<close>

definition session_marker :: "string \<Rightarrow> bool" where
  "session_marker k \<longleftrightarrow> (case Cut k (CHR ''/'') of (d, n, found) \<Rightarrow> found \<and> allowDelete n)"

lemma Cut_first: "c \<notin> set a \<Longrightarrow> Cut (a @ c # b) c = (a, b, True)"
  by (induction a) auto

lemma device_step_keeps:
  assumes "device_step agentID readOnly m m'" and "CHR ''/'' \<notin> set agentID"
    and "m k = Some v" and "\<not> session_marker k"
  shows "m' k = Some v"
  using assms by (elim device_step_cases) (auto simp: session_marker_def Cut_first)

lemma checkKey_one_slash:
  assumes "checkKey (a @ ''/'' @ n) = None"
  shows "CHR ''/'' \<notin> set a \<and> CHR ''/'' \<notin> set n"
proof -
  from assms obtain d m where s: "a @ ''/'' @ n = d @ CHR ''/'' # m" "proper_name d" "proper_name m"
    by (rule checkKey_split)
  from s(2,3) have "CHR ''/'' \<notin> set d" "CHR ''/'' \<notin> set m" by (simp_all add: proper_name_def)
  with arg_cong[OF s(1), of "count_list"] have "count_list (a @ ''/'' @ n) CHR ''/'' = 1"
    by (simp add: s(1))
  then show ?thesis by (simp add: count_list_0_iff)
qed

lemma authentic_agent:
  assumes "authentic g r ev w agentID readOnly"
  shows "CHR ''/'' \<notin> set agentID"
proof -
  from assms obtain key akid keys where v: "Verify (g_crypto g) r (sign_region g r key) ''s3''
      (gw_look g (ge_now_lookup ev) (ge_db_err ev) (gs_db w)) (ge_now_verify ev) (gs_keys w, [], [], False)
       = (Inr akid, keys, agentID, agentID @ ''/'', readOnly)"
    by (auto simp: authentic_def)
  have "checkKey (agentID @ ''/'' @ ''x'') = None"
    by (rule Verify_cases[OF v]) (use gw_look_Some in fastforce)
  then show ?thesis using checkKey_one_slash by blast
qed

lemma gw_list_ListDoc:
  assumes "rs_body (gw_list g r query st e s devPrefix) = ListDoc d"
  shows "\<exists>after0 os nxt tr. (if query_Get query ''continuation-token'' \<noteq> []
        then decodeToken (query_Get query ''continuation-token'') devPrefix
        else Inr (query_Get query ''start-after'')) = Inr after0
    \<and> collect st e s (if HasPrefix (query_Get query ''prefix'') devPrefix then query_Get query ''prefix'' else devPrefix)
        (if after0 < (if HasPrefix (query_Get query ''prefix'') devPrefix then query_Get query ''prefix'' else devPrefix)
         then [] else after0) (list_maxKeys query) = Inr (os, nxt, tr)
    \<and> list_all (\<lambda>o1. HasPrefix (oi_Key o1) devPrefix) os
    \<and> lr_Contents d = map (list_entry (g_bucket g) (EqualFold (query_Get query ''encoding-type'') ''url'')
         (EqualFold (query_Get query ''fetch-owner'') ''true'')) os
    \<and> lr_IsTruncated d = tr \<and> lr_NextContinuationToken d = (if tr then encodeToken devPrefix nxt else [])"
proof -
  let ?p = "if HasPrefix (query_Get query ''prefix'') devPrefix then query_Get query ''prefix'' else devPrefix"
  have nr: "\<not> refusal (gw_list g r query st e s devPrefix)" using assms by (simp add: refusal_def)
  let ?t = "if query_Get query ''continuation-token'' \<noteq> []
        then decodeToken (query_Get query ''continuation-token'') devPrefix
        else Inr (query_Get query ''start-after'')"
  obtain after0 where a: "?t = Inr after0"
  proof (cases ?t)
    case (Inl err)
    have "refusal (gw_list g r query st e s devPrefix)"
      unfolding gw_list_def Let_def Inl sum.case by (rule refusal_writeError) simp
    with nr that show ?thesis by blast
  qed (rule that)
  let ?a = "if after0 < ?p then [] else after0"
  obtain os nxt tr where c: "collect st e s ?p ?a (list_maxKeys query) = Inr (os, nxt, tr)"
  proof (cases "collect st e s ?p ?a (list_maxKeys query)")
    case (Inl err)
    have "refusal (gw_list g r query st e s devPrefix)"
      unfolding gw_list_def Let_def a sum.case Inl by (rule refusal_StoreError)
    with nr that show ?thesis by blast
  next
    case (Inr x)
    then show ?thesis by (cases x) (rule that, simp only:)
  qed
  have l: "list_all (\<lambda>o1. HasPrefix (oi_Key o1) devPrefix) os"
  proof (rule ccontr)
    assume n: "\<not> ?thesis"
    have "refusal (gw_list g r query st e s devPrefix)"
      unfolding gw_list_def Let_def a sum.case c prod.case if_P[OF n] by (rule refusal_writeError) simp
    with nr show False by blast
  qed
  have nl: "\<not> \<not> list_all (\<lambda>o1. HasPrefix (oi_Key o1) devPrefix) os" using l by blast
  have body: "rs_body (writeXML 200 v) = v" for v by (simp add: writeXML_def)
  have "lr_Contents d = map (list_entry (g_bucket g) (EqualFold (query_Get query ''encoding-type'') ''url'')
        (EqualFold (query_Get query ''fetch-owner'') ''true'')) os"
      "lr_IsTruncated d = tr" "lr_NextContinuationToken d = (if tr then encodeToken devPrefix nxt else [])"
    using assms[unfolded gw_list_def Let_def a sum.case c prod.case if_not_P[OF nl] body rbody.inject]
    by (auto simp only: listBucketResult.simps)
  with a c l show ?thesis by blast
qed

text \<open>Only a GET of an object sends content.\<close>

definition content_free :: "response \<Rightarrow> bool" where
  "content_free rs \<longleftrightarrow> (\<forall>b. rs_body rs \<noteq> Content b)"

named_theorems free

lemma free_refusal: "refusal rs \<Longrightarrow> content_free rs"
  by (auto simp: refusal_def content_free_def)

lemma free_writers [free]: "content_free (writeError r st code msg)" "content_free (writeNotImplemented r msg)"
    "content_free (writeStoreError r err)" "content_free (put_error r perr)" "content_free (writeXML st (LocationDoc l))"
    "content_free (writeXML st (ListDoc d))" "content_free \<lparr>rs_status = st, rs_header = h, rs_body = NoBody\<rparr>"
  by (simp_all add: content_free_def writeError_def writeNotImplemented_def writeStoreError_def put_error_def writeXML_def)

lemma free_cases:
  "(\<And>a. content_free (f a)) \<Longrightarrow> (\<And>b. content_free (h b)) \<Longrightarrow> content_free (case x of Inl a \<Rightarrow> f a | Inr b \<Rightarrow> h b)"
  "(\<And>a b. content_free (k a b)) \<Longrightarrow> content_free (case y of (a, b) \<Rightarrow> k a b)"
  "content_free rs \<Longrightarrow> content_free rs' \<Longrightarrow> content_free (if c then rs else rs')"
  by (auto split: sum.split prod.split)

lemma free_put [free]: "gw_put g r st e s k ro = (rs, s') \<Longrightarrow> content_free rs"
  by (auto simp: gw_put_def free split: if_splits option.splits prod.splits sum.splits)

lemma free_delete [free]: "gw_delete r st e s k n ro = (rs, s') \<Longrightarrow> content_free rs"
  by (auto simp: gw_delete_def free split: if_splits prod.splits)

lemma free_head [free]: "content_free (gw_head r st e s k)"
  by (simp add: gw_head_def free split: sum.split)

lemma free_list [free]: "content_free (gw_list g r query st e s p)"
  unfolding gw_list_def Let_def by (intro free_cases free_writers)

lemma free_bucket [free]: "content_free (fst (serveBucket g r query st e s p lg))"
  by (simp add: serveBucket_def free)

lemma serve_object_no_list:
  assumes "serve_object g r query st ev s key ident lg = (rs, lg', s')"
  shows "\<not> (\<exists>d. rs_body rs = ListDoc d)"
proof -
  obtain a p ro where i: "ident = (a, p, ro)" by (rule prod_cases3)
  have no: "refusal x \<Longrightarrow> rs_body x \<noteq> ListDoc d" for x d by (auto simp: refusal_def)
  have put: "gw_put g r st e s k ro = (x, s') \<Longrightarrow> rs_body x \<noteq> ListDoc d" for e k x d
    by (auto simp: gw_put_def refuse no split: if_splits option.splits prod.splits sum.splits)
  have del: "gw_delete r st e s k n ro = (x, s') \<Longrightarrow> rs_body x \<noteq> ListDoc d" for e k n x d
    by (auto simp: gw_delete_def refuse no split: if_splits prod.splits)
  have get: "rs_body (gw_get r st eh e u k) \<noteq> ListDoc d" for eh e u k d
    by (simp add: gw_get_def Let_def no refuse split: sum.split)
  have head: "rs_body (gw_head r st e u k) \<noteq> ListDoc d" for e u k d
    by (simp add: gw_head_def no refuse split: sum.split)
  from assms show ?thesis
    unfolding serve_object_def i prod.case Let_def
    by (auto simp: no refuse get head dest: put del split: sum.splits if_splits prod.splits)
qed

subsection \<open>Over stores that keep their contract\<close>

locale gateway_stores =
  fixes g :: "('e, 's) Gateway"
    and inv :: "'s \<Rightarrow> bool"
    and objs :: "'s \<Rightarrow> string \<Rightarrow> string option"
    and raced :: "'e \<Rightarrow> string \<Rightarrow> bool"
  assumes contract: "\<And>t. object_store_contract (g_ops g t) inv objs raced"
begin

lemmas put_Inr = object_store_contract.put_Inr[OF contract]
  and put_cases = object_store_contract.put_cases[OF contract]
  and delete_cases = object_store_contract.delete_cases[OF contract]
  and get_Inr = object_store_contract.get_Inr[OF contract]
  and head_Inr = object_store_contract.head_Inr[OF contract]
  and list_sound = object_store_contract.list_sound[OF contract]
  and list_sorted = object_store_contract.list_sorted[OF contract]
  and list_complete = object_store_contract.list_complete[OF contract]

lemma gw_put_effect:
  assumes i: "inv s" and p: "gw_put g r (g_ops g t) e s k readOnly = (rs, s')"
  shows "inv s' \<and> (objs s' = objs s \<or> \<not> readOnly \<and> objs s k = None \<and> objs s' = (objs s)(k \<mapsto> bd_data (rq_Body r)))"
proof (cases "s' = s")
  case False
  with p obtain want res verified where
    "\<not> readOnly" "os_Put (g_ops g t) e s k (md5Check (g_md5 g) want (rq_Body r)) (rq_ContentLength r) False = (res, verified, s')"
    by (auto simp: gw_put_def deviceOverwrite_def split: if_splits option.splits prod.splits sum.splits)
  with put_cases[OF i, of t e k "md5Check (g_md5 g) want (rq_Body r)" "rq_ContentLength r" False res verified s']
  show ?thesis by (auto simp: md5Check_def split: if_splits)
qed (use i in simp)

lemma gw_delete_effect:
  assumes i: "inv s" and p: "gw_delete r (g_ops g t) e s k n readOnly = (rs, s')"
  shows "inv s' \<and> (objs s' = objs s \<or> \<not> readOnly \<and> allowDelete n \<and> objs s' = (objs s)(k := None))"
proof (cases "readOnly \<or> \<not> allowDelete n")
  case False
  obtain err s2 where d: "os_Delete (g_ops g t) e s k = (err, s2)" by (rule prod.exhaust)
  with p False have "s2 = s'" by (simp add: gw_delete_def)
  with delete_cases[OF i d] False show ?thesis by auto
qed (use i p in \<open>auto simp: gw_delete_def\<close>)

lemma serve_object_step:
  assumes i: "inv s"
    and p: "serve_object g r query (g_ops g t) ev s key (agentID, agentID @ ''/'', readOnly) lg = (rs, lg', s')"
  shows "inv s' \<and> device_step agentID readOnly (objs s) (objs s')"
proof (cases "NormalizeKey key (agentID @ ''/'')")
  case (Inl err)
  with i p show ?thesis by (auto simp: serve_object_def intro: step_none)
next
  case (Inr full)
  from NormalizeKey_Inr[OF this] have f: "full = key" "checkKey key = None" "HasPrefix key (agentID @ ''/'')" by auto
  then obtain n where n: "key = agentID @ ''/'' @ n" by (auto simp: HasPrefix_iff)
  have tr: "TrimPrefix key (agentID @ ''/'') = n" using n by (simp add: TrimPrefix_def HasPrefix_def)
  note p' = p[unfolded serve_object_def prod.case Inr sum.case f(1) tr Let_def]
  consider (put) "gw_put g r (g_ops g t) (ge_op ev) s key readOnly = (rs, s')"
    | (delete) "gw_delete r (g_ops g t) (ge_op ev) s key n readOnly = (rs, s')" | (same) "s' = s"
    using p' by (auto split: if_splits prod.splits)
  then show ?thesis
  proof cases
    case put
    from gw_put_effect[OF i put] f(2) step_create[of readOnly agentID n "objs s"] show ?thesis
      unfolding n by (auto intro: step_none)
  next
    case delete
    from gw_delete_effect[OF i delete] step_unmark[of readOnly n agentID "objs s"] show ?thesis
      unfolding n by (auto intro: step_none)
  next
    case same
    with i show ?thesis by (auto intro: step_none)
  qed
qed

text \<open>The stores' invariants, for the whole array.\<close>

lemma ServeHTTP_step:
  assumes i: "\<And>t. inv (gs_stores w t)" and p: "ServeHTTP g (r, ev) w = (rs, lg, w')"
  shows "(\<forall>t. inv (gs_stores w' t)) \<and> (gs_stores w' = gs_stores w \<or>
    (\<exists>agentID readOnly t. authentic g r ev w agentID readOnly \<and> g_storeFor g agentID = Inr t
       \<and> (\<forall>u. u \<noteq> t \<longrightarrow> gs_stores w' u = gs_stores w u)
       \<and> device_step agentID readOnly (objs (gs_stores w t)) (objs (gs_stores w' t))))"
  using p
proof (cases rule: ServeHTTP_cases)
  case (object agentID readOnly t query key lg0 lg1 s')
  from serve_object_step[OF i object(5)] object i show ?thesis by auto
qed (use i in auto)

lemma serve_all_keeps:
  assumes "\<And>t. inv (gs_stores w t)" and "objs (gs_stores w t) k = Some v" and "\<not> session_marker k"
  shows "(\<forall>t. inv (gs_stores (serve_all g qs w) t)) \<and> objs (gs_stores (serve_all g qs w) t) k = Some v"
  using assms
proof (induction qs arbitrary: w)
  case Nil
  then show ?case by (simp add: serve_all_def)
next
  case (Cons q qs)
  obtain r ev where q: "q = (r, ev)" by (cases q)
  obtain rs lg w1 where s: "ServeHTTP g (r, ev) w = (rs, lg, w1)" by (rule prod_cases3)
  note st = ServeHTTP_step[OF Cons.prems(1) s]
  have "objs (gs_stores w1 t) k = Some v"
    using st Cons.prems(2,3) device_step_keeps authentic_agent by (metis (no_types))
  with st Cons.IH[of w1] Cons.prems(3) show ?case by (simp add: serve_all_def q s)
qed

text \<open>A PUT that is acknowledged was stored, whole and with the digest the client announced.\<close>

lemma gw_put_acknowledged:
  assumes i: "inv s" and p: "gw_put g r (g_ops g t) e s k readOnly = (rs, s')" and ok: "rs_status rs = 200"
  shows "\<exists>want. StdEncoding_DecodeString (header_Get r ''Content-MD5'') = Some want
    \<and> g_md5 g (bd_data (rq_Body r)) = want \<and> bd_end (rq_Body r) = None
    \<and> int (length (bd_data (rq_Body r))) = rq_ContentLength r \<and> rq_ContentLength r \<le> g_maxBytes g
    \<and> \<not> readOnly \<and> objs s k = None \<and> objs s' = (objs s)(k \<mapsto> bd_data (rq_Body r))"
proof -
  have nr: "\<not> refusal rs" using ok by (simp add: refusal_def)
  have w: "\<not> readOnly" "\<not> rq_ContentLength r < 0" "\<not> rq_ContentLength r > g_maxBytes g"
    using p nr by (auto simp: gw_put_def refuse split: if_splits)
  note p1 = p[unfolded gw_put_def if_not_P[OF w(1)] if_not_P[OF w(2)] if_not_P[OF w(3)]]
  obtain want where d: "StdEncoding_DecodeString (header_Get r ''Content-MD5'') = Some want"
  proof (cases "StdEncoding_DecodeString (header_Get r ''Content-MD5'')")
    case None
    from p1[unfolded None option.case] have "refusal rs" by (auto intro: refusal_writeError)
    with nr show ?thesis by blast
  qed (rule that)
  obtain res verified s2 where o: "os_Put (g_ops g t) e s k (md5Check (g_md5 g) want (rq_Body r)) (rq_ContentLength r) False
      = (res, verified, s2)"
    by (rule prod_cases3)
  note p2 = p1[unfolded d option.case deviceOverwrite_def o prod.case]
  from p2 nr obtain info where r: "res = Inr info" "s2 = s'"
    by (cases res) (auto simp: refuse split: if_splits)
  from put_Inr[OF i o[unfolded r]] w d show ?thesis by (auto simp: md5Check_def split: if_splits)
qed

text \<open>What a GET sends is the requested range of the object, or a prefix of it.\<close>

lemma gw_get_content:
  assumes i: "inv s" and p: "rs_body (gw_get r (g_ops g t) eh e s k) = Content b"
  shows "\<exists>v off len ranged. objs s k = Some v
    \<and> parseRange (header_Get r ''Range'') (g_ops g t) eh s k = Inr (off, len, ranged)
    \<and> (\<exists>m. bd_data b = take m (byte_range v off len)) \<and> (bd_end b = None \<longrightarrow> bd_data b = byte_range v off len)"
proof -
  have nr: "\<not> refusal (gw_get r (g_ops g t) eh e s k)" using p by (simp add: refusal_def)
  obtain off len ranged where q: "parseRange (header_Get r ''Range'') (g_ops g t) eh s k = Inr (off, len, ranged)"
  proof (cases "parseRange (header_Get r ''Range'') (g_ops g t) eh s k")
    case (Inl err)
    have "refusal (gw_get r (g_ops g t) eh e s k)"
      unfolding gw_get_def Inl sum.case by (rule refusal_RangeError)
    with nr show ?thesis by blast
  next
    case (Inr x)
    then show ?thesis by (cases x) (rule that, simp only:)
  qed
  obtain b' info where g: "os_Get (g_ops g t) e s k off len = Inr (b', info)"
  proof (cases "os_Get (g_ops g t) e s k off len")
    case (Inl err)
    have "refusal (gw_get r (g_ops g t) eh e s k)"
      unfolding gw_get_def q sum.case prod.case Inl by (rule refusal_StoreError)
    with nr show ?thesis by blast
  next
    case (Inr x)
    then show ?thesis by (cases x) (rule that, simp only:)
  qed
  from p[unfolded gw_get_def q sum.case prod.case g Let_def if_distrib[of rs_body] response.simps if_cancel rbody.inject]
  have b: "b' = b" .
  show ?thesis
    by (rule exE[OF get_Inr[OF i g[unfolded b]]], elim conjE exE, intro exI conjI) (assumption | rule q)+
qed

lemma gw_list_confined:
  assumes i: "inv s" and p: "rs_body (gw_list g r query (g_ops g t) e s devPrefix) = ListDoc d" and en: "en \<in> set (lr_Contents d)"
  shows "\<exists>k v. en_Key en \<in> {k, urlEncodeName k} \<and> HasPrefix k devPrefix \<and> objs s k = Some v \<and> en_Size en = int (length v)"
proof -
  define pfx where "pfx = (if HasPrefix (query_Get query ''prefix'') devPrefix then query_Get query ''prefix'' else devPrefix)"
  from gw_list_ListDoc[OF p, folded pfx_def] obtain after os nxt tr b1 b2 where
    c: "collect (g_ops g t) e s pfx after (list_maxKeys query) = Inr (os, nxt, tr)"
    and a: "list_all (\<lambda>o1. HasPrefix (oi_Key o1) devPrefix) os"
    and d: "lr_Contents d = map (list_entry (g_bucket g) b1 b2) os"
    by blast
  from en d obtain o1 where o1: "o1 \<in> set os" "en = list_entry (g_bucket g) b1 b2 o1" by auto
  from c o1(1) obtain tr' where l: "os_List (g_ops g t) e s pfx after (list_maxKeys query) = Inr (os, tr')"
    by (auto simp: collect_def split: sum.splits if_splits prod.splits)
  from list_sound[OF i l o1(1)] a o1 show ?thesis by (auto simp: list_entry_def list_all_iff)
qed

lemma ServeHTTP_put_ok:
  assumes i: "\<And>t. inv (gs_stores w t)" and p: "ServeHTTP g (r, ev) w = (rs, lg, w')"
    and m: "rq_Method r = ''PUT''" and k: "request_key g r = Some key" "key \<noteq> []" and ok: "rs_status rs = 200"
  shows "\<exists>agentID t. authentic g r ev w agentID False \<and> g_storeFor g agentID = Inr t \<and> HasPrefix key (agentID @ ''/'')
    \<and> objs (gs_stores w t) key = None \<and> objs (gs_stores w' t) = (objs (gs_stores w t))(key \<mapsto> bd_data (rq_Body r))
    \<and> StdEncoding_DecodeString (header_Get r ''Content-MD5'') = Some (g_md5 g (bd_data (rq_Body r)))
    \<and> bd_end (rq_Body r) = None \<and> int (length (bd_data (rq_Body r))) = rq_ContentLength r
    \<and> rq_ContentLength r \<le> g_maxBytes g"
proof -
  have nr: "\<not> refusal rs" using ok by (simp add: refusal_def)
  from p show ?thesis
  proof (cases rule: ServeHTTP_cases)
    case refused
    with nr show ?thesis by simp
  next
    case bucket
    with k show ?thesis by simp
  next
    case (object agentID readOnly t query key' lg0 lg1 s')
    with k have key: "key' = key" by simp
    note o = object(5)[unfolded key serve_object_def prod.case]
    obtain full where n: "NormalizeKey key (agentID @ ''/'') = Inr full"
      using o nr by (cases "NormalizeKey key (agentID @ ''/'')") (auto intro: refusal_writeError split: if_splits)
    from NormalizeKey_Inr[OF n] have f: "full = key" "HasPrefix key (agentID @ ''/'')" by auto
    have "gw_put g r (g_ops g t) (ge_op ev) (gs_stores w t) key readOnly = (rs, s')"
      using o[unfolded n sum.case f(1) Let_def m] nr by (auto intro: refusal_NotImplemented split: if_splits prod.splits)
    from gw_put_acknowledged[OF i this ok] obtain want where g:
      "StdEncoding_DecodeString (header_Get r ''Content-MD5'') = Some want" "g_md5 g (bd_data (rq_Body r)) = want"
      "bd_end (rq_Body r) = None" "int (length (bd_data (rq_Body r))) = rq_ContentLength r"
      "rq_ContentLength r \<le> g_maxBytes g" "\<not> readOnly" "objs (gs_stores w t) key = None"
      "objs s' = (objs (gs_stores w t))(key \<mapsto> bd_data (rq_Body r))"
      by (elim exE conjE)
    show ?thesis
      using object(1,3,6) f(2) g by (intro exI[of _ agentID] exI[of _ t] conjI) simp_all
  qed
qed

text \<open>Nothing of a store leaves the gateway but the authentic agent's own objects.\<close>

lemma ServeHTTP_content:
  assumes i: "\<And>t. inv (gs_stores w t)" and p: "ServeHTTP g (r, ev) w = (rs, lg, w')" and c: "rs_body rs = Content b"
  shows "\<exists>agentID readOnly t key v off len ranged. authentic g r ev w agentID readOnly \<and> g_storeFor g agentID = Inr t
    \<and> request_key g r = Some key \<and> HasPrefix key (agentID @ ''/'') \<and> objs (gs_stores w t) key = Some v
    \<and> parseRange (header_Get r ''Range'') (g_ops g t) (ge_head ev) (gs_stores w t) key = Inr (off, len, ranged)
    \<and> (\<exists>m. bd_data b = take m (byte_range v off len)) \<and> (bd_end b = None \<longrightarrow> bd_data b = byte_range v off len)"
proof -
  have nr: "\<not> refusal rs" and nf: "\<not> content_free rs" using c by (simp_all add: refusal_def content_free_def)
  from p show ?thesis
  proof (cases rule: ServeHTTP_cases)
    case refused
    with nr show ?thesis by simp
  next
    case (bucket agentID readOnly t query lg0)
    then have "content_free rs" by (simp only: free)
    with c show ?thesis by (simp add: content_free_def)
  next
    case (object agentID readOnly t query key lg0 lg1 s')
    note o = object(5)[unfolded serve_object_def prod.case]
    obtain full where n: "NormalizeKey key (agentID @ ''/'') = Inr full"
      using o nr by (cases "NormalizeKey key (agentID @ ''/'')") (auto intro: refusal_writeError split: if_splits)
    from NormalizeKey_Inr[OF n] have f: "full = key" "HasPrefix key (agentID @ ''/'')" by auto
    have "rs = gw_get r (g_ops g t) (ge_head ev) (ge_op ev) (gs_stores w t) key"
      using o[unfolded n sum.case f(1) Let_def] nf by (auto simp: free dest: free_put free_delete split: if_splits prod.splits)
    with c have get: "rs_body (gw_get r (g_ops g t) (ge_head ev) (ge_op ev) (gs_stores w t) key) = Content b" by simp
    from gw_get_content[OF i get] obtain v off len ranged where v: "objs (gs_stores w t) key = Some v"
      "parseRange (header_Get r ''Range'') (g_ops g t) (ge_head ev) (gs_stores w t) key = Inr (off, len, ranged)"
      "\<exists>m. bd_data b = take m (byte_range v off len)" "bd_end b = None \<longrightarrow> bd_data b = byte_range v off len"
      by (elim exE conjE) (rule that, assumption, assumption, rule exI, assumption+)
    show ?thesis
      using object(1,2,3) f(2) v
      by - (rule exI[of _ agentID], rule exI[of _ readOnly], rule exI[of _ t], rule exI[of _ key],
          rule exI[of _ v], rule exI[of _ off], rule exI[of _ len], rule exI[of _ ranged], intro conjI)
  qed
qed

lemma ServeHTTP_list:
  assumes i: "\<And>t. inv (gs_stores w t)" and p: "ServeHTTP g (r, ev) w = (rs, lg, w')" and c: "rs_body rs = ListDoc d"
  shows "\<exists>agentID readOnly t. authentic g r ev w agentID readOnly \<and> g_storeFor g agentID = Inr t
    \<and> (\<forall>en \<in> set (lr_Contents d). \<exists>k v. en_Key en \<in> {k, urlEncodeName k} \<and> HasPrefix k (agentID @ ''/'')
         \<and> objs (gs_stores w t) k = Some v \<and> en_Size en = int (length v))"
proof -
  have nr: "\<not> refusal rs" using c by (simp add: refusal_def)
  from p show ?thesis
  proof (cases rule: ServeHTTP_cases)
    case refused
    with nr show ?thesis by simp
  next
    case (bucket agentID readOnly t query lg0)
    have "rs = gw_list g r query (g_ops g t) (ge_op ev) (gs_stores w t) (agentID @ ''/'')"
      using bucket(6) nr c by (auto simp: serveBucket_def refuse writeXML_def split: if_splits)
    with c have l: "rs_body (gw_list g r query (g_ops g t) (ge_op ev) (gs_stores w t) (agentID @ ''/'')) = ListDoc d" by simp
    show ?thesis
      by (rule exI[of _ agentID], rule exI[of _ readOnly], rule exI[of _ t])
        (intro conjI ballI bucket(1,3) gw_list_confined[OF i l])
  next
    case (object agentID readOnly t query key lg0 lg1 s')
    then have "\<not> (\<exists>d. rs_body rs = ListDoc d)" by (intro serve_object_no_list)
    with c show ?thesis by blast
  qed
qed

end

subsection \<open>The gateway over disk targets\<close>

definition disk_gateway :: "(string \<Rightarrow> string) \<Rightarrow> (nat \<Rightarrow> local) \<Rightarrow> (local_env, fs) Gateway \<Rightarrow> (local_env, fs) Gateway" where
  "disk_gateway md5 roots g = g\<lparr>g_md5 := md5, g_ops := (\<lambda>t. local_ops md5 (roots t))\<rparr>"

interpretation disk: gateway_stores "disk_gateway md5 roots g" fs_wf local_objs le_gone for md5 roots g
  by (rule gateway_stores.intro) (simp add: disk_gateway_def lo.object_store_contract_axioms)

text \<open>An example: one device, one key and one disk target that holds the object \<open>dev/p1\<close>.\<close>

definition toy_md5 :: "string \<Rightarrow> string" where "toy_md5 d = take 16 (d @ replicate 16 CHR ''0'')"

definition toy_gateway :: "(local_env, fs) Gateway" where
  "toy_gateway = disk_gateway toy_md5 (\<lambda>_. small_local)
     \<lparr>g_bucket = ''warphold'', g_region = ''warphold'', g_maxBytes = 16, g_trusted = [], g_crypto = toy_crypto,
      g_md5 = toy_md5, g_open_sealed = Some, g_storeFor = (\<lambda>a. if a = ''dev'' then Inr 0 else Inl ErrAccessDenied),
      g_ops = (\<lambda>t. local_ops toy_md5 small_local)\<rparr>"

definition toy_state :: "fs gw_state" where
  "toy_state = \<lparr>gs_keys = NewKeys,
     gs_db = [\<lparr>dk_AccessKeyID = ''AK'', dk_AgentID = ''dev'', dk_SealedSecret = ''secret'', dk_Prefix = ''dev/'',
       dk_ReadOnly = False, dk_CreatedAt = 0, dk_DisabledAt = None\<rparr>],
     gs_limit = newLimiter 0 0, gs_ipLimit = newIPLimiter 0 0, gs_stores = (\<lambda>_. one_object)\<rparr>"

definition toy_env :: "local_env gw_env" where
  "toy_env = (let t = 1709210096 * second in \<lparr>ge_now_ip = t, ge_now_verify = t, ge_now_lookup = t, ge_now_limit = t,
     ge_db_err = False, ge_op = calm, ge_head = calm\<rparr>)"

definition toy_request :: "string \<Rightarrow> string \<Rightarrow> request" where
  "toy_request m path = signed_request\<lparr>rq_Method := m, rq_Path := path, rq_RawQuery := [],
     rq_Header := rq_Header signed_request @ [(''Content-Md5'', [''aGVsbG8wMDAwMDAwMDAwMA=='']), (''Range'', [''bytes=1-3''])],
     rq_ContentLength := 5, rq_Body := \<lparr>bd_data = ''hello'', bd_end = None\<rparr>\<rparr>"

lemma toy_stores_wf: "fs_wf (gs_stores toy_state t)"
  by (simp add: toy_state_def one_object_wf)

lemma toy_object: "local_objs (gs_stores toy_state 0) ''dev/p1'' = Some ''hello''"
  by code_simp

lemma toy_put:
  "rs_status (fst (ServeHTTP toy_gateway (toy_request ''PUT'' ''/warphold/dev/p2'', toy_env) toy_state)) = 200"
  by code_simp

text \<open>
  C1. The gateway is append-only. After any sequence of requests, from any senders, with any
  failures of the file system below, every object that was in a target is still there with
  the same bytes, unless its name is a session marker: the letter s and at least sixteen
  lower-case hexadecimal digits.
\<close>

theorem gateway_append_only:
  assumes "\<And>t. fs_wf (gs_stores w t)" and "local_objs (gs_stores w t) k = Some v" and "\<not> session_marker k"
  shows "local_objs (gs_stores (serve_all (disk_gateway md5 roots g) qs w) t) k = Some v"
  using disk.serve_all_keeps[OF assms] by blast

theorem gateway_append_only_witness:
  "local_objs (gs_stores (serve_all toy_gateway
     [(toy_request ''PUT'' ''/warphold/dev/p1'', toy_env), (toy_request ''DELETE'' ''/warphold/dev/p1'', toy_env)] toy_state) 0)
     ''dev/p1'' = Some ''hello''"
  unfolding toy_gateway_def
  by (rule gateway_append_only[OF toy_stores_wf toy_object]) code_simp

text \<open>
  C2. One request refines one step of the abstract gateway. Either no store changes, or the
  request carries a valid signature under a key of some agent, only that agent's own target
  changes, and the change is a step the agent is allowed: an object created under the
  agent's prefix where none was, or one of its session markers deleted, and for a read-only
  key nothing. The objects of every other agent stay as they are.
\<close>

theorem gateway_step_refines:
  assumes "\<And>t. fs_wf (gs_stores w t)" and "ServeHTTP (disk_gateway md5 roots g) (r, ev) w = (rs, lg, w')"
  shows "gs_stores w' = gs_stores w \<or>
    (\<exists>agentID readOnly t. authentic (disk_gateway md5 roots g) r ev w agentID readOnly
       \<and> g_storeFor g agentID = Inr t
       \<and> device_step agentID readOnly (local_objs (gs_stores w t)) (local_objs (gs_stores w' t))
       \<and> (readOnly \<longrightarrow> local_objs (gs_stores w' t) = local_objs (gs_stores w t))
       \<and> (\<forall>k. \<not> HasPrefix k (agentID @ ''/'') \<longrightarrow> local_objs (gs_stores w' t) k = local_objs (gs_stores w t) k)
       \<and> (\<forall>u. u \<noteq> t \<longrightarrow> gs_stores w' u = gs_stores w u))"
proof -
  have sf: "g_storeFor (disk_gateway md5 roots g) = g_storeFor g" by (simp add: disk_gateway_def)
  from disk.ServeHTTP_step[OF assms, unfolded sf] consider (same) "gs_stores w' = gs_stores w"
    | (step) agentID readOnly t where "authentic (disk_gateway md5 roots g) r ev w agentID readOnly"
        "g_storeFor g agentID = Inr t" "\<forall>u. u \<noteq> t \<longrightarrow> gs_stores w' u = gs_stores w u"
        "device_step agentID readOnly (local_objs (gs_stores w t)) (local_objs (gs_stores w' t))"
    by (elim conjE disjE exE)
  then show ?thesis
  proof cases
    case same
    then show ?thesis by (rule disjI1)
  next
    case step
    have "readOnly \<longrightarrow> local_objs (gs_stores w' t) = local_objs (gs_stores w t)"
      using step(4) device_step_readOnly by (cases readOnly) simp_all
    with step device_step_frame[OF step(4)] show ?thesis
      by (intro disjI2 exI[of _ agentID] exI[of _ readOnly] exI[of _ t] conjI) simp_all
  qed
qed

lemma toy_put_stored:
  "local_objs (gs_stores (snd (snd (ServeHTTP toy_gateway (toy_request ''PUT'' ''/warphold/dev/p2'', toy_env) toy_state))) 0)
     ''dev/p2'' = Some ''hello''"
  "local_objs (gs_stores toy_state 0) ''dev/p2'' = None"
  by code_simp+

theorem gateway_step_refines_witness:
  "\<exists>agentID readOnly t. authentic toy_gateway (toy_request ''PUT'' ''/warphold/dev/p2'') toy_env toy_state agentID readOnly
     \<and> device_step agentID readOnly (local_objs (gs_stores toy_state t))
         (local_objs (gs_stores (snd (snd (ServeHTTP toy_gateway (toy_request ''PUT'' ''/warphold/dev/p2'', toy_env) toy_state))) t))"
proof -
  let ?o = "ServeHTTP toy_gateway (toy_request ''PUT'' ''/warphold/dev/p2'', toy_env) toy_state"
  have o: "?o = (fst ?o, fst (snd ?o), snd (snd ?o))" by simp
  have "gs_stores (snd (snd ?o)) \<noteq> gs_stores toy_state"
  proof
    assume "gs_stores (snd (snd ?o)) = gs_stores toy_state"
    from arg_cong[OF this, of "\<lambda>f. local_objs (f 0) ''dev/p2''"] toy_put_stored show False by simp
  qed
  with gateway_step_refines[OF toy_stores_wf o[unfolded toy_gateway_def], folded toy_gateway_def]
  show ?thesis by (elim disjE exE conjE) (simp, intro exI conjI)
qed

text \<open>
  C3. An acknowledged upload is stored. Where a PUT of an object is answered 200, the request
  is authentic under a key that may write, the key lies under the agent's prefix, no object
  had that key before, the target now holds exactly the request's body under it and is
  otherwise unchanged, and the body was complete: its length is the Content-Length, within
  the limit, and its MD5 is the one the client announced.
\<close>

theorem gateway_put_acknowledged:
  assumes "\<And>t. fs_wf (gs_stores w t)" and "ServeHTTP (disk_gateway md5 roots g) (r, ev) w = (rs, lg, w')"
    and "rq_Method r = ''PUT''" and "request_key (disk_gateway md5 roots g) r = Some key" and "key \<noteq> []"
    and "rs_status rs = 200"
  shows "\<exists>agentID t. authentic (disk_gateway md5 roots g) r ev w agentID False \<and> g_storeFor g agentID = Inr t
    \<and> HasPrefix key (agentID @ ''/'') \<and> local_objs (gs_stores w t) key = None
    \<and> local_objs (gs_stores w' t) = (local_objs (gs_stores w t))(key \<mapsto> bd_data (rq_Body r))
    \<and> StdEncoding_DecodeString (header_Get r ''Content-MD5'') = Some (md5 (bd_data (rq_Body r)))
    \<and> bd_end (rq_Body r) = None \<and> int (length (bd_data (rq_Body r))) = rq_ContentLength r
    \<and> rq_ContentLength r \<le> g_maxBytes g"
proof -
  have d: "g_storeFor (disk_gateway md5 roots g) = g_storeFor g" "g_md5 (disk_gateway md5 roots g) = md5"
    "g_maxBytes (disk_gateway md5 roots g) = g_maxBytes g"
    by (simp_all add: disk_gateway_def)
  show ?thesis by (rule disk.ServeHTTP_put_ok[OF assms, unfolded d])
qed

lemma toy_put_key: "request_key toy_gateway (toy_request ''PUT'' ''/warphold/dev/p2'') = Some ''dev/p2''"
  by code_simp

theorem gateway_put_acknowledged_witness:
  "\<exists>agentID t. authentic toy_gateway (toy_request ''PUT'' ''/warphold/dev/p2'') toy_env toy_state agentID False
     \<and> local_objs (gs_stores toy_state t) ''dev/p2'' = None
     \<and> local_objs (gs_stores (snd (snd (ServeHTTP toy_gateway (toy_request ''PUT'' ''/warphold/dev/p2'', toy_env) toy_state))) t)
         ''dev/p2'' = Some ''hello''"
proof -
  let ?o = "ServeHTTP toy_gateway (toy_request ''PUT'' ''/warphold/dev/p2'', toy_env) toy_state"
  have o: "?o = (fst ?o, fst (snd ?o), snd (snd ?o))" by simp
  have m: "rq_Method (toy_request ''PUT'' ''/warphold/dev/p2'') = ''PUT''"
    "bd_data (rq_Body (toy_request ''PUT'' ''/warphold/dev/p2'')) = ''hello''"
    by (simp_all add: toy_request_def)
  have k: "''dev/p2'' \<noteq> []" by simp
  from gateway_put_acknowledged[OF toy_stores_wf o[unfolded toy_gateway_def] m(1) toy_put_key[unfolded toy_gateway_def] k
      toy_put[unfolded toy_gateway_def], folded toy_gateway_def]
  show ?thesis by (elim exE conjE) (intro exI conjI, assumption+, simp add: m(2))
qed

text \<open>
  C4. What a GET sends. Where a response carries object content, the request is authentic, its
  key lies under the agent's prefix, and the content is the range of the stored object that
  the Range header asks for: all of it when the transfer ends normally, a prefix of it
  otherwise.
\<close>

theorem gateway_get_confined:
  assumes "\<And>t. fs_wf (gs_stores w t)" and "ServeHTTP (disk_gateway md5 roots g) (r, ev) w = (rs, lg, w')"
    and "rs_body rs = Content b"
  shows "\<exists>agentID readOnly t key v off len ranged. authentic (disk_gateway md5 roots g) r ev w agentID readOnly
    \<and> g_storeFor g agentID = Inr t \<and> request_key (disk_gateway md5 roots g) r = Some key
    \<and> HasPrefix key (agentID @ ''/'') \<and> local_objs (gs_stores w t) key = Some v
    \<and> parseRange (header_Get r ''Range'') (local_ops md5 (roots t)) (ge_head ev) (gs_stores w t) key = Inr (off, len, ranged)
    \<and> (\<exists>m. bd_data b = take m (byte_range v off len)) \<and> (bd_end b = None \<longrightarrow> bd_data b = byte_range v off len)"
proof -
  have d: "g_storeFor (disk_gateway md5 roots g) = g_storeFor g" "g_ops (disk_gateway md5 roots g) t = local_ops md5 (roots t)" for t
    by (simp_all add: disk_gateway_def)
  show ?thesis by (rule disk.ServeHTTP_content[OF assms, unfolded d])
qed

lemma toy_get:
  "rs_body (fst (ServeHTTP toy_gateway (toy_request ''GET'' ''/warphold/dev/p1'', toy_env) toy_state)) =
     Content \<lparr>bd_data = ''ell'', bd_end = None\<rparr>"
  by code_simp

theorem gateway_get_confined_witness:
  "\<exists>agentID readOnly key. authentic toy_gateway (toy_request ''GET'' ''/warphold/dev/p1'') toy_env toy_state agentID readOnly
     \<and> request_key toy_gateway (toy_request ''GET'' ''/warphold/dev/p1'') = Some key \<and> HasPrefix key (agentID @ ''/'')"
proof -
  let ?o = "ServeHTTP toy_gateway (toy_request ''GET'' ''/warphold/dev/p1'', toy_env) toy_state"
  have o: "?o = (fst ?o, fst (snd ?o), snd (snd ?o))" by simp
  from gateway_get_confined[OF toy_stores_wf o[unfolded toy_gateway_def] toy_get[unfolded toy_gateway_def], folded toy_gateway_def]
  show ?thesis by (elim exE conjE) (intro exI conjI)
qed

text \<open>
  C9. What a listing shows. Every entry of a listing is an object under the prefix of the agent
  the request authenticates, in that agent's own target, with its size; the key is sent as
  it is or URL-encoded.
\<close>

theorem gateway_list_confined:
  assumes "\<And>t. fs_wf (gs_stores w t)" and "ServeHTTP (disk_gateway md5 roots g) (r, ev) w = (rs, lg, w')"
    and "rs_body rs = ListDoc d"
  shows "\<exists>agentID readOnly t. authentic (disk_gateway md5 roots g) r ev w agentID readOnly \<and> g_storeFor g agentID = Inr t
    \<and> (\<forall>en \<in> set (lr_Contents d). \<exists>k v. en_Key en \<in> {k, urlEncodeName k} \<and> HasPrefix k (agentID @ ''/'')
         \<and> local_objs (gs_stores w t) k = Some v \<and> en_Size en = int (length v))"
proof -
  have d: "g_storeFor (disk_gateway md5 roots g) = g_storeFor g" by (simp add: disk_gateway_def)
  show ?thesis by (rule disk.ServeHTTP_list[OF assms, unfolded d])
qed

lemma toy_list:
  "(case rs_body (fst (ServeHTTP toy_gateway (signed_request, toy_env) toy_state)) of
      ListDoc d \<Rightarrow> map en_Key (lr_Contents d) | _ \<Rightarrow> []) = [''dev/p1'']"
  by code_simp

theorem gateway_list_confined_witness:
  "\<exists>agentID readOnly t. authentic toy_gateway signed_request toy_env toy_state agentID readOnly
     \<and> (\<exists>k v. ''dev/p1'' \<in> {k, urlEncodeName k} \<and> HasPrefix k (agentID @ ''/'') \<and> local_objs (gs_stores toy_state t) k = Some v)"
proof -
  let ?o = "ServeHTTP toy_gateway (signed_request, toy_env) toy_state"
  have o: "?o = (fst ?o, fst (snd ?o), snd (snd ?o))" by simp
  from toy_list obtain d where d: "rs_body (fst ?o) = ListDoc d" "map en_Key (lr_Contents d) = [''dev/p1'']"
    by (cases "rs_body (fst ?o)") simp_all
  then obtain en where en: "en \<in> set (lr_Contents d)" "en_Key en = ''dev/p1''" by (auto simp: map_eq_Cons_conv)
  from gateway_list_confined[OF toy_stores_wf o[unfolded toy_gateway_def] d(1)[unfolded toy_gateway_def], folded toy_gateway_def]
  obtain agentID readOnly t where a: "authentic toy_gateway signed_request toy_env toy_state agentID readOnly"
    "\<forall>en \<in> set (lr_Contents d). \<exists>k v. en_Key en \<in> {k, urlEncodeName k} \<and> HasPrefix k (agentID @ ''/'')
         \<and> local_objs (gs_stores toy_state t) k = Some v \<and> en_Size en = int (length v)"
    by (elim exE conjE)
  from bspec[OF a(2) en(1), unfolded en(2)] a(1) show ?thesis by blast
qed

end
