(* ===== verification/Gateway_Protocol.thy ===== *)
theory Gateway_Protocol
  imports Gateway_Correct
begin

section \<open>What a client can rely on\<close>

text \<open>
  The parts of the protocol that a client computes with: byte ranges select the bytes they
  name, continuation tokens come back as they were and are bound to one device, encoded
  keys decode to the keys, and following the tokens to the end enumerates exactly the
  objects under the prefix.
\<close>

subsection \<open>Byte ranges\<close>

lemma dec_digits_bytes: "c \<in> set (dec_digits n) \<Longrightarrow> 48 \<le> byte c \<and> byte c \<le> 57"
  using dec_val_digits[of n] by (auto simp: dec_val_def is_digit_def byte_in_def list_all_iff split: if_splits)

lemma dec_digits_not:
  "CHR '','' \<notin> set (dec_digits n)" "CHR ''-'' \<notin> set (dec_digits n)"
  using dec_digits_bytes[of _ n] by (fastforce simp: byte_def)+

lemma range_header_trim:
  assumes "set w \<subseteq> set (''bytes=-'') \<union> {c. 48 \<le> byte c \<and> byte c \<le> 57}"
  shows "TrimSpace w = w"
proof (rule TrimSpace_word(1))
  fix c assume "c \<in> set w"
  with assms have "c \<in> set ''bytes=-'' \<or> 48 \<le> byte c \<and> byte c \<le> 57" by blast
  then show "byte c < 128 \<and> \<not> IsSpace (byte c)" by (auto simp: IsSpace_def byte_def)
qed

lemma range_bytes_digits: "set (dec_digits n) \<subseteq> {c. 48 \<le> byte c \<and> byte c \<le> 57}"
  using dec_digits_bytes by blast

lemma FormatInt_nonneg: "0 \<le> a \<Longrightarrow> FormatInt a = dec_digits (nat a)"
  by (simp add: FormatInt_def)

lemma ParseInt64_digits: "0 \<le> a \<Longrightarrow> a \<le> max_int64 \<Longrightarrow> ParseInt64 (dec_digits (nat a)) = Some a"
  using ParseInt_FormatInt[of a] by (simp add: FormatInt_nonneg in_int64_def min_int64_def)

lemma CutPrefix_append: "CutPrefix (p @ s) p = (s, True)"
  by (simp add: CutPrefix_def)

text \<open>A range header with its two numbers already in decimal.\<close>

lemma parseRange_digits:
  assumes "set x \<subseteq> {c. 48 \<le> byte c \<and> byte c \<le> 57}" and "set y \<subseteq> {c. 48 \<le> byte c \<and> byte c \<le> 57}"
  shows "CutPrefix (TrimSpace (''bytes='' @ x @ ''-'' @ y)) ''bytes='' = (x @ ''-'' @ y, True)"
    and "\<not> Contains (x @ ''-'' @ y) (CHR '','')" and "Cut (x @ ''-'' @ y) (CHR ''-'') = (x, y, True)"
proof -
  have "TrimSpace (''bytes='' @ x @ ''-'' @ y) = ''bytes='' @ x @ ''-'' @ y"
    by (rule range_header_trim) (use assms in auto)
  then show "CutPrefix (TrimSpace (''bytes='' @ x @ ''-'' @ y)) ''bytes='' = (x @ ''-'' @ y, True)"
    by (simp only: CutPrefix_append)
  show "\<not> Contains (x @ ''-'' @ y) (CHR '','')"
    using assms by (fastforce simp: Contains_def byte_def)
  have "CHR ''-'' \<notin> set x" using assms(1) by (fastforce simp: byte_def)
  then show "Cut (x @ ''-'' @ y) (CHR ''-'') = (x, y, True)" by simp
qed

lemma wrap64_small: "0 \<le> x \<Longrightarrow> x \<le> max_int64 \<Longrightarrow> wrap64 x = x"
  by (simp add: wrap64_def max_int64_def)

lemma range_length:
  assumes "0 \<le> a" "a \<le> b" "b \<le> max_int64" "int (length v) \<le> max_int64"
  shows "byte_range v a (wrap64 (b - a + 1)) = take (nat (b - a + 1)) (drop (nat a) v)"
proof (cases "b - a + 1 \<le> max_int64")
  case True
  with assms show ?thesis by (simp add: wrap64_small byte_range_def Let_def)
next
  case False
  with assms have "a = 0" "b = max_int64" by auto
  with assms show ?thesis by (simp add: wrap64_def max_int64_def byte_range_def Let_def)
qed

text \<open>
  C40. Byte ranges select the bytes they name. For every object of at most 2^63-1 bytes:
  "bytes=a-b" selects the bytes from a to b inclusive, clamped to the object, including
  where b-a+1 overflows a 64-bit integer; "bytes=a-" selects everything from a; and
  "bytes=-n" selects the last n bytes, or the whole object where it is shorter.
\<close>

theorem parseRange_exact:
  assumes "0 \<le> a" "a \<le> b" "b \<le> max_int64" and "int (length v) \<le> max_int64"
    and "0 < n" "n \<le> max_int64" and "os_Head st e s key = Inr i" "oi_Size i = int (length v)"
  shows "(\<exists>off len. parseRange (''bytes='' @ FormatInt a @ ''-'' @ FormatInt b) st e s key = Inr (off, len, True)
        \<and> byte_range v off len = take (nat (b - a + 1)) (drop (nat a) v))
    \<and> (\<exists>off len. parseRange (''bytes='' @ FormatInt a @ ''-'') st e s key = Inr (off, len, True)
        \<and> byte_range v off len = drop (nat a) v)
    \<and> (\<exists>off len. parseRange (''bytes=-'' @ FormatInt n) st e s key = Inr (off, len, True)
        \<and> byte_range v off len = drop (length v - nat n) v)"
proof (intro conjI)
  have p: "ParseInt64 (dec_digits (nat a)) = Some a" "ParseInt64 (dec_digits (nat b)) = Some b"
    "ParseInt64 (dec_digits (nat n)) = Some n"
    using assms by (simp_all add: ParseInt64_digits)
  note d = range_bytes_digits[of "nat a"] range_bytes_digits[of "nat b"] range_bytes_digits[of "nat n"]
  note two = parseRange_digits[OF d(1,2)]
  have "parseRange (''bytes='' @ FormatInt a @ ''-'' @ FormatInt b) st e s key = Inr (a, wrap64 (b - a + 1), True)"
    using assms p two by (simp add: parseRange_def FormatInt_nonneg dec_digits_ne)
  with range_length[OF assms(1-4)]
  show "\<exists>off len. parseRange (''bytes='' @ FormatInt a @ ''-'' @ FormatInt b) st e s key = Inr (off, len, True)
        \<and> byte_range v off len = take (nat (b - a + 1)) (drop (nat a) v)" by blast
  note one = parseRange_digits[OF d(1), of "[]"]
  have "parseRange (''bytes='' @ FormatInt a @ ''-'') st e s key = Inr (a, -1, True)"
    using assms p one by (simp add: parseRange_def FormatInt_nonneg dec_digits_ne)
  then show "\<exists>off len. parseRange (''bytes='' @ FormatInt a @ ''-'') st e s key = Inr (off, len, True)
        \<and> byte_range v off len = drop (nat a) v" by (simp add: byte_range_def)
  note suf = parseRange_digits[OF _ d(3), of "[]"]
  have "parseRange (''bytes=-'' @ FormatInt n) st e s key =
      Inr (int (length v) - min n (int (length v)), min n (int (length v)), True)"
    using assms p suf by (simp add: parseRange_def FormatInt_nonneg min_def)
  moreover have "byte_range v (int (length v) - min n (int (length v))) (min n (int (length v))) = drop (length v - nat n) v"
    using assms by (auto simp: byte_range_def Let_def min_def nat_diff_distrib)
  ultimately show "\<exists>off len. parseRange (''bytes=-'' @ FormatInt n) st e s key = Inr (off, len, True)
        \<and> byte_range v off len = drop (length v - nat n) v" by blast
qed

theorem parseRange_exact_witness:
  "\<exists>off len. parseRange ''bytes=-2'' (local_ops toy_md5 small_local) calm one_object ''dev/p1'' = Inr (off, len, True)
     \<and> byte_range ''hello'' off len = ''lo''"
proof -
  have h: "os_Head (local_ops toy_md5 small_local) calm one_object ''dev/p1'' =
      Inr \<lparr>oi_Key = ''dev/p1'', oi_Size = 5, oi_ETag = hex_EncodeToString (toy_md5 ''hello''), oi_LastModified = 0\<rparr>"
    and f: "FormatInt 2 = ''2''"
    by code_simp+
  from parseRange_exact[of 0 max_int64 "''hello''" 2, OF _ _ _ _ _ _ h] show ?thesis
    by (simp add: max_int64_def f)
qed

subsection \<open>Continuation tokens\<close>

lemma token_raw: "RawURLEncoding_DecodeString (encodeToken p a) = Some (p @ CHR 0x00 # a)"
  by (simp add: encodeToken_def RawURL_round_trip)

lemma decode_encode:
  "CHR 0x00 \<notin> set p \<Longrightarrow> decodeToken (encodeToken p a) q = (if q = p then Inr a else Inl ErrBadKey)"
  by (simp add: decodeToken_def token_raw)

lemma encodeToken_ne: "encodeToken p a \<noteq> []"
proof -
  have "RawURLEncoding_DecodeString [] = Some []" by code_simp
  with token_raw[of p a] show ?thesis by auto
qed

text \<open>
  Continuation tokens. A token decodes, for the device it was minted for, to the key it
  carries, and is refused for every other device prefix; it is never empty, so it is never
  mistaken for a first page. Device prefixes hold no NUL byte.
\<close>

theorem token_bound:
  assumes "CHR 0x00 \<notin> set devPrefix"
  shows "decodeToken (encodeToken devPrefix after) p = (if p = devPrefix then Inr after else Inl ErrBadKey)
    \<and> encodeToken devPrefix after \<noteq> []"
  using decode_encode[OF assms] encodeToken_ne by simp

theorem token_bound_witness:
  "decodeToken (encodeToken ''dev/'' ''dev/p1'') ''dev/'' = Inr ''dev/p1''
   \<and> decodeToken (encodeToken ''dev/'' ''dev/p1'') ''other/'' = Inl ErrBadKey"
  using token_bound[of "''dev/''" "''dev/p1''"] by simp

subsection \<open>Encoded keys\<close>

lemma plus_to_20_append: "plus_to_20 (a @ b) = plus_to_20 a @ plus_to_20 b"
  by (simp add: plus_to_20_def)

lemma plus_to_20_plain: "CHR ''+'' \<notin> set a \<Longrightarrow> plus_to_20 a = a"
  by (induction a) (auto simp: plus_to_20_def)

lemma upper_hex_not_plus: "n < 16 \<Longrightarrow> upper_hex n \<noteq> CHR ''+''"
  using upper_hex_val[of n] by (auto simp: hex_val_def byte_in_def byte_def split: if_splits)

lemma encoded_char: "plus_to_20 (escape_char c) = (if c = CHR '' '' then ''%20'' else escape_char c)"
proof (cases "c = CHR '' ''")
  case True
  have "plus_to_20 (escape_char (CHR '' '')) = ''%20''" by code_simp
  with True show ?thesis by simp
next
  case False
  have "CHR ''+'' \<notin> set (escape_char c)"
    using False unreserved_plain[of c] upper_hex_not_plus[of "byte c div 16"] upper_hex_not_plus[of "byte c mod 16"]
      byte_div(2)[of c] by (auto simp: escape_char_def)
  with False show ?thesis by (simp add: plus_to_20_plain)
qed

text \<open>
  Encoded keys decode. The encoding of an encoding-type=url listing holds no plus sign and
  is read back unchanged by \<^verbatim>\<open>url.QueryUnescape\<close>, for every byte string.
\<close>

theorem urlEncodeName_round_trip:
  "QueryUnescape (urlEncodeName s) = Some s \<and> CHR ''+'' \<notin> set (urlEncodeName s)"
proof (induction s)
  case Nil
  show ?case by code_simp
next
  case (Cons c s)
  have e: "urlEncodeName (c # s) = (if c = CHR '' '' then ''%20'' else escape_char c) @ urlEncodeName s"
    by (simp add: urlEncodeName_def QueryEscape_def plus_to_20_append encoded_char)
  have space: "hex_val (CHR ''2'') = Some 2" "hex_val (CHR ''0'') = Some 0" "char_of (32 :: nat) = CHR '' ''"
    by code_simp+
  have "QueryUnescape (''%20'' @ r) = map_option ((#) (CHR '' '')) (QueryUnescape r)" for r
    using space by (simp split: option.split)
  moreover have "CHR ''+'' \<notin> set (plus_to_20 (escape_char c))"
    by (auto simp: plus_to_20_def split: if_splits)
  ultimately show ?case
    using Cons by (auto simp: e unescape_escape_char encoded_char)
qed

subsection \<open>Listing to the end\<close>

text \<open>
  A client that lists a prefix: it sends the token of each truncated page with its next
  request, one outside world per request, and collects the keys. \<^const>\<open>None\<close> where a page
  is refused or the requests run out.
\<close>

definition page_query :: "string \<Rightarrow> string \<Rightarrow> string \<Rightarrow> url_values" where
  "page_query pfx mk token = [(''list-type'', ''2''), (''prefix'', pfx), (''max-keys'', mk), (''continuation-token'', token)]"

fun list_pages :: "('e, 's) Gateway \<Rightarrow> request \<Rightarrow> ('e, 's) ObjectStore \<Rightarrow> 's \<Rightarrow> string \<Rightarrow> string \<Rightarrow> string \<Rightarrow> 'e list \<Rightarrow> string
    \<Rightarrow> string list option" where
  "list_pages g r st s devPrefix pfx mk [] token = None"
| "list_pages g r st s devPrefix pfx mk (e # es) token =
     (case rs_body (gw_list g r (page_query pfx mk token) st e s devPrefix) of
        ListDoc d \<Rightarrow>
          if lr_IsTruncated d
          then map_option ((@) (map en_Key (lr_Contents d)))
                 (list_pages g r st s devPrefix pfx mk es (lr_NextContinuationToken d))
          else Some (map en_Key (lr_Contents d))
      | _ \<Rightarrow> None)"

lemma page_query_Get [simp]:
  "query_Get (page_query p m t) ''prefix'' = p" "query_Get (page_query p m t) ''continuation-token'' = t"
  "query_Get (page_query p m t) ''start-after'' = []" "query_Get (page_query p m t) ''encoding-type'' = []"
  "query_Get (page_query p m t) ''fetch-owner'' = []"
  by (simp_all add: page_query_def query_Get_def)

lemma list_maxKeys_pos: "0 < list_maxKeys q"
  by (simp add: list_maxKeys_def maxListKeys_def Let_def split: option.split)

lemma HasPrefix_not_less: "HasPrefix k p \<Longrightarrow> \<not> k < p"
proof -
  have "\<not> p @ t < p" for t :: string by (induction p) auto
  then show "HasPrefix k p \<Longrightarrow> \<not> k < p" by (auto simp: HasPrefix_iff)
qed

text \<open>The token of the page after \<open>a\<close>, where the first page is after the empty string.\<close>

definition token_after :: "string \<Rightarrow> string \<Rightarrow> string \<Rightarrow> string \<Rightarrow> bool" where
  "token_after devPrefix pfx a token \<longleftrightarrow> a = [] \<and> token = [] \<or> HasPrefix a pfx \<and> token = encodeToken devPrefix a"

definition dev_prefix :: "string \<Rightarrow> bool" where
  "dev_prefix p \<longleftrightarrow> CHR 0x00 \<notin> set p \<and> CHR ''/'' \<in> set p"

lemma plain_entry: "\<not> EqualFold [] ''url''" "en_Key (list_entry b False f o1) = oi_Key o1"
  by (simp_all add: EqualFold_def ToLower_def list_entry_def)

text \<open>One page, as the store's listing after \<open>a\<close>.\<close>

lemma page_collect:
  assumes "dev_prefix devPrefix" "HasPrefix pfx devPrefix" "token_after devPrefix pfx a token"
    and "rs_body (gw_list g r (page_query pfx mk token) st e s devPrefix) = ListDoc d"
  shows "\<exists>os nxt. collect st e s pfx a (list_maxKeys (page_query pfx mk token)) = Inr (os, nxt, lr_IsTruncated d)
    \<and> map en_Key (lr_Contents d) = map oi_Key os
    \<and> lr_NextContinuationToken d = (if lr_IsTruncated d then encodeToken devPrefix nxt else [])"
proof -
  have n: "CHR 0x00 \<notin> set devPrefix" using assms(1) by (simp add: dev_prefix_def)
  have t: "(if token \<noteq> [] then decodeToken token devPrefix else Inr []) = Inr a"
    using assms(3) decode_encode[OF n, of a devPrefix] encodeToken_ne by (auto simp: token_after_def)
  have a: "(if a < pfx then [] else a) = a"
    using assms(3) HasPrefix_not_less by (auto simp: token_after_def)
  from gw_list_ListDoc[OF assms(4), unfolded page_query_Get if_P[OF assms(2)] t] obtain os nxt tr where
    c: "collect st e s pfx (if a < pfx then [] else a) (list_maxKeys (page_query pfx mk token)) = Inr (os, nxt, tr)"
    "lr_Contents d = map (list_entry (g_bucket g) (EqualFold [] ''url'') (EqualFold [] ''true'')) os"
    "lr_IsTruncated d = tr" "lr_NextContinuationToken d = (if tr then encodeToken devPrefix nxt else [])"
    by (elim exE conjE) (simp only: sum.inject)
  then show ?thesis unfolding a by (simp add: plain_entry comp_def)
qed

lemma page_ListDoc:
  assumes "dev_prefix devPrefix" "HasPrefix pfx devPrefix" "token_after devPrefix pfx a token"
    and c: "collect st e s pfx a (list_maxKeys (page_query pfx mk token)) = Inr (os, nxt, tr)"
    and l: "list_all (\<lambda>o1. HasPrefix (oi_Key o1) devPrefix) os"
  shows "\<exists>d. rs_body (gw_list g r (page_query pfx mk token) st e s devPrefix) = ListDoc d"
proof -
  have n: "CHR 0x00 \<notin> set devPrefix" using assms(1) by (simp add: dev_prefix_def)
  have t: "(if token \<noteq> [] then decodeToken token devPrefix else Inr []) = Inr a"
    using assms(3) decode_encode[OF n, of a devPrefix] encodeToken_ne by (auto simp: token_after_def)
  have a: "(if a < pfx then [] else a) = a"
    using assms(3) HasPrefix_not_less by (auto simp: token_after_def)
  have nl: "\<not> \<not> list_all (\<lambda>o1. HasPrefix (oi_Key o1) devPrefix) os" using l by blast
  show ?thesis
    unfolding gw_list_def Let_def page_query_Get if_P[OF assms(2)] t sum.case a c prod.case if_not_P[OF nl]
    by (simp add: writeXML_def)
qed

lemma sorted_le_last: "sorted_wrt (<) xs \<Longrightarrow> x \<in> set xs \<Longrightarrow> x \<le> last (xs :: string list)"
  by (induction xs) (auto split: if_splits intro: less_imp_le less_le_trans)

context object_store_contract
begin

lemma collect_page:
  assumes i: "inv s" and p: "CHR ''/'' \<in> set pfx" and q: "\<And>k. \<not> raced e k"
    and c: "collect ops e s pfx a mx = Inr (os, nxt, tr)"
  shows "sorted_wrt (<) (map oi_Key os)" and "tr \<Longrightarrow> os \<noteq> [] \<and> nxt = oi_Key (last os)"
    and "k \<in> oi_Key ` set os \<longleftrightarrow> objs s k \<noteq> None \<and> HasPrefix k pfx \<and> a < k \<and> (tr \<longrightarrow> k \<le> nxt)"
proof -
  obtain tr' where l: "os_List ops e s pfx a mx = Inr (os, tr')" and t: "tr = (tr' \<and> os \<noteq> [])" "os \<noteq> [] \<longrightarrow> nxt = oi_Key (last os)"
    using c by (auto simp: collect_def split: sum.splits if_splits prod.splits)
  note ls = list_sorted[OF i p l]
  then have tr: "tr' = tr" using t by blast
  show s: "sorted_wrt (<) (map oi_Key os)" using ls by blast
  show ne: "tr \<Longrightarrow> os \<noteq> [] \<and> nxt = oi_Key (last os)" using t by blast
  have last: "k' \<le> oi_Key (last os)" if "k' \<in> oi_Key ` set os" for k'
    using sorted_le_last[OF s, of k'] that by (cases "os = []") (simp_all add: last_map)
  show "k \<in> oi_Key ` set os \<longleftrightarrow> objs s k \<noteq> None \<and> HasPrefix k pfx \<and> a < k \<and> (tr \<longrightarrow> k \<le> nxt)"
  proof
    assume k: "k \<in> oi_Key ` set os"
    then obtain o1 where "o1 \<in> set os" "k = oi_Key o1" by blast
    with list_sound[OF i l, of o1] last[OF k] ne show "objs s k \<noteq> None \<and> HasPrefix k pfx \<and> a < k \<and> (tr \<longrightarrow> k \<le> nxt)" by auto
  next
    assume k: "objs s k \<noteq> None \<and> HasPrefix k pfx \<and> a < k \<and> (tr \<longrightarrow> k \<le> nxt)"
    then obtain v where v: "objs s k = Some v" by (cases "objs s k") simp_all
    have "\<not> tr' \<or> k \<le> oi_Key (last os)" unfolding tr using k ne by (cases tr) simp_all
    from list_complete[OF i p l v _ _ q this] k show "k \<in> oi_Key ` set os" by simp
  qed
qed

text \<open>The keys of a listing after \<open>a\<close>.\<close>

definition keys_after :: "'s \<Rightarrow> string \<Rightarrow> string \<Rightarrow> string set" where
  "keys_after s pfx a = {k. objs s k \<noteq> None \<and> HasPrefix k pfx \<and> a < k}"

lemma list_pages_sound:
  assumes i: "inv s" and d: "dev_prefix devPrefix" "HasPrefix pfx devPrefix" and q: "\<forall>e \<in> set es. \<forall>k. \<not> raced e k"
    and "token_after devPrefix pfx a token" and "list_pages g r ops s devPrefix pfx mk es token = Some ks"
  shows "sorted_wrt (<) ks \<and> set ks = keys_after s pfx a"
  using q assms(5,6)
proof (induction es arbitrary: a token ks)
  case (Cons e es)
  have p: "CHR ''/'' \<in> set pfx" using d by (auto simp: dev_prefix_def HasPrefix_iff)
  from Cons.prems(3) obtain doc where b: "rs_body (gw_list g r (page_query pfx mk token) ops e s devPrefix) = ListDoc doc"
    by (auto split: rbody.splits)
  from page_collect[OF d Cons.prems(2) b] obtain os nxt where
    c: "collect ops e s pfx a (list_maxKeys (page_query pfx mk token)) = Inr (os, nxt, lr_IsTruncated doc)"
    and m: "map en_Key (lr_Contents doc) = map oi_Key os"
    and t: "lr_NextContinuationToken doc = (if lr_IsTruncated doc then encodeToken devPrefix nxt else [])"
    by blast
  have nr: "\<not> raced e k" for k using Cons.prems(1) by simp
  note cp = collect_page[OF i p nr c]
  show ?case
  proof (cases "lr_IsTruncated doc")
    case False
    with Cons.prems(3) b m have "ks = map oi_Key os" by simp
    with cp(1,3) False show ?thesis by (auto simp: keys_after_def)
  next
    case True
    with Cons.prems(3) b m t obtain ks' where
      ks: "list_pages g r ops s devPrefix pfx mk es (encodeToken devPrefix nxt) = Some ks'" "ks = map oi_Key os @ ks'"
      by auto
    from cp(2)[OF True] have n: "nxt \<in> oi_Key ` set os" by auto
    with cp(3)[of nxt] have nx: "HasPrefix nxt pfx" "a < nxt" by auto
    from Cons.IH[OF _ _ ks(1), of nxt] Cons.prems(1) nx(1)
    have IH: "sorted_wrt (<) ks'" "set ks' = keys_after s pfx nxt" by (auto simp: token_after_def)
    have "\<forall>x \<in> set (map oi_Key os). \<forall>y \<in> set ks'. x < y"
      using cp(3) True IH(2) by (auto simp: keys_after_def intro: le_less_trans)
    moreover have "set (map oi_Key os) \<union> set ks' = keys_after s pfx a"
      using cp(3) True IH(2) nx(2) by (auto simp: keys_after_def intro: less_trans)
    ultimately show ?thesis using cp(1) IH(1) by (simp add: ks(2) sorted_wrt_append)
  qed
qed simp

lemma list_pages_total:
  assumes i: "inv s" and d: "dev_prefix devPrefix" "HasPrefix pfx devPrefix" and q: "\<forall>e \<in> set es. \<forall>k. \<not> raced e k"
    and l: "\<forall>e \<in> set es. \<forall>a mx. \<exists>x. os_List ops e s pfx a mx = Inr x"
    and "token_after devPrefix pfx a token" and "finite (keys_after s pfx a)" and "card (keys_after s pfx a) < length es"
  shows "\<exists>ks. list_pages g r ops s devPrefix pfx mk es token = Some ks"
  using q l assms(6-8)
proof (induction es arbitrary: a token)
  case (Cons e es)
  have p: "CHR ''/'' \<in> set pfx" using d by (auto simp: dev_prefix_def HasPrefix_iff)
  obtain x where x: "os_List ops e s pfx a (list_maxKeys (page_query pfx mk token)) = Inr x" using Cons.prems(2) by force
  obtain os nxt tr where c: "collect ops e s pfx a (list_maxKeys (page_query pfx mk token)) = Inr (os, nxt, tr)"
    using that x by (cases x; cases "fst x = []") (simp_all add: collect_def, blast)
  have nr: "\<not> raced e k" for k using Cons.prems(1) by simp
  note cp = collect_page[OF i p nr c]
  have "list_all (\<lambda>o1. HasPrefix (oi_Key o1) devPrefix) os"
    unfolding list_all_iff by (intro ballI HasPrefix_trans[OF _ d(2)]) (use cp(3) in blast)
  from page_ListDoc[OF d Cons.prems(3) c this] obtain doc where
    b: "rs_body (gw_list g r (page_query pfx mk token) ops e s devPrefix) = ListDoc doc" by blast
  from page_collect[OF d Cons.prems(3) b] c have
    t: "lr_IsTruncated doc = tr" "lr_NextContinuationToken doc = (if tr then encodeToken devPrefix nxt else [])" by auto
  show ?case
  proof (cases tr)
    case True
    from cp(2)[OF True] have "nxt \<in> oi_Key ` set os" by auto
    with cp(3)[of nxt] have nx: "objs s nxt \<noteq> None" "HasPrefix nxt pfx" "a < nxt" by auto
    then have "keys_after s pfx nxt \<subset> keys_after s pfx a" by (auto simp: keys_after_def intro: less_trans)
    with Cons.prems(4,5) have f: "finite (keys_after s pfx nxt)" "card (keys_after s pfx nxt) < length es"
      using psubset_card_mono[of "keys_after s pfx a" "keys_after s pfx nxt"] by (auto intro: finite_subset)
    have ta: "token_after devPrefix pfx nxt (encodeToken devPrefix nxt)" using nx(2) by (simp add: token_after_def)
    from Cons.IH[OF _ _ ta f] Cons.prems(1,2) obtain ks where
      "list_pages g r ops s devPrefix pfx mk es (encodeToken devPrefix nxt) = Some ks" by auto
    with b t True show ?thesis by simp
  next
    case False
    with b t show ?thesis by simp
  qed
qed simp

end

lemma local_objs_finite: "finite {k. local_objs s k \<noteq> None}"
proof -
  have "{k. local_objs s k \<noteq> None} \<subseteq> (\<lambda>(d, n). d @ CHR ''/'' # n) `
      (\<Union>(d, r) \<in> set s. case r of Dir es \<Rightarrow> (\<lambda>x. (d, fst x)) ` set es | NotDir \<Rightarrow> {})"
  proof
    fix k assume "k \<in> {k. local_objs s k \<noteq> None}"
    then obtain d n i where c: "Cut k CHR ''/'' = (d, n, True)" and i: "fs_node s d n = Some i"
      by (auto simp: local_objs_def split: prod.splits option.splits if_splits)
    from i obtain es where "(d, Dir es) \<in> set s" "(n, i) \<in> set es"
      by (auto simp: fs_node_def fs_dir_def split: option.splits rootent.splits dest!: map_of_SomeD)
    with c show "k \<in> (\<lambda>(d, n). d @ CHR ''/'' # n) `
      (\<Union>(d, r) \<in> set s. case r of Dir es \<Rightarrow> (\<lambda>x. (d, fst x)) ` set es | NotDir \<Rightarrow> {})"
      by (force simp: Cut_True)
  qed
  then show ?thesis by (rule finite_subset) (auto split: prod.split rootent.split)
qed

text \<open>
  C10. Following the continuation tokens enumerates the prefix. Over a disk target that does not
  change meanwhile, where no listing fails and the client makes at least one request more
  than there are keys, the client reaches the last page whatever page size it asks for, and
  the keys it has collected are exactly the objects under the prefix, each once, in byte
  order.
\<close>

theorem list_pages_complete:
  assumes "fs_wf s" and "dev_prefix devPrefix" and "HasPrefix pfx devPrefix"
    and "\<forall>e \<in> set es. \<forall>k. \<not> le_gone e k" and "\<forall>e \<in> set es. \<forall>a mx. \<exists>x. local_List e s pfx a mx = Inr x"
    and "card {k. local_objs s k \<noteq> None \<and> HasPrefix k pfx} < length es"
  shows "\<exists>ks. list_pages g r (local_ops md5 l) s devPrefix pfx mk es [] = Some ks \<and> sorted_wrt (<) ks
    \<and> set ks = {k. local_objs s k \<noteq> None \<and> HasPrefix k pfx}"
proof -
  have ne: "pfx \<noteq> []" using assms(2,3) by (auto simp: dev_prefix_def HasPrefix_iff)
  have k: "lo.keys_after s pfx [] = {k. local_objs s k \<noteq> None \<and> HasPrefix k pfx}"
    using ne by (auto simp: lo.keys_after_def HasPrefix_iff neq_Nil_conv)
  have f: "finite (lo.keys_after s pfx [])"
    unfolding k by (rule finite_subset[OF _ local_objs_finite[of s]]) blast
  have t: "token_after devPrefix pfx [] []" by (simp add: token_after_def)
  have l: "\<forall>e \<in> set es. \<forall>a mx. \<exists>x. os_List (local_ops md5 l) e s pfx a mx = Inr x"
    using assms(5) by (simp add: local_ops_def)
  obtain ks where ks: "list_pages g r (local_ops md5 l) s devPrefix pfx mk es [] = Some ks"
    using lo.list_pages_total[OF assms(1-4) l t f] assms(6) unfolding k by blast
  from lo.list_pages_sound[OF assms(1-4) t ks] ks show ?thesis unfolding k by blast
qed

lemma one_object_keys: "{k. local_objs one_object k \<noteq> None \<and> HasPrefix k ''dev/''} = {''dev/p1''}"
proof -
  have "k = ''dev/p1''" if k: "local_objs one_object k \<noteq> None" for k
  proof -
    from k obtain d n i where c: "Cut k CHR ''/'' = (d, n, True)" "d \<noteq> tmpDir" and i: "fs_node one_object d n = Some i"
      by (auto simp: local_objs_def split: prod.splits option.splits if_splits)
    have "fs_dir one_object d = (if d = ''dev'' then
        Some [(''p1'', \<lparr>ino_kind = Regular, ino_data = ''hello'', ino_mtime = 0, ino_etag = None\<rparr>)] else None)"
      using c(2) by (simp add: fs_dir_def one_object_def)
    with i have "d = ''dev'' \<and> n = ''p1''" by (simp add: fs_node_def split: if_splits)
    with c(1)[unfolded Cut_True] show ?thesis by simp
  qed
  moreover have "local_objs one_object ''dev/p1'' = Some ''hello''" by code_simp
  ultimately show ?thesis by auto
qed

lemma list_entries_total:
  "(\<And>k. \<not> le_info_err e k) \<Longrightarrow> \<exists>os' full. list_entries e d name after mx os ents = Inr (os', full)"
  by (induction ents arbitrary: os) (auto simp: Let_def)

lemma one_object_lists: "\<exists>x. local_List calm one_object ''dev/'' a mx = Inr x"
proof -
  have d: "listDirs calm one_object ''dev/'' = Inr ([''dev''], [])" "fs_readdir one_object ''dev'' =
      Inr [(''p1'', \<lparr>ino_kind = Regular, ino_data = ''hello'', ino_mtime = 0, ino_etag = None\<rparr>)]"
    "le_ctx_err calm = False" "le_readdir_err calm = False" "le_gone calm k = False" "le_info_err calm k = False" for k
    by (code_simp | simp add: calm_def)+
  obtain os full where e: "list_entries calm ''dev'' [] a (clamp_max mx) []
      [(''p1'', \<lparr>ino_kind = Regular, ino_data = ''hello'', ino_mtime = 0, ino_etag = None\<rparr>)] = Inr (os, full)"
    using list_entries_total[of calm] d(6) by blast
  have "local_List calm one_object ''dev/'' a mx = Inr (os, full)"
    unfolding local_List_def d if_False sum.case prod.case list_dirs.simps e by (cases full) simp_all
  then show ?thesis by blast
qed

theorem list_pages_complete_witness:
  "\<exists>ks. list_pages toy_gateway signed_request (local_ops toy_md5 small_local) one_object ''dev/'' ''dev/'' ''1'' [calm, calm] [] =
     Some ks \<and> set ks = {''dev/p1''}"
proof -
  have d: "dev_prefix ''dev/''" by (simp add: dev_prefix_def)
  have r: "\<forall>e \<in> set [calm, calm]. \<forall>k. \<not> le_gone e k" by (simp add: calm_def)
  have l: "\<forall>e \<in> set [calm, calm]. \<forall>a mx. \<exists>x. local_List e one_object ''dev/'' a mx = Inr x"
    using one_object_lists by simp
  have p: "HasPrefix ''dev/'' ''dev/''" by simp
  have c: "card {k. local_objs one_object k \<noteq> None \<and> HasPrefix k ''dev/''} < length [calm, calm]"
    unfolding one_object_keys by simp
  from list_pages_complete[OF one_object_wf d p r l c, of toy_gateway signed_request toy_md5 small_local "''1''"] show ?thesis
    unfolding one_object_keys by (elim exE conjE) (intro exI conjI)
qed

end
