(* ===== verification/Fleet_Store.thy ===== *)
theory Fleet_Store
  imports Device_Keys Go_Encoding
begin

section \<open>The fleet database\<close>

text \<open>
  Models \<^verbatim>\<open>src/fleet/store\<close>: every table of \<^verbatim>\<open>schema.sql\<close> as a list of rows in the order of
  insertion, and every statement of the package as a function on the database. A statement
  is atomic: the store has a single connection. Foreign keys and UNIQUE columns are
  enforced as SQLite enforces them with \<^verbatim>\<open>foreign_keys(1)\<close>; a violated constraint is \<open>SqlErr\<close>.
  An INTEGER PRIMARY KEY left out of an INSERT is one more than the largest in the table.
  Times are stored to the second (\<^const>\<open>ts\<close>) and compared as text of one width, that is, in
  their own order. Failing disk I/O is left out: it changes no row.
\<close>

datatype store_error = ErrNotFound_store | ErrGroupInUse | ErrLastAdmin | SqlErr

definition next_id :: "int list \<Rightarrow> int" where
  "next_id ids = foldr max ids 0 + 1"

text \<open>\<^verbatim>\<open>UPDATE ... WHERE\<close>, with the number of rows it affects.\<close>

definition update_where :: "('a \<Rightarrow> bool) \<Rightarrow> ('a \<Rightarrow> 'a) \<Rightarrow> 'a list \<Rightarrow> nat \<times> 'a list" where
  "update_where p f rows = (length (filter p rows), map (\<lambda>r. if p r then f r else r) rows)"

subsection \<open>Rows\<close>

record Admin =
  ad_ID :: int
  ad_Email :: string
  ad_PWHash :: string
  ad_Role :: string
  ad_CreatedAt :: gotime

record Session =
  se_ID :: int
  se_TokenHash :: string
  se_AdminID :: int
  se_CreatedAt :: gotime
  se_ExpiresAt :: gotime
  se_RevokedAt :: "gotime option"

record Target =
  ta_ID :: int
  ta_Name :: string
  ta_Kind :: string
  ta_Bucket :: string
  ta_Region :: string
  ta_Path :: string
  ta_SealedAdminKey :: string
  ta_ObjectLockVerifiedAt :: "gotime option"
  ta_CreatedAt :: gotime
  ta_StorageMode :: string
  ta_Endpoint :: string
  ta_MirrorKind :: string
  ta_MirrorBucket :: string
  ta_MirrorRegion :: string
  ta_SealedMirrorKey :: string
  ta_MirrorLockVerifiedAt :: "gotime option"
  ta_MirrorConditionalPut :: "bool option"

record Template =
  te_ID :: int
  te_Name :: string
  te_Sources :: "string list"
  te_PolicyJSON :: string
  te_CreatedAt :: gotime

record Group =
  gr_ID :: int
  gr_Name :: string
  gr_TargetID :: int
  gr_TemplateID :: int
  gr_CreatedAt :: gotime
  gr_DeletedAt :: "gotime option"

record Agent =
  ag_ID :: string
  ag_Name :: string
  ag_Hostname :: string
  ag_OS :: string
  ag_Arch :: string
  ag_Version :: string
  ag_Scope :: string
  ag_GroupID :: int
  ag_BearerHash :: string
  ag_SealedBundle :: string
  ag_PolicyETag :: string
  ag_EnrolledAt :: gotime
  ag_LastSeenAt :: "gotime option"
  ag_RevokedAt :: "gotime option"
  ag_RetiredAt :: "gotime option"

record Token =
  tk_ID :: int
  tk_Hash :: string
  tk_GroupID :: int
  tk_ExpiresAt :: gotime
  tk_MaxUses :: int
  tk_Uses :: int
  tk_RevokedAt :: "gotime option"
  tk_CreatedBy :: int
  tk_CreatedAt :: gotime

record Command =
  co_ID :: int
  co_AgentID :: string
  co_Kind :: string
  co_Source :: string
  co_CreatedAt :: gotime
  co_AckedAt :: "gotime option"

record Report =
  re_ID :: int
  re_AgentID :: string
  re_TaskID :: string
  re_Kind :: string
  re_Source :: string
  re_StartedAt :: gotime
  re_FinishedAt :: gotime
  re_Status :: string
  re_Bytes :: int
  re_Files :: int
  re_SnapshotID :: string
  re_Stderr :: string

record Job =
  jo_ID :: int
  jo_Kind :: string
  jo_AgentID :: string          \<comment> \<open>empty for NULL\<close>
  jo_ScheduledFor :: gotime
  jo_StartedAt :: "gotime option"
  jo_FinishedAt :: "gotime option"
  jo_Status :: string
  jo_Detail :: string

record KitAck =
  ka_AgentID :: string
  ka_At :: gotime
  ka_By :: int

record RepoStat =
  rp_AgentID :: string
  rp_CollectedAt :: gotime
  rp_LogicalBytes :: int
  rp_StoredBytes :: int
  rp_BlobCount :: int
  rp_MirroredAt :: "gotime option"
  rp_MirroredBytes :: int

record MirrorHide =
  mh_TargetID :: int
  mh_Device :: string
  mh_At :: gotime
  mh_N :: int

record db =
  db_admins :: "Admin list"
  db_sessions :: "Session list"
  db_targets :: "Target list"
  db_templates :: "Template list"
  db_groups :: "Group list"
  db_agents :: "Agent list"
  db_tokens :: "Token list"
  db_commands :: "Command list"
  db_reports :: "Report list"
  db_settings :: "(string \<times> string) list"
  db_keys :: "DeviceKey list"
  db_jobs :: "Job list"
  db_kit_acks :: "KitAck list"
  db_repo_stats :: "RepoStat list"
  db_mirror_hides :: "MirrorHide list"

definition empty_db :: db where
  "empty_db = \<lparr>db_admins = [], db_sessions = [], db_targets = [], db_templates = [], db_groups = [], db_agents = [],
     db_tokens = [], db_commands = [], db_reports = [], db_settings = [], db_keys = [], db_jobs = [], db_kit_acks = [],
     db_repo_stats = [], db_mirror_hides = []\<rparr>"

abbreviation tsp :: "gotime option \<Rightarrow> gotime option" where "tsp \<equiv> map_option ts"

text \<open>Whether a row with this key exists, for the foreign keys.\<close>

definition has_agent :: "db \<Rightarrow> string \<Rightarrow> bool" where "has_agent d a \<longleftrightarrow> a \<in> ag_ID ` set (db_agents d)"
definition has_group :: "db \<Rightarrow> int \<Rightarrow> bool" where "has_group d i \<longleftrightarrow> i \<in> gr_ID ` set (db_groups d)"
definition has_target :: "db \<Rightarrow> int \<Rightarrow> bool" where "has_target d i \<longleftrightarrow> i \<in> ta_ID ` set (db_targets d)"
definition has_template :: "db \<Rightarrow> int \<Rightarrow> bool" where "has_template d i \<longleftrightarrow> i \<in> te_ID ` set (db_templates d)"
definition has_admin :: "db \<Rightarrow> int \<Rightarrow> bool" where "has_admin d i \<longleftrightarrow> i \<in> ad_ID ` set (db_admins d)"

subsection \<open>Admins and sessions\<close>

definition CreateAdmin :: "string \<Rightarrow> string \<Rightarrow> gotime \<Rightarrow> db \<Rightarrow> store_error + (int \<times> db)" where
  "CreateAdmin email pwHash at d =
     (if email \<in> ad_Email ` set (db_admins d) then Inl SqlErr
      else let i = next_id (map ad_ID (db_admins d)) in
        Inr (i, d\<lparr>db_admins := db_admins d @ [\<lparr>ad_ID = i, ad_Email = email, ad_PWHash = pwHash, ad_Role = ''owner'',
                                              ad_CreatedAt = ts at\<rparr>]\<rparr>))"

definition AdminByEmail :: "string \<Rightarrow> db \<Rightarrow> Admin option" where
  "AdminByEmail email d = find (\<lambda>a. ad_Email a = email) (db_admins d)"

definition AdminByID :: "int \<Rightarrow> db \<Rightarrow> Admin option" where
  "AdminByID i d = find (\<lambda>a. ad_ID a = i) (db_admins d)"

definition Admins :: "db \<Rightarrow> Admin list" where
  "Admins d = sort_key ad_ID (db_admins d)"

definition UpdateAdminPassword :: "int \<Rightarrow> string \<Rightarrow> db \<Rightarrow> store_error option \<times> db" where
  "UpdateAdminPassword i pwHash d =
     (case update_where (\<lambda>a. ad_ID a = i) (\<lambda>a. a\<lparr>ad_PWHash := pwHash\<rparr>) (db_admins d) of (n, rows) \<Rightarrow>
        (if n = 0 then Some ErrNotFound_store else None, d\<lparr>db_admins := rows\<rparr>))"

text \<open>
  The DELETE takes the admin's sessions with it (ON DELETE CASCADE), and fails while a
  recovery kit acknowledgement still references the admin: \<^verbatim>\<open>kit_acks.acknowledged_by\<close> has
  no ON DELETE clause.
\<close>

definition DeleteAdmin :: "int \<Rightarrow> db \<Rightarrow> store_error option \<times> db" where
  "DeleteAdmin i d =
     (if has_admin d i \<and> length (db_admins d) > 1 then
        (if i \<in> ka_By ` set (db_kit_acks d) then (Some SqlErr, d)
         else (None, d\<lparr>db_admins := filter (\<lambda>a. ad_ID a \<noteq> i) (db_admins d),
                       db_sessions := filter (\<lambda>v. se_AdminID v \<noteq> i) (db_sessions d)\<rparr>))
      else if AdminByID i d = None then (Some ErrNotFound_store, d)
      else (Some ErrLastAdmin, d))"

definition CreateSession :: "string \<Rightarrow> int \<Rightarrow> gotime \<Rightarrow> gotime \<Rightarrow> db \<Rightarrow> store_error + (int \<times> db)" where
  "CreateSession tokenHash adminID now expires d =
     (if tokenHash \<in> se_TokenHash ` set (db_sessions d) \<or> \<not> has_admin d adminID then Inl SqlErr
      else let i = next_id (map se_ID (db_sessions d)) in
        Inr (i, d\<lparr>db_sessions := db_sessions d @ [\<lparr>se_ID = i, se_TokenHash = tokenHash, se_AdminID = adminID,
                   se_CreatedAt = ts now, se_ExpiresAt = ts expires, se_RevokedAt = None\<rparr>]\<rparr>))"

definition SessionByHash :: "string \<Rightarrow> db \<Rightarrow> Session option" where
  "SessionByHash h d = find (\<lambda>v. se_TokenHash v = h) (db_sessions d)"

definition RevokeSession :: "int \<Rightarrow> gotime \<Rightarrow> db \<Rightarrow> db" where
  "RevokeSession i at d = d\<lparr>db_sessions := snd (update_where (\<lambda>v. se_ID v = i \<and> se_RevokedAt v = None)
     (\<lambda>v. v\<lparr>se_RevokedAt := Some (ts at)\<rparr>) (db_sessions d))\<rparr>"

definition RevokeSessionsForAdminExcept :: "int \<Rightarrow> int \<Rightarrow> gotime \<Rightarrow> db \<Rightarrow> db" where
  "RevokeSessionsForAdminExcept adminID exceptID at d = d\<lparr>db_sessions := snd (update_where
     (\<lambda>v. se_AdminID v = adminID \<and> se_ID v \<noteq> exceptID \<and> se_RevokedAt v = None)
     (\<lambda>v. v\<lparr>se_RevokedAt := Some (ts at)\<rparr>) (db_sessions d))\<rparr>"

definition RevokeSessionsForAdmin :: "int \<Rightarrow> gotime \<Rightarrow> db \<Rightarrow> db" where
  "RevokeSessionsForAdmin adminID at d = RevokeSessionsForAdminExcept adminID 0 at d"

subsection \<open>Targets and templates\<close>

definition CreateTarget :: "Target \<Rightarrow> db \<Rightarrow> int \<times> db" where
  "CreateTarget t d = (let i = next_id (map ta_ID (db_targets d)) in
     (i, d\<lparr>db_targets := db_targets d @ [t\<lparr>ta_ID := i, ta_ObjectLockVerifiedAt := tsp (ta_ObjectLockVerifiedAt t),
        ta_CreatedAt := ts (ta_CreatedAt t), ta_MirrorLockVerifiedAt := tsp (ta_MirrorLockVerifiedAt t)\<rparr>]\<rparr>))"

definition TargetRow :: "int \<Rightarrow> db \<Rightarrow> Target option" where
  "TargetRow i d = find (\<lambda>t. ta_ID t = i) (db_targets d)"

definition Targets :: "db \<Rightarrow> Target list" where
  "Targets d = sort_key ta_ID (db_targets d)"

definition SetTargetMirror :: "Target \<Rightarrow> db \<Rightarrow> db" where
  "SetTargetMirror t d = d\<lparr>db_targets := snd (update_where (\<lambda>r. ta_ID r = ta_ID t)
     (\<lambda>r. r\<lparr>ta_MirrorKind := ta_MirrorKind t, ta_MirrorBucket := ta_MirrorBucket t, ta_MirrorRegion := ta_MirrorRegion t,
       ta_SealedMirrorKey := ta_SealedMirrorKey t, ta_MirrorLockVerifiedAt := tsp (ta_MirrorLockVerifiedAt t),
       ta_MirrorConditionalPut := ta_MirrorConditionalPut t\<rparr>) (db_targets d))\<rparr>"

definition SetTargetObjectLockVerified :: "int \<Rightarrow> gotime \<Rightarrow> db \<Rightarrow> db" where
  "SetTargetObjectLockVerified i at d = d\<lparr>db_targets := snd (update_where (\<lambda>r. ta_ID r = i)
     (\<lambda>r. r\<lparr>ta_ObjectLockVerifiedAt := Some (ts at)\<rparr>) (db_targets d))\<rparr>"

text \<open>Whether a text unmarshals into a Kopia policy is decided by \<^verbatim>\<open>encoding/json\<close>, the parameter \<open>is_policy\<close>.\<close>

definition normalizePolicyJSON :: "(string \<Rightarrow> bool) \<Rightarrow> string \<Rightarrow> string option" where
  "normalizePolicyJSON is_policy raw = (let trimmed = TrimSpace raw in
     if trimmed = [] then Some ''{}''
     else if \<not> HasPrefix trimmed ''{'' then None
     else if \<not> is_policy trimmed then None else Some trimmed)"

definition CreateTemplate :: "(string \<Rightarrow> bool) \<Rightarrow> Template \<Rightarrow> db \<Rightarrow> (int \<times> db) option" where
  "CreateTemplate is_policy t d = (case normalizePolicyJSON is_policy (te_PolicyJSON t) of
     None \<Rightarrow> None
   | Some pol \<Rightarrow> (let i = next_id (map te_ID (db_templates d)) in
       Some (i, d\<lparr>db_templates := db_templates d @ [t\<lparr>te_ID := i, te_PolicyJSON := pol, te_CreatedAt := ts (te_CreatedAt t)\<rparr>]\<rparr>)))"

definition UpdateTemplate :: "(string \<Rightarrow> bool) \<Rightarrow> Template \<Rightarrow> db \<Rightarrow> db option" where
  "UpdateTemplate is_policy t d = (case normalizePolicyJSON is_policy (te_PolicyJSON t) of
     None \<Rightarrow> None
   | Some pol \<Rightarrow> Some (d\<lparr>db_templates := snd (update_where (\<lambda>r. te_ID r = te_ID t)
       (\<lambda>r. r\<lparr>te_Name := te_Name t, te_Sources := te_Sources t, te_PolicyJSON := pol\<rparr>) (db_templates d))\<rparr>))"

definition TemplateRow :: "int \<Rightarrow> db \<Rightarrow> Template option" where
  "TemplateRow i d = find (\<lambda>t. te_ID t = i) (db_templates d)"

definition Templates :: "db \<Rightarrow> Template list" where
  "Templates d = sort_key te_ID (db_templates d)"

subsection \<open>Groups, tokens and agents\<close>

definition CreateGroup :: "Group \<Rightarrow> db \<Rightarrow> store_error + (int \<times> db)" where
  "CreateGroup g d =
     (if \<not> has_target d (gr_TargetID g) \<or> \<not> has_template d (gr_TemplateID g) then Inl SqlErr
      else let i = next_id (map gr_ID (db_groups d)) in
        Inr (i, d\<lparr>db_groups := db_groups d @ [g\<lparr>gr_ID := i, gr_CreatedAt := ts (gr_CreatedAt g), gr_DeletedAt := None\<rparr>]\<rparr>))"

definition GroupRow :: "int \<Rightarrow> db \<Rightarrow> Group option" where
  "GroupRow i d = find (\<lambda>g. gr_ID g = i \<and> gr_DeletedAt g = None) (db_groups d)"

definition Groups :: "db \<Rightarrow> Group list" where
  "Groups d = sort_key gr_ID (filter (\<lambda>g. gr_DeletedAt g = None) (db_groups d))"

definition unretired_in :: "db \<Rightarrow> int \<Rightarrow> bool" where
  "unretired_in d i \<longleftrightarrow> list_ex (\<lambda>a. ag_GroupID a = i \<and> ag_RetiredAt a = None) (db_agents d)"

text \<open>A NULL argument, \<^const>\<open>None\<close>, leaves its column as it is (COALESCE).\<close>

definition coalesce :: "'a option \<Rightarrow> 'a \<Rightarrow> 'a" where
  "coalesce x y = (case x of Some v \<Rightarrow> v | None \<Rightarrow> y)"

definition fk_ok :: "('a \<Rightarrow> bool) \<Rightarrow> 'a option \<Rightarrow> bool" where
  "fk_ok has x = (case x of Some v \<Rightarrow> has v | None \<Rightarrow> True)"

definition UpdateGroup :: "int \<Rightarrow> string option \<Rightarrow> int option \<Rightarrow> int option \<Rightarrow> db \<Rightarrow> store_error option \<times> db" where
  "UpdateGroup i name targetID templateID d =
     (let p = (\<lambda>g. gr_ID g = i \<and> gr_DeletedAt g = None
                  \<and> (coalesce targetID (gr_TargetID g) = gr_TargetID g \<or> \<not> unretired_in d i));
          f = (\<lambda>g. g\<lparr>gr_Name := coalesce name (gr_Name g), gr_TargetID := coalesce targetID (gr_TargetID g),
                    gr_TemplateID := coalesce templateID (gr_TemplateID g)\<rparr>)
      in case update_where p f (db_groups d) of (n, rows) \<Rightarrow>
        if n > 0 \<and> \<not> (fk_ok (has_target d) targetID \<and> fk_ok (has_template d) templateID) then (Some SqlErr, d)
        else if n = 1 then (None, d\<lparr>db_groups := rows\<rparr>)
        else if GroupRow i d = None then (Some ErrNotFound_store, d)
        else (Some ErrGroupInUse, d))"

text \<open>A token that can still be consumed at \<open>now\<close>, as the two statements that test it write it.\<close>

definition token_live :: "gotime \<Rightarrow> Token \<Rightarrow> bool" where
  "token_live now t \<longleftrightarrow> tk_RevokedAt t = None \<and> tk_ExpiresAt t > ts now \<and> (tk_MaxUses t = 0 \<or> tk_Uses t < tk_MaxUses t)"

definition token_stale :: "gotime \<Rightarrow> Token \<Rightarrow> bool" where
  "token_stale now t \<longleftrightarrow> tk_RevokedAt t \<noteq> None \<or> tk_ExpiresAt t \<le> ts now \<or> tk_MaxUses t > 0 \<and> tk_Uses t \<ge> tk_MaxUses t"

definition DeleteGroup :: "int \<Rightarrow> gotime \<Rightarrow> db \<Rightarrow> store_error option \<times> db" where
  "DeleteGroup i now d =
     (let d1 = d\<lparr>db_tokens := filter (\<lambda>t. \<not> (tk_GroupID t = i \<and> token_stale now t)) (db_tokens d)\<rparr>;
          p = (\<lambda>g. gr_ID g = i \<and> gr_DeletedAt g = None \<and> \<not> unretired_in d1 i
                  \<and> \<not> list_ex (\<lambda>t. tk_GroupID t = i \<and> token_live now t) (db_tokens d1))
      in case update_where p (\<lambda>g. g\<lparr>gr_DeletedAt := Some (ts now)\<rparr>) (db_groups d1) of (n, rows) \<Rightarrow>
        if n = 1 then (None, d1\<lparr>db_groups := rows\<rparr>)
        else if GroupRow i d1 = None then (Some ErrNotFound_store, d1)
        else (Some ErrGroupInUse, d1))"

definition CreateToken :: "Token \<Rightarrow> db \<Rightarrow> store_error + (int \<times> db)" where
  "CreateToken t d =
     (if tk_Hash t \<in> tk_Hash ` set (db_tokens d) \<or> \<not> has_group d (tk_GroupID t) then Inl SqlErr
      else let i = next_id (map tk_ID (db_tokens d)) in
        Inr (i, d\<lparr>db_tokens := db_tokens d @ [t\<lparr>tk_ID := i, tk_ExpiresAt := ts (tk_ExpiresAt t), tk_Uses := 0,
                   tk_RevokedAt := None, tk_CreatedAt := ts (tk_CreatedAt t)\<rparr>]\<rparr>))"

definition TokenByHash :: "string \<Rightarrow> db \<Rightarrow> Token option" where
  "TokenByHash h d = find (\<lambda>t. tk_Hash t = h) (db_tokens d)"

definition ConsumeToken :: "int \<Rightarrow> gotime \<Rightarrow> db \<Rightarrow> bool \<times> db" where
  "ConsumeToken i now d =
     (case update_where (\<lambda>t. tk_ID t = i \<and> token_live now t) (\<lambda>t. t\<lparr>tk_Uses := tk_Uses t + 1\<rparr>) (db_tokens d) of (n, rows) \<Rightarrow>
        (n = 1, d\<lparr>db_tokens := rows\<rparr>))"

definition RevokeToken :: "int \<Rightarrow> gotime \<Rightarrow> db \<Rightarrow> db" where
  "RevokeToken i at d = d\<lparr>db_tokens := snd (update_where (\<lambda>t. tk_ID t = i)
     (\<lambda>t. t\<lparr>tk_RevokedAt := Some (ts at)\<rparr>) (db_tokens d))\<rparr>"

definition TokensForGroup :: "int \<Rightarrow> db \<Rightarrow> Token list" where
  "TokensForGroup g d = rev (sort_key tk_ID (filter (\<lambda>t. tk_GroupID t = g) (db_tokens d)))"

definition CreateAgent :: "Agent \<Rightarrow> db \<Rightarrow> store_error + db" where
  "CreateAgent a d =
     (if has_agent d (ag_ID a) \<or> ag_BearerHash a \<in> ag_BearerHash ` set (db_agents d) \<or> \<not> has_group d (ag_GroupID a)
      then Inl SqlErr
      else Inr (d\<lparr>db_agents := db_agents d @ [a\<lparr>ag_EnrolledAt := ts (ag_EnrolledAt a), ag_LastSeenAt := tsp (ag_LastSeenAt a),
                   ag_RevokedAt := tsp (ag_RevokedAt a), ag_RetiredAt := tsp (ag_RetiredAt a)\<rparr>]\<rparr>))"

definition AgentRow :: "string \<Rightarrow> db \<Rightarrow> Agent option" where
  "AgentRow i d = find (\<lambda>a. ag_ID a = i) (db_agents d)"

definition AgentByBearerHash :: "string \<Rightarrow> db \<Rightarrow> Agent option" where
  "AgentByBearerHash h d = find (\<lambda>a. ag_BearerHash a = h) (db_agents d)"

definition Agents :: "db \<Rightarrow> Agent list" where
  "Agents d = sort_key ag_EnrolledAt (db_agents d)"

definition TouchAgent :: "string \<Rightarrow> gotime \<Rightarrow> string \<Rightarrow> string \<Rightarrow> db \<Rightarrow> db" where
  "TouchAgent i at version etag d = d\<lparr>db_agents := snd (update_where (\<lambda>a. ag_ID a = i)
     (\<lambda>a. a\<lparr>ag_LastSeenAt := Some (ts at), ag_Version := version, ag_PolicyETag := etag\<rparr>) (db_agents d))\<rparr>"

definition RevokeAgent :: "string \<Rightarrow> gotime \<Rightarrow> db \<Rightarrow> db" where
  "RevokeAgent i at d = d\<lparr>db_agents := snd (update_where (\<lambda>a. ag_ID a = i)
     (\<lambda>a. a\<lparr>ag_RevokedAt := Some (ts at)\<rparr>) (db_agents d))\<rparr>"

definition SetAgentBundle :: "string \<Rightarrow> string \<Rightarrow> db \<Rightarrow> store_error option \<times> db" where
  "SetAgentBundle i sealed d =
     (case update_where (\<lambda>a. ag_ID a = i) (\<lambda>a. a\<lparr>ag_SealedBundle := sealed\<rparr>) (db_agents d) of (n, rows) \<Rightarrow>
        (if n = 0 then Some ErrNotFound_store else None, d\<lparr>db_agents := rows\<rparr>))"

text \<open>The transaction rolls back where another table still references the agent.\<close>

definition agent_referenced :: "db \<Rightarrow> string \<Rightarrow> bool" where
  "agent_referenced d i \<longleftrightarrow> i \<in> re_AgentID ` set (db_reports d) \<or> i \<in> co_AgentID ` set (db_commands d)
     \<or> i \<noteq> [] \<and> i \<in> jo_AgentID ` set (db_jobs d) \<or> i \<in> ka_AgentID ` set (db_kit_acks d) \<or> i \<in> rp_AgentID ` set (db_repo_stats d)"

definition DeleteAgent :: "string \<Rightarrow> db \<Rightarrow> store_error option \<times> db" where
  "DeleteAgent i d =
     (if has_agent d i \<and> agent_referenced d i then (Some SqlErr, d)
      else (None, d\<lparr>db_keys := filter (\<lambda>k. dk_AgentID k \<noteq> i) (db_keys d),
                    db_agents := filter (\<lambda>a. ag_ID a \<noteq> i) (db_agents d)\<rparr>))"

definition RetireAgent :: "string \<Rightarrow> gotime \<Rightarrow> db \<Rightarrow> db" where
  "RetireAgent i at d = d\<lparr>db_agents := snd (update_where (\<lambda>a. ag_ID a = i \<and> ag_RetiredAt a = None)
     (\<lambda>a. a\<lparr>ag_RetiredAt := Some (ts at)\<rparr>) (db_agents d))\<rparr>"

definition CreateDeviceKeyRow :: "DeviceKey \<Rightarrow> db \<Rightarrow> store_error + db" where
  "CreateDeviceKeyRow k d =
     (if \<not> has_agent d (dk_AgentID k) then Inl SqlErr
      else case CreateDeviceKey k (db_keys d) of None \<Rightarrow> Inl SqlErr | Some rows \<Rightarrow> Inr (d\<lparr>db_keys := rows\<rparr>))"

subsection \<open>Commands, reports and settings\<close>

definition AddCommand :: "Command \<Rightarrow> db \<Rightarrow> store_error + (int \<times> db)" where
  "AddCommand c d =
     (if \<not> has_agent d (co_AgentID c) then Inl SqlErr
      else let i = next_id (map co_ID (db_commands d)) in
        Inr (i, d\<lparr>db_commands := db_commands d @ [c\<lparr>co_ID := i, co_CreatedAt := ts (co_CreatedAt c), co_AckedAt := None\<rparr>]\<rparr>))"

definition PendingCommands :: "string \<Rightarrow> db \<Rightarrow> Command list" where
  "PendingCommands agentID d = sort_key co_ID (filter (\<lambda>c. co_AgentID c = agentID \<and> co_AckedAt c = None) (db_commands d))"

definition CommandAgentID :: "int \<Rightarrow> db \<Rightarrow> string option" where
  "CommandAgentID i d = map_option co_AgentID (find (\<lambda>c. co_ID c = i) (db_commands d))"

definition AckCommand :: "int \<Rightarrow> string \<Rightarrow> gotime \<Rightarrow> db \<Rightarrow> store_error option \<times> db" where
  "AckCommand i agentID at d =
     (case update_where (\<lambda>c. co_ID c = i \<and> co_AgentID c = agentID \<and> co_AckedAt c = None)
             (\<lambda>c. c\<lparr>co_AckedAt := Some (ts at)\<rparr>) (db_commands d) of (n, rows) \<Rightarrow>
        (if n = 0 then Some ErrNotFound_store else None, d\<lparr>db_commands := rows\<rparr>))"

definition ReportRow :: "string \<Rightarrow> string \<Rightarrow> db \<Rightarrow> Report option" where
  "ReportRow agentID taskID d = find (\<lambda>r. re_AgentID r = agentID \<and> re_TaskID r = taskID) (db_reports d)"

definition AddReport :: "Report \<Rightarrow> db \<Rightarrow> store_error + (int \<times> db)" where
  "AddReport r d =
     (case ReportRow (re_AgentID r) (re_TaskID r) d of
        Some old \<Rightarrow> Inr (re_ID old, d)
      | None \<Rightarrow>
          if \<not> has_agent d (re_AgentID r) then Inl SqlErr
          else let i = next_id (map re_ID (db_reports d)) in
            Inr (i, d\<lparr>db_reports := db_reports d @ [r\<lparr>re_ID := i, re_StartedAt := ts (re_StartedAt r), re_FinishedAt := ts (re_FinishedAt r)\<rparr>]\<rparr>))"

text \<open>\<^verbatim>\<open>ORDER BY finished_at DESC, id DESC\<close>.\<close>

definition newest_first :: "Report list \<Rightarrow> Report list" where
  "newest_first rs = rev (sort_key re_FinishedAt (sort_key re_ID rs))"

definition ReportsForAgent :: "string \<Rightarrow> nat \<Rightarrow> db \<Rightarrow> Report list" where
  "ReportsForAgent agentID limit d = take limit (newest_first (filter (\<lambda>r. re_AgentID r = agentID) (db_reports d)))"

definition ok_snapshot :: "Report \<Rightarrow> bool" where
  "ok_snapshot r \<longleftrightarrow> re_Status r = ''ok'' \<and> re_Kind r = ''snapshot''"

definition first_of :: "'a list \<Rightarrow> 'a option" where
  "first_of xs = (case xs of [] \<Rightarrow> None | x # _ \<Rightarrow> Some x)"

definition LastOKReport :: "string \<Rightarrow> db \<Rightarrow> Report option" where
  "LastOKReport agentID d = first_of (newest_first (filter (\<lambda>r. re_AgentID r = agentID \<and> ok_snapshot r) (db_reports d)))"

text \<open>The batch queries, as the lookup of an agent in the map they return.\<close>

definition LatestReports :: "db \<Rightarrow> string \<Rightarrow> Report option" where
  "LatestReports d agentID = find (\<lambda>r. re_AgentID r = agentID \<and>
     Some (re_ID r) = map_option re_ID (first_of (newest_first (filter (\<lambda>q. re_AgentID q = re_AgentID r) (db_reports d))))) (db_reports d)"

definition LastOKReports :: "db \<Rightarrow> string \<Rightarrow> gotime option" where
  "LastOKReports d agentID = map_option re_FinishedAt (find (\<lambda>r. re_AgentID r = agentID \<and>
     Some (re_ID r) = map_option re_ID (first_of (newest_first
       (filter (\<lambda>q. re_AgentID q = re_AgentID r \<and> ok_snapshot q) (db_reports d))))) (db_reports d))"

definition ReportsBetween :: "gotime \<Rightarrow> gotime \<Rightarrow> db \<Rightarrow> Report list" where
  "ReportsBetween since until d = sort_key re_FinishedAt (sort_key re_ID
     (filter (\<lambda>r. ts since \<le> re_FinishedAt r \<and> re_FinishedAt r \<le> ts until) (db_reports d)))"

definition Setting :: "string \<Rightarrow> db \<Rightarrow> string" where
  "Setting key d = (case map_of (db_settings d) key of Some v \<Rightarrow> v | None \<Rightarrow> [])"

definition SetSetting :: "string \<Rightarrow> string \<Rightarrow> db \<Rightarrow> db" where
  "SetSetting key v d = d\<lparr>db_settings := AList.update key v (db_settings d)\<rparr>"

definition SetSettings :: "(string \<times> string) list \<Rightarrow> db \<Rightarrow> db" where
  "SetSettings kv d = fold (\<lambda>(k, v). SetSetting k v) kv d"

text \<open>The settings half of a migration: a renamed key keeps its value unless the new name is already in use.\<close>

definition renamedSettings :: "(string \<times> string) list" where
  "renamedSettings = [(''fleet_repo_password'', ''sealed_fleet_repo_password'')]"

definition rename_setting :: "string \<times> string \<Rightarrow> db \<Rightarrow> db" where
  "rename_setting r d = (case r of (from, to) \<Rightarrow>
     let s1 = (case map_of (db_settings d) from of
                 Some v \<Rightarrow> (if map_of (db_settings d) to = None then db_settings d @ [(to, v)] else db_settings d)
               | None \<Rightarrow> db_settings d)
     in d\<lparr>db_settings := AList.delete from s1\<rparr>)"

definition migrate_settings :: "db \<Rightarrow> db" where
  "migrate_settings d = fold rename_setting renamedSettings d"

subsection \<open>Kit acknowledgements, statistics and mirror hides\<close>

definition SetKitAck :: "string \<Rightarrow> int \<Rightarrow> gotime \<Rightarrow> db \<Rightarrow> store_error + db" where
  "SetKitAck agentID adminID at d =
     (if \<not> has_agent d agentID \<or> \<not> has_admin d adminID then Inl SqlErr
      else let k = \<lparr>ka_AgentID = agentID, ka_At = ts at, ka_By = adminID\<rparr> in
        Inr (d\<lparr>db_kit_acks := (if agentID \<in> ka_AgentID ` set (db_kit_acks d)
          then snd (update_where (\<lambda>r. ka_AgentID r = agentID) (\<lambda>_. k) (db_kit_acks d))
          else db_kit_acks d @ [k])\<rparr>))"

definition KitAckAt :: "string \<Rightarrow> db \<Rightarrow> gotime option" where
  "KitAckAt agentID d = map_option ka_At (find (\<lambda>r. ka_AgentID r = agentID) (db_kit_acks d))"

definition RepoStatRow :: "string \<Rightarrow> db \<Rightarrow> RepoStat option" where
  "RepoStatRow agentID d = find (\<lambda>r. rp_AgentID r = agentID) (db_repo_stats d)"

definition upsert_stat :: "string \<Rightarrow> RepoStat \<Rightarrow> (RepoStat \<Rightarrow> RepoStat) \<Rightarrow> db \<Rightarrow> store_error + db" where
  "upsert_stat agentID new f d =
     (if \<not> has_agent d agentID then Inl SqlErr
      else Inr (d\<lparr>db_repo_stats := (if agentID \<in> rp_AgentID ` set (db_repo_stats d)
          then snd (update_where (\<lambda>r. rp_AgentID r = agentID) f (db_repo_stats d))
          else db_repo_stats d @ [new])\<rparr>))"

definition SetMirrored :: "string \<Rightarrow> gotime \<Rightarrow> int \<Rightarrow> db \<Rightarrow> store_error + db" where
  "SetMirrored agentID at bytes = upsert_stat agentID
     \<lparr>rp_AgentID = agentID, rp_CollectedAt = ts at, rp_LogicalBytes = 0, rp_StoredBytes = 0, rp_BlobCount = 0,
      rp_MirroredAt = Some (ts at), rp_MirroredBytes = bytes\<rparr>
     (\<lambda>r. r\<lparr>rp_MirroredAt := Some (ts at), rp_MirroredBytes := bytes\<rparr>)"

definition SetStats :: "string \<Rightarrow> gotime \<Rightarrow> int \<Rightarrow> int \<Rightarrow> int \<Rightarrow> db \<Rightarrow> store_error + db" where
  "SetStats agentID at logicalBytes storedBytes blobCount = upsert_stat agentID
     \<lparr>rp_AgentID = agentID, rp_CollectedAt = ts at, rp_LogicalBytes = logicalBytes, rp_StoredBytes = storedBytes,
      rp_BlobCount = blobCount, rp_MirroredAt = None, rp_MirroredBytes = 0\<rparr>
     (\<lambda>r. r\<lparr>rp_CollectedAt := ts at, rp_LogicalBytes := logicalBytes, rp_StoredBytes := storedBytes, rp_BlobCount := blobCount\<rparr>)"

definition hides_since :: "gotime \<Rightarrow> int \<Rightarrow> string \<Rightarrow> MirrorHide list \<Rightarrow> int" where
  "hides_since since targetID device hs =
     sum_list (map mh_N (filter (\<lambda>h. mh_TargetID h = targetID \<and> mh_Device h = device \<and> ts since \<le> mh_At h) hs))"

definition ReserveMirrorHides :: "int \<Rightarrow> string \<Rightarrow> gotime \<Rightarrow> gotime \<Rightarrow> int \<Rightarrow> int \<Rightarrow> db \<Rightarrow> (int \<times> bool) \<times> db" where
  "ReserveMirrorHides targetID device at since n limit d =
     (let kept = filter (\<lambda>h. \<not> mh_At h < ts since) (db_mirror_hides d);
          earlier = hides_since since targetID device kept
      in if earlier + n > limit then ((earlier, False), d)
         else ((earlier, True), d\<lparr>db_mirror_hides := kept @ [\<lparr>mh_TargetID = targetID, mh_Device = device, mh_At = ts at, mh_N = n\<rparr>]\<rparr>))"

subsection \<open>Keys of rows\<close>

lemma foldr_max_ge: "x \<in> set xs \<Longrightarrow> x \<le> foldr max xs (b :: int)"
  by (induction xs) (auto simp: max_def)

lemma next_id_fresh: "next_id xs \<notin> set xs"
  using foldr_max_ge[of "next_id xs" xs 0] by (auto simp: next_id_def)

lemma next_id_greater: "x \<in> set xs \<Longrightarrow> x < next_id xs"
  using foldr_max_ge[of x xs 0] by (simp add: next_id_def)

text \<open>An UPDATE that leaves a column alone leaves its values alone, in each row and as a set.\<close>

lemma update_where_column:
  assumes "\<And>r. k (f r) = k r"
  shows "map k (snd (update_where p f rows)) = map k rows"
    and "k ` set (snd (update_where p f rows)) = k ` set rows"
proof -
  show "map k (snd (update_where p f rows)) = map k rows" using assms by (simp add: update_where_def)
  from arg_cong[OF this, of set] show "k ` set (snd (update_where p f rows)) = k ` set rows" by simp
qed

end
