(* ===== verification/Job_Queue.thy ===== *)
theory Job_Queue
  imports Fleet_Store
begin

section \<open>The job table\<close>

text \<open>
  Models \<^verbatim>\<open>src/fleet/store/jobs.go\<close> and \<^verbatim>\<open>reap.go\<close>: the statements on the jobs table. A
  claim picks and marks its row in one UPDATE.
\<close>

definition maxDetail :: nat where "maxDetail = 4000"

definition RuneStart :: "char \<Rightarrow> bool" where
  "RuneStart c \<longleftrightarrow> \<not> byte_in 128 191 c"

text \<open>The loop of \<^verbatim>\<open>truncate\<close>: back up to a rune boundary. The suffix is the UTF-8 of an ellipsis.\<close>

fun rune_boundary :: "string \<Rightarrow> nat \<Rightarrow> nat" where
  "rune_boundary s 0 = 0"
| "rune_boundary s (Suc n) = (if \<not> RuneStart (s ! Suc n) then rune_boundary s n else Suc n)"

definition truncate :: "string \<Rightarrow> nat \<Rightarrow> string" where
  "truncate s n = (if length s \<le> n then s
     else take (rune_boundary s n) s @ [CHR 0xE2, CHR 0x80, CHR 0xA6])"

datatype job_error = NoKind | JobSqlErr | JobNotFound

definition EnqueueJob :: "Job \<Rightarrow> db \<Rightarrow> job_error + (int \<times> db)" where
  "EnqueueJob j d =
     (if jo_Kind j = [] then Inl NoKind
      else if jo_AgentID j \<noteq> [] \<and> \<not> has_agent d (jo_AgentID j) then Inl JobSqlErr
      else let i = next_id (map jo_ID (db_jobs d)) in
        Inr (i, d\<lparr>db_jobs := db_jobs d @ [\<lparr>jo_ID = i, jo_Kind = jo_Kind j, jo_AgentID = jo_AgentID j,
          jo_ScheduledFor = ts (jo_ScheduledFor j), jo_StartedAt = tsp (jo_StartedAt j), jo_FinishedAt = tsp (jo_FinishedAt j),
          jo_Status = (if jo_Status j = [] then ''pending'' else jo_Status j),
          jo_Detail = truncate (jo_Detail j) maxDetail\<rparr>]\<rparr>))"

definition due :: "gotime \<Rightarrow> Job \<Rightarrow> bool" where
  "due now j \<longleftrightarrow> jo_Status j = ''pending'' \<and> jo_ScheduledFor j \<le> ts now"

definition oldest_due :: "gotime \<Rightarrow> Job list \<Rightarrow> Job option" where
  "oldest_due now js = first_of (sort_key jo_ScheduledFor (sort_key jo_ID (filter (due now) js)))"

definition mark_running :: "gotime \<Rightarrow> Job \<Rightarrow> Job" where
  "mark_running now j = j\<lparr>jo_Status := ''running'', jo_StartedAt := Some (ts now)\<rparr>"

definition ClaimDueJob :: "gotime \<Rightarrow> db \<Rightarrow> (Job \<times> db) option" where
  "ClaimDueJob now d = (case oldest_due now (db_jobs d) of
     None \<Rightarrow> None
   | Some j \<Rightarrow> Some (mark_running now j,
       d\<lparr>db_jobs := snd (update_where (\<lambda>r. jo_ID r = jo_ID j) (mark_running now) (db_jobs d))\<rparr>))"

definition FinishJob :: "int \<Rightarrow> gotime \<Rightarrow> string \<Rightarrow> string \<Rightarrow> db \<Rightarrow> job_error option \<times> db" where
  "FinishJob i at status detail d =
     (case update_where (\<lambda>r. jo_ID r = i)
             (\<lambda>r. r\<lparr>jo_Status := status, jo_FinishedAt := Some (ts at), jo_Detail := truncate detail maxDetail\<rparr>) (db_jobs d)
      of (n, rows) \<Rightarrow> (if n = 0 then Some JobNotFound else None, d\<lparr>db_jobs := rows\<rparr>))"

definition stale :: "string \<Rightarrow> gotime \<Rightarrow> Job \<Rightarrow> bool" where
  "stale kind cutoff r \<longleftrightarrow> jo_Status r = ''running'' \<and> jo_Kind r = kind
     \<and> (case jo_StartedAt r of None \<Rightarrow> True | Some t \<Rightarrow> t < ts cutoff)"

definition RequeueStaleJobs :: "string \<Rightarrow> gotime \<Rightarrow> db \<Rightarrow> nat \<times> db" where
  "RequeueStaleJobs kind cutoff d =
     (case update_where (stale kind cutoff) (\<lambda>r. r\<lparr>jo_Status := ''pending'', jo_StartedAt := None\<rparr>) (db_jobs d)
      of (n, rows) \<Rightarrow> (n, d\<lparr>db_jobs := rows\<rparr>))"

definition jobLimit :: "int \<Rightarrow> nat" where
  "jobLimit limit = (if limit \<le> 0 then 50 else nat limit)"

definition JobsForAgent :: "string \<Rightarrow> int \<Rightarrow> db \<Rightarrow> Job list" where
  "JobsForAgent agentID limit d = take (jobLimit limit)
     (rev (sort_key jo_ID (filter (\<lambda>j. agentID \<noteq> [] \<and> jo_AgentID j = agentID) (db_jobs d))))"

definition RecentJobs :: "string \<Rightarrow> int \<Rightarrow> db \<Rightarrow> Job list" where
  "RecentJobs kind limit d = take (jobLimit limit)
     (rev (sort_key jo_ID (if kind = [] then db_jobs d else filter (\<lambda>j. jo_Kind j = kind) (db_jobs d))))"

definition ScheduleReap :: "string \<Rightarrow> gotime \<Rightarrow> db \<Rightarrow> store_error + (int \<times> db)" where
  "ScheduleReap agentID at d =
     (if \<not> has_agent d agentID then Inl SqlErr
      else let i = next_id (map jo_ID (db_jobs d)) in
        Inr (i, d\<lparr>db_jobs := db_jobs d @ [\<lparr>jo_ID = i, jo_Kind = ''reap'', jo_AgentID = agentID, jo_ScheduledFor = ts at,
          jo_StartedAt = None, jo_FinishedAt = None, jo_Status = ''pending'', jo_Detail = []\<rparr>]\<rparr>))"

definition PendingReaps :: "string \<Rightarrow> db \<Rightarrow> gotime list" where
  "PendingReaps agentID d = sort (map jo_ScheduledFor
     (filter (\<lambda>j. jo_Kind j = ''reap'' \<and> jo_AgentID j = agentID \<and> jo_Status j = ''pending'') (db_jobs d)))"

end
