(* ===== verification/Scheduler.thy ===== *)
theory Scheduler
  imports Job_Queue
begin

section \<open>The job scheduler\<close>

text \<open>
  Models \<^verbatim>\<open>src/fleet/jobs/scheduler.go\<close>: the cadence of the interval kinds, the requeueing
  of claims a crash left behind, and the loop that claims, runs and records due jobs one at
  a time. The runners are parameters: a runner takes a job and the database and returns,
  or panics. Each reading of the clock is an argument of the step that takes it; the
  goroutine, its ticker and Stop are not modelled.
\<close>

subsection \<open>Cadence\<close>

record interval =
  iv_setting :: string
  iv_def :: duration
  iv_min :: duration

definition day :: duration where "day = 24 * hour"

definition intervals :: "(string \<times> interval) list" where
  "intervals =
    [(''mirror'', \<lparr>iv_setting = ''mirror_interval'', iv_def = hour, iv_min = 5 * minute\<rparr>),
     (''verify'', \<lparr>iv_setting = ''verify_interval'', iv_def = 7 * day, iv_min = hour\<rparr>),
     (''test-restore'', \<lparr>iv_setting = ''test_restore_interval'', iv_def = 30 * day, iv_min = hour\<rparr>),
     (''maintenance'', \<lparr>iv_setting = ''maintenance_interval'', iv_def = day, iv_min = hour\<rparr>),
     (''reap'', \<lparr>iv_setting = ''reap_interval'', iv_def = day, iv_min = hour\<rparr>),
     (''stats'', \<lparr>iv_setting = ''stats_interval'', iv_def = day, iv_min = hour\<rparr>),
     (''digest'', \<lparr>iv_setting = ''digest_interval'', iv_def = 7 * day, iv_min = day\<rparr>)]"

definition maxIntervalSeconds :: int where "maxIntervalSeconds = 365 * 24 * 60 * 60"

text \<open>The product is one of 64-bit integers.\<close>

definition mul64 :: "int \<Rightarrow> int \<Rightarrow> int" where
  "mul64 x y = wrap64 (x * y)"

definition intervalFor :: "db \<Rightarrow> interval \<Rightarrow> duration" where
  "intervalFor d iv =
     (let v = Setting (iv_setting iv) d in
      if v = [] then iv_def iv
      else case ParseInt64 v of
        None \<Rightarrow> iv_def iv
      | Some secs \<Rightarrow>
          if secs < 0 then iv_min iv
          else (let secs' = (if secs > maxIntervalSeconds then maxIntervalSeconds else secs);
                    t = mul64 secs' second
                in if t \<ge> iv_min iv then t else iv_min iv))"

record IntervalSetting =
  is_Kind :: string
  is_DefaultSeconds :: int
  is_MinSeconds :: int
  is_MaxSeconds :: int

definition IntervalSettings :: "(string \<times> IntervalSetting) list" where
  "IntervalSettings = map (\<lambda>(kind, iv). (iv_setting iv, \<lparr>is_Kind = kind, is_DefaultSeconds = iv_def iv div second,
     is_MinSeconds = iv_min iv div second, is_MaxSeconds = maxIntervalSeconds\<rparr>)) intervals"

definition IntervalSeconds :: "db \<Rightarrow> (string \<times> int) list" where
  "IntervalSeconds d = map (\<lambda>(kind, iv). (iv_setting iv, intervalFor d iv div second)) intervals"

definition MirrorStale :: "gotime option \<Rightarrow> gotime \<Rightarrow> duration \<Rightarrow> bool" where
  "MirrorStale at now every = (case at of None \<Rightarrow> True | Some t \<Rightarrow> time_sub now t > mul64 3 every)"

definition MirrorInterval :: "db \<Rightarrow> duration" where
  "MirrorInterval d = intervalFor d (the (map_of intervals ''mirror''))"

subsection \<open>One job\<close>

datatype run_err = ErrSkipped | RunErr string

datatype outcome = Returned string "run_err option" | Panicked string

type_synonym runner = "Job \<Rightarrow> db \<Rightarrow> outcome \<times> db"

record Scheduler =
  sc_runners :: "(string \<times> runner) list"
  sc_Timeout :: duration
  sc_Timeouts :: "(string \<times> duration) list"

definition DefaultTimeout :: duration where "DefaultTimeout = 6 * hour"

definition NewScheduler :: "(string \<times> runner) list \<Rightarrow> Scheduler" where
  "NewScheduler runners = \<lparr>sc_runners = runners, sc_Timeout = DefaultTimeout, sc_Timeouts = []\<rparr>"

definition timeout :: "Scheduler \<Rightarrow> string \<Rightarrow> duration" where
  "timeout sc kind =
     (case map_of (sc_Timeouts sc) kind of
        Some d \<Rightarrow> if d > 0 then d else if sc_Timeout sc > 0 then sc_Timeout sc else DefaultTimeout
      | None \<Rightarrow> if sc_Timeout sc > 0 then sc_Timeout sc else DefaultTimeout)"

definition exec_job :: "Scheduler \<Rightarrow> Job \<Rightarrow> db \<Rightarrow> (string \<times> run_err option) \<times> db" where
  "exec_job sc j d =
     (case map_of (sc_runners sc) (jo_Kind j) of
        None \<Rightarrow> (([], Some (RunErr (''no runner for kind '' @ jo_Kind j))), d)
      | Some r \<Rightarrow>
          (case r j d of
             (Returned detail err, d') \<Rightarrow> ((detail, err), d')
           | (Panicked p, d') \<Rightarrow> (([], Some (RunErr (''panic: '' @ p))), d')))"

definition run_status :: "string \<Rightarrow> run_err option \<Rightarrow> string \<times> string" where
  "run_status detail err = (case err of
     None \<Rightarrow> (''ok'', detail)
   | Some ErrSkipped \<Rightarrow> (''skipped'', detail)
   | Some (RunErr e) \<Rightarrow> (''error'', if detail = [] then e else detail))"

definition runOne :: "Scheduler \<Rightarrow> gotime \<Rightarrow> gotime \<Rightarrow> db \<Rightarrow> bool \<times> db" where
  "runOne sc now1 now2 d =
     (case ClaimDueJob now1 d of
        None \<Rightarrow> (False, d)
      | Some (j, d1) \<Rightarrow>
          (case exec_job sc j d1 of ((detail, err), d2) \<Rightarrow>
             (case run_status detail err of (status, detail') \<Rightarrow>
                (True, snd (FinishJob (jo_ID j) now2 status detail' d2)))))"

subsection \<open>A tick\<close>

definition requeueStale :: "Scheduler \<Rightarrow> gotime \<Rightarrow> db \<Rightarrow> db" where
  "requeueStale sc now d = fold (\<lambda>(kind, r) d. snd (RequeueStaleJobs kind (now - timeout sc kind) d)) (sc_runners sc) d"

text \<open>Whether a kind's next job is enqueued: its newest row is closed and finished long enough ago.\<close>

definition wants_job :: "gotime \<Rightarrow> duration \<Rightarrow> Job list \<Rightarrow> bool" where
  "wants_job now every recent = (case recent of
     [] \<Rightarrow> True
   | newest # _ \<Rightarrow>
       if jo_Status newest = ''pending'' \<or> jo_Status newest = ''running'' then False
       else case jo_FinishedAt newest of
         None \<Rightarrow> True
       | Some t \<Rightarrow> \<not> time_sub now t < every)"

definition interval_job :: "string \<Rightarrow> gotime \<Rightarrow> Job" where
  "interval_job kind now = \<lparr>jo_ID = 0, jo_Kind = kind, jo_AgentID = [], jo_ScheduledFor = now, jo_StartedAt = None,
     jo_FinishedAt = None, jo_Status = [], jo_Detail = []\<rparr>"

definition enqueue_interval :: "Scheduler \<Rightarrow> gotime \<Rightarrow> string \<times> interval \<Rightarrow> db \<Rightarrow> db" where
  "enqueue_interval sc now ki d = (case ki of (kind, iv) \<Rightarrow>
     if map_of (sc_runners sc) kind = None then d
     else if \<not> wants_job now (intervalFor d iv) (RecentJobs kind 1 d) then d
     else case EnqueueJob (interval_job kind now) d of
       Inl err \<Rightarrow> d
     | Inr (i, d') \<Rightarrow> d')"

text \<open>
  The map of intervals is ranged over in an arbitrary order; the kinds are independent, so
  the model takes them in the order of the declaration.
\<close>

definition enqueueIntervals :: "Scheduler \<Rightarrow> gotime \<Rightarrow> db \<Rightarrow> db" where
  "enqueueIntervals sc now d = fold (enqueue_interval sc now) intervals d"

text \<open>
  The inner loop of \<^verbatim>\<open>run\<close>: one triple per iteration, whether the context is done and the
  two clock readings of runOne. \<^const>\<open>None\<close> where the readings run out before the loop ends.
\<close>

fun drain :: "Scheduler \<Rightarrow> (bool \<times> gotime \<times> gotime) list \<Rightarrow> db \<Rightarrow> db option" where
  "drain sc [] d = None"
| "drain sc ((cancelled, now1, now2) # rest) d =
     (if cancelled then Some d
      else case runOne sc now1 now2 d of
        (True, d') \<Rightarrow> drain sc rest d'
      | (False, d') \<Rightarrow> Some d')"

definition scheduler_tick :: "Scheduler \<Rightarrow> gotime \<Rightarrow> gotime \<Rightarrow> (bool \<times> gotime \<times> gotime) list \<Rightarrow> db \<Rightarrow> db option" where
  "scheduler_tick sc now1 now2 readings d = drain sc readings (enqueueIntervals sc now2 (requeueStale sc now1 d))"

end
