(* ===== verification/Scheduler_Correct.thy ===== *)
theory Scheduler_Correct
  imports Scheduler
begin

section \<open>Correctness of the scheduler\<close>

text \<open>
  A job is never claimed twice without having been requeued in between; the loop of a tick
  ends and leaves no due job behind; the scheduler keeps at most one open job of each
  interval kind; every cadence stays within its bounds.
\<close>

subsection \<open>Rows and ids\<close>

lemma update_where_simps [simp]:
  "fst (update_where p f rows) = length (filter p rows)"
  "snd (update_where p f rows) = map (\<lambda>r. if p r then f r else r) rows"
  by (simp_all add: update_where_def)

definition job_ids :: "db \<Rightarrow> int list" where "job_ids d = map jo_ID (db_jobs d)"

lemma mark_running_simps [simp]: "jo_ID (mark_running now j) = jo_ID j" "jo_Status (mark_running now j) = ''running''"
    "jo_Kind (mark_running now j) = jo_Kind j"
  by (simp_all add: mark_running_def)

text \<open>An enqueue appends one row with a new id.\<close>

lemma EnqueueJob_row: "EnqueueJob j d = Inr (i, d') \<Longrightarrow>
    \<exists>r. db_jobs d' = db_jobs d @ [r] \<and> jo_ID r = next_id (map jo_ID (db_jobs d)) \<and> jo_Kind r = jo_Kind j"
  by (auto simp: EnqueueJob_def Let_def split: if_splits)

lemma ScheduleReap_row: "ScheduleReap a at d = Inr (i, d') \<Longrightarrow>
    \<exists>r. db_jobs d' = db_jobs d @ [r] \<and> jo_ID r = next_id (map jo_ID (db_jobs d)) \<and> jo_Kind r = ''reap'' \<and> jo_Status r = ''pending''"
  by (auto simp: ScheduleReap_def Let_def split: if_splits)

subsection \<open>Claims\<close>

lemma oldest_due_Some:
  assumes "oldest_due now js = Some j"
  shows "j \<in> set js" "due now j"
    and "\<And>k. k \<in> set js \<Longrightarrow> due now k \<Longrightarrow> jo_ScheduledFor j \<le> jo_ScheduledFor k"
proof -
  let ?s = "sort_key jo_ScheduledFor (sort_key jo_ID (filter (due now) js))"
  from assms obtain rest where s: "?s = j # rest"
    by (auto simp: oldest_due_def first_of_def split: list.splits)
  have "set ?s = {k \<in> set js. due now k}" by auto
  with s show "j \<in> set js" "due now j" by (metis (no_types, lifting) list.set_intros(1) mem_Collect_eq)+
  have "sorted (map jo_ScheduledFor ?s)" by (rule sorted_sort_key)
  then show "\<And>k. k \<in> set js \<Longrightarrow> due now k \<Longrightarrow> jo_ScheduledFor j \<le> jo_ScheduledFor k"
    using s \<open>set ?s = _\<close> by auto
qed

lemma oldest_due_None: "oldest_due now js = None \<longleftrightarrow> (\<forall>j \<in> set js. \<not> due now j)"
proof -
  let ?s = "sort_key jo_ScheduledFor (sort_key jo_ID (filter (due now) js))"
  have "set ?s = {k \<in> set js. due now k}" by auto
  then have "?s = [] \<longleftrightarrow> (\<forall>j \<in> set js. \<not> due now j)" using set_empty[of ?s] by auto
  then show ?thesis by (auto simp: oldest_due_def first_of_def split: list.splits)
qed

lemma ClaimDueJob_Some:
  assumes "ClaimDueJob now d = Some (j, d')"
  obtains r where "r \<in> set (db_jobs d)" "due now r" "j = mark_running now r"
    "d' = d\<lparr>db_jobs := map (\<lambda>q. if jo_ID q = jo_ID r then mark_running now q else q) (db_jobs d)\<rparr>"
proof -
  from assms obtain r where r: "oldest_due now (db_jobs d) = Some r" "j = mark_running now r"
    "d' = d\<lparr>db_jobs := map (\<lambda>q. if jo_ID q = jo_ID r then mark_running now q else q) (db_jobs d)\<rparr>"
    by (auto simp: ClaimDueJob_def split: option.splits)
  with oldest_due_Some(1,2)[OF r(1)] show thesis by (intro that)
qed

lemma ClaimDueJob_None: "ClaimDueJob now d = None \<longleftrightarrow> (\<forall>j \<in> set (db_jobs d). \<not> due now j)"
proof -
  have "ClaimDueJob now d = None \<longleftrightarrow> oldest_due now (db_jobs d) = None" by (simp add: ClaimDueJob_def split: option.split)
  then show ?thesis by (simp only: oldest_due_None)
qed

subsection \<open>No job is claimed twice\<close>

datatype job_event = Enqueued int | Claimed int | Finished int | Requeued "int list"

definition closed_status :: "string \<Rightarrow> bool" where
  "closed_status s \<longleftrightarrow> s = ''ok'' \<or> s = ''error'' \<or> s = ''skipped''"

text \<open>
  Any sequence of statements on the table, by any number of schedulers and API requests,
  with its events, the newest first.
\<close>

inductive job_run :: "db \<Rightarrow> job_event list \<Rightarrow> db \<Rightarrow> bool" for d0 where
  run_init: "job_run d0 [] d0"
| run_enqueue: "job_run d0 tr d \<Longrightarrow> EnqueueJob j d = Inr (i, d') \<Longrightarrow> job_run d0 (Enqueued i # tr) d'"
| run_reap: "job_run d0 tr d \<Longrightarrow> ScheduleReap a at d = Inr (i, d') \<Longrightarrow> job_run d0 (Enqueued i # tr) d'"
| run_claim: "job_run d0 tr d \<Longrightarrow> ClaimDueJob now d = Some (j, d') \<Longrightarrow> job_run d0 (Claimed (jo_ID j) # tr) d'"
| run_finish: "job_run d0 tr d \<Longrightarrow> closed_status status \<Longrightarrow> FinishJob i at status detail d = (err, d')
    \<Longrightarrow> job_run d0 (Finished i # tr) d'"
| run_requeue: "job_run d0 tr d \<Longrightarrow> RequeueStaleJobs kind cutoff d = (n, d')
    \<Longrightarrow> job_run d0 (Requeued (map jo_ID (filter (stale kind cutoff) (db_jobs d))) # tr) d'"

fun held :: "int \<Rightarrow> job_event list \<Rightarrow> bool" where
  "held i [] = False"
| "held i (Claimed k # tr) = (k = i \<or> held i tr)"
| "held i (Requeued ks # tr) = (i \<notin> set ks \<and> held i tr)"
| "held i (_ # tr) = held i tr"

lemma held_requeued: "\<not> held i (ys @ Claimed i # zs) \<Longrightarrow> \<exists>ks. Requeued ks \<in> set ys \<and> i \<in> set ks"
proof (induction ys)
  case (Cons e ys)
  then show ?case by (cases e) auto
qed simp

text \<open>A held job is in the table and not pending.\<close>

definition held_ok :: "job_event list \<Rightarrow> db \<Rightarrow> bool" where
  "held_ok tr d \<longleftrightarrow> distinct (job_ids d) \<and>
     (\<forall>i. held i tr \<longrightarrow> i \<in> set (job_ids d) \<and> (\<forall>j \<in> set (db_jobs d). jo_ID j = i \<longrightarrow> jo_Status j \<noteq> ''pending''))"

lemma held_ok_append:
  assumes "held_ok tr d" and "\<exists>j. db_jobs d' = db_jobs d @ [j] \<and> jo_ID j = next_id (map jo_ID (db_jobs d))"
  shows "held_ok (Enqueued i # tr) d'"
  using assms next_id_fresh[of "map jo_ID (db_jobs d)"] by (auto simp: held_ok_def job_ids_def)

lemma run_held_ok:
  assumes "job_run d0 tr d" and "distinct (job_ids d0)"
  shows "held_ok tr d"
  using assms
proof (induction rule: job_run.induct)
  case run_init
  then show ?case by (simp add: held_ok_def)
next
  case (run_enqueue tr d j i d')
  then show ?case using held_ok_append[of tr d d' i] EnqueueJob_row[of j d i d'] by blast
next
  case (run_reap tr d a at i d')
  then show ?case using held_ok_append[of tr d d' i] ScheduleReap_row[of a at d i d'] by blast
next
  case (run_claim tr d now j d')
  from run_claim(2) obtain r where r: "r \<in> set (db_jobs d)" "j = mark_running now r"
    "d' = d\<lparr>db_jobs := map (\<lambda>q. if jo_ID q = jo_ID r then mark_running now q else q) (db_jobs d)\<rparr>"
    by (rule ClaimDueJob_Some)
  have "job_ids d' = job_ids d" by (simp add: r(3) job_ids_def)
  moreover have "jo_ID j \<in> set (job_ids d)" using r(1,2) by (simp add: job_ids_def)
  moreover have "\<And>q'. q' \<in> set (db_jobs d') \<Longrightarrow> jo_Status q' = ''running'' \<or> (q' \<in> set (db_jobs d) \<and> jo_ID q' \<noteq> jo_ID j)"
    using r(2) by (auto simp: r(3))
  ultimately show ?case using run_claim.IH[OF run_claim.prems] unfolding held_ok_def by fastforce
next
  case (run_finish tr d status i at detail err d')
  have "job_ids d' = job_ids d" using run_finish(3) by (auto simp: FinishJob_def update_where_def job_ids_def)
  with run_finish show ?case
    by (auto simp: held_ok_def FinishJob_def update_where_def closed_status_def)
next
  case (run_requeue tr d kind cutoff n d')
  have "job_ids d' = job_ids d" using run_requeue(2) by (auto simp: RequeueStaleJobs_def update_where_def job_ids_def)
  with run_requeue show ?case
    by (auto simp: held_ok_def RequeueStaleJobs_def update_where_def job_ids_def)
qed

lemma claim_not_held:
  assumes "held_ok tr d" and "ClaimDueJob now d = Some (j, d')"
  shows "\<not> held (jo_ID j) tr"
proof
  assume h: "held (jo_ID j) tr"
  from assms(2) obtain r where r: "r \<in> set (db_jobs d)" "due now r" "j = mark_running now r" by (rule ClaimDueJob_Some)
  with h assms(1) show False by (auto simp: held_ok_def due_def)
qed

definition exclusive :: "job_event list \<Rightarrow> bool" where
  "exclusive tr \<longleftrightarrow> (\<forall>xs ys zs i. tr = xs @ Claimed i # ys @ Claimed i # zs \<longrightarrow> (\<exists>ks. Requeued ks \<in> set ys \<and> i \<in> set ks))"

lemma exclusive_Cons: "exclusive tr \<Longrightarrow> (\<And>i. e = Claimed i \<Longrightarrow> \<not> held i tr) \<Longrightarrow> exclusive (e # tr)"
  unfolding exclusive_def by (intro allI impI) (auto simp: Cons_eq_append_conv dest: held_requeued)

text \<open>
  C6. No job is claimed twice. Whatever statements run against the job table, from however
  many schedulers and API requests, two claims of the same job have a requeue of that job
  between them.
\<close>

theorem claim_exclusive:
  assumes "job_run d0 tr d" and "distinct (job_ids d0)"
    and "tr = xs @ Claimed i # ys @ Claimed i # zs"
  shows "\<exists>ks. Requeued ks \<in> set ys \<and> i \<in> set ks"
proof -
  from assms(1) have "exclusive tr"
  proof (induction rule: job_run.induct)
    case run_init
    show ?case by (simp add: exclusive_def)
  next
    case (run_claim tr d now j d')
    with claim_not_held[OF run_held_ok[OF run_claim(1) assms(2)] run_claim(2)] show ?case
      by (intro exclusive_Cons) auto
  qed (rule exclusive_Cons, assumption, simp)+
  with assms(3) show ?thesis by (auto simp: exclusive_def)
qed

subsection \<open>The loop of a tick ends\<close>

text \<open>
  The job table is written by the scheduler and by the API only: no runner changes it.
\<close>

definition runners_keep :: "Scheduler \<Rightarrow> bool" where
  "runners_keep sc \<longleftrightarrow> (\<forall>(k, r) \<in> set (sc_runners sc). \<forall>j d. db_jobs (snd (r j d)) = db_jobs d)"

definition pending_count :: "db \<Rightarrow> nat" where
  "pending_count d = length (filter (\<lambda>j. jo_Status j = ''pending'') (db_jobs d))"

text \<open>What a tick may do to a row: leave it, or run it to its end.\<close>

definition job_done :: "Job \<Rightarrow> Job \<Rightarrow> bool" where
  "job_done j j' \<longleftrightarrow> j' = j \<or>
     (jo_Status j = ''pending'' \<and> closed_status (jo_Status j') \<and> jo_StartedAt j' \<noteq> None \<and> jo_FinishedAt j' \<noteq> None
      \<and> jo_ID j' = jo_ID j \<and> jo_Kind j' = jo_Kind j \<and> jo_AgentID j' = jo_AgentID j \<and> jo_ScheduledFor j' = jo_ScheduledFor j)"

lemma job_done_trans: "job_done a b \<Longrightarrow> job_done b c \<Longrightarrow> job_done a c"
  by (auto simp: job_done_def closed_status_def)

lemma jobs_done_trans: "list_all2 job_done xs ys \<Longrightarrow> list_all2 job_done ys zs \<Longrightarrow> list_all2 job_done xs zs"
  by (rule list_all2_trans[of job_done job_done job_done]) (rule job_done_trans)

lemma exec_job_jobs: "runners_keep sc \<Longrightarrow> db_jobs (snd (exec_job sc j d)) = db_jobs d"
proof (cases "map_of (sc_runners sc) (jo_Kind j)")
  case (Some r)
  assume "runners_keep sc"
  with map_of_SomeD[OF Some] have "db_jobs (snd (r j d)) = db_jobs d" by (auto simp: runners_keep_def)
  with Some show ?thesis by (cases "r j d") (auto simp: exec_job_def split: outcome.splits)
qed (simp add: exec_job_def)

lemma run_status_closed: "closed_status (fst (run_status detail err))"
  by (auto simp: run_status_def closed_status_def split: option.splits run_err.splits)

definition ended :: "gotime \<Rightarrow> gotime \<Rightarrow> string \<Rightarrow> string \<Rightarrow> Job \<Rightarrow> Job" where
  "ended now1 now2 status detail j =
     (mark_running now1 j)\<lparr>jo_Status := status, jo_FinishedAt := Some (ts now2), jo_Detail := Job_Queue.truncate detail maxDetail\<rparr>"

lemma runOne_None: "ClaimDueJob now1 d = None \<Longrightarrow> runOne sc now1 now2 d = (False, d)"
  by (simp add: runOne_def)

lemma runOne_Some:
  assumes "runners_keep sc" and "ClaimDueJob now1 d = Some c"
  obtains r d' status detail where "runOne sc now1 now2 d = (True, d')" "r \<in> set (db_jobs d)" "due now1 r" "closed_status status"
    "db_jobs d' = map (\<lambda>q. if jo_ID q = jo_ID r then ended now1 now2 status detail q else q) (db_jobs d)"
proof -
  obtain j d1 where c: "c = (j, d1)" by (cases c)
  from assms(2) obtain r where r: "r \<in> set (db_jobs d)" "due now1 r" "j = mark_running now1 r"
    "d1 = d\<lparr>db_jobs := map (\<lambda>q. if jo_ID q = jo_ID r then mark_running now1 q else q) (db_jobs d)\<rparr>"
    unfolding c by (rule ClaimDueJob_Some)
  obtain detail err d2 where e: "exec_job sc j d1 = ((detail, err), d2)" by (metis prod.exhaust)
  obtain status detail' where s: "run_status detail err = (status, detail')" by (cases "run_status detail err")
  have d2: "db_jobs d2 = db_jobs d1" using exec_job_jobs[OF assms(1), of j d1] by (simp add: e)
  show thesis
  proof (rule that[of "snd (FinishJob (jo_ID j) now2 status detail' d2)" r status detail'])
    show "runOne sc now1 now2 d = (True, snd (FinishJob (jo_ID j) now2 status detail' d2))"
      using assms(2) by (simp add: runOne_def c e s)
    show "closed_status status" using run_status_closed[of detail err] by (simp add: s)
    show "db_jobs (snd (FinishJob (jo_ID j) now2 status detail' d2))
        = map (\<lambda>q. if jo_ID q = jo_ID r then ended now1 now2 status detail' q else q) (db_jobs d)"
      by (simp add: FinishJob_def update_where_def d2 r(3,4) ended_def)
  qed (use r in auto)
qed

lemma filter_length_mono: "(\<And>x. x \<in> set xs \<Longrightarrow> Q x \<Longrightarrow> P x) \<Longrightarrow> length (filter Q xs) \<le> length (filter P xs)"
  by (induction xs) (auto simp: le_SucI)

lemma filter_length_less:
  "(\<And>x. x \<in> set xs \<Longrightarrow> Q x \<Longrightarrow> P x) \<Longrightarrow> r \<in> set xs \<Longrightarrow> P r \<Longrightarrow> \<not> Q r \<Longrightarrow> length (filter Q xs) < length (filter P xs)"
proof (induction xs)
  case (Cons x xs)
  have "length (filter Q xs) \<le> length (filter P xs)"
    using Cons.prems(1) by (intro filter_length_mono) simp
  with Cons show ?case by (cases "r = x") (auto simp: less_Suc_eq_le)
qed simp

lemma ended_simps [simp]: "jo_ID (ended t1 t2 st det q) = jo_ID q" "jo_Status (ended t1 t2 st det q) = st"
    "jo_Kind (ended t1 t2 st det q) = jo_Kind q"
  by (simp_all add: ended_def)

lemma ended_count:
  assumes "r \<in> set (db_jobs d)" and "due now1 r" and "closed_status st"
    and "db_jobs d' = map (\<lambda>q. if jo_ID q = jo_ID r then ended now1 now2 st det q else q) (db_jobs d)"
  shows "pending_count d' < pending_count d"
proof -
  have "pending_count d' = length (filter (\<lambda>j. jo_ID j \<noteq> jo_ID r \<and> jo_Status j = ''pending'') (db_jobs d))"
    using assms(3) unfolding pending_count_def assms(4) filter_map length_map
    by (intro arg_cong[of _ _ length] filter_cong) (auto simp: closed_status_def)
  also have "\<dots> < pending_count d" unfolding pending_count_def
    by (rule filter_length_less[of _ _ _ r]) (use assms(1,2) in \<open>auto simp: due_def\<close>)
  finally show ?thesis .
qed

lemma ended_done:
  assumes "distinct (job_ids d)" and "r \<in> set (db_jobs d)" and "due now1 r" and "closed_status st"
    and "db_jobs d' = map (\<lambda>q. if jo_ID q = jo_ID r then ended now1 now2 st det q else q) (db_jobs d)"
  shows "list_all2 job_done (db_jobs d) (db_jobs d')"
proof -
  have "\<And>q. q \<in> set (db_jobs d) \<Longrightarrow> jo_ID q = jo_ID r \<Longrightarrow> q = r"
    using assms(1,2) by (auto simp: job_ids_def distinct_map dest: inj_onD)
  then have "\<And>i. i < length (db_jobs d) \<Longrightarrow> jo_ID (db_jobs d ! i) = jo_ID r \<Longrightarrow> db_jobs d ! i = r" by simp
  with assms(3,4) show ?thesis unfolding assms(5)
    by (auto simp: list_all2_conv_all_nth job_done_def ended_def mark_running_def due_def)
qed

lemma jobs_done_ids: "list_all2 job_done (db_jobs d) (db_jobs d') \<Longrightarrow> job_ids d' = job_ids d"
  unfolding job_ids_def by (rule nth_equalityI) (auto simp: list_all2_conv_all_nth job_done_def)

lemma due_mono: "t \<le> now \<Longrightarrow> due t j \<Longrightarrow> due now j"
  using zdiv_mono1[of t now second] by (auto simp: due_def ts_def second_def)

lemma drain_result:
  assumes "runners_keep sc" and "pending_count d < length readings" and "distinct (job_ids d)"
  shows "\<exists>d'. drain sc readings d = Some d' \<and> list_all2 job_done (db_jobs d) (db_jobs d')
    \<and> (\<forall>t. (\<forall>(c, now1, now2) \<in> set readings. \<not> c \<and> t \<le> now1) \<longrightarrow> (\<forall>j \<in> set (db_jobs d'). \<not> due t j))"
  using assms(2,3)
proof (induction readings arbitrary: d)
  case (Cons rd rest)
  obtain c now1 now2 where rd: "rd = (c, now1, now2)" by (cases rd)
  have same: "list_all2 job_done (db_jobs d) (db_jobs d)" by (simp add: list_all2_same job_done_def)
  consider (stop) "c" | (idle) "\<not> c" "ClaimDueJob now1 d = None" | (busy) cl where "\<not> c" "ClaimDueJob now1 d = Some cl" by blast
  then show ?case
  proof cases
    case stop
    with same show ?thesis by (simp add: rd)
  next
    case idle
    then have "\<And>j t. j \<in> set (db_jobs d) \<Longrightarrow> t \<le> now1 \<Longrightarrow> \<not> due t j" using ClaimDueJob_None due_mono by blast
    with idle same show ?thesis by (simp add: rd runOne_None)
  next
    case busy
    obtain r d1 st det where one: "runOne sc now1 now2 d = (True, d1)" and r: "r \<in> set (db_jobs d)" "due now1 r" "closed_status st"
      "db_jobs d1 = map (\<lambda>q. if jo_ID q = jo_ID r then ended now1 now2 st det q else q) (db_jobs d)"
      by (rule runOne_Some[OF assms(1) busy(2), of now2])
    have d1: "list_all2 job_done (db_jobs d) (db_jobs d1)" by (rule ended_done[OF Cons.prems(2) r])
    have p: "pending_count d1 < length rest" using ended_count[OF r] Cons.prems(1) by simp
    have "distinct (job_ids d1)" using jobs_done_ids[OF d1] Cons.prems(2) by simp
    from Cons.IH[OF p this] obtain d' where d': "drain sc rest d1 = Some d'" "list_all2 job_done (db_jobs d1) (db_jobs d')"
      "\<forall>t. (\<forall>(c, now1, now2) \<in> set rest. \<not> c \<and> t \<le> now1) \<longrightarrow> (\<forall>j \<in> set (db_jobs d'). \<not> due t j)"
      by (elim exE conjE)
    have "drain sc (rd # rest) d = Some d'" using busy(1) by (simp add: rd one d'(1))
    with d'(3) jobs_done_trans[OF d1 d'(2)] show ?thesis by (intro exI[of _ d'] conjI) simp_all
  qed
qed simp


definition toy_job :: "int \<Rightarrow> gotime \<Rightarrow> Job" where
  "toy_job i at = \<lparr>jo_ID = i, jo_Kind = ''verify'', jo_AgentID = [], jo_ScheduledFor = at, jo_StartedAt = None,
     jo_FinishedAt = None, jo_Status = ''pending'', jo_Detail = []\<rparr>"

definition toy_runner :: runner where "toy_runner j d = (Returned ''verified 1 of 1'' None, d)"

definition toy_scheduler :: Scheduler where
  "toy_scheduler = NewScheduler [(''verify'', toy_runner), (''reap'', toy_runner)]"

lemma toy_runners_keep: "runners_keep toy_scheduler"
  by (simp add: runners_keep_def toy_scheduler_def NewScheduler_def toy_runner_def)


theorem claim_exclusive_witness:
  "\<exists>d tr ks. job_run (empty_db\<lparr>db_jobs := [toy_job 1 0]\<rparr>) tr d \<and> tr = [] @ Claimed 1 # [Requeued ks] @ Claimed 1 # [] \<and> 1 \<in> set ks"
proof -
  let ?d0 = "empty_db\<lparr>db_jobs := [toy_job 1 0]\<rparr>"
  let ?d1 = "snd (the (ClaimDueJob 0 ?d0))"
  let ?d2 = "snd (RequeueStaleJobs ''verify'' second ?d1)"
  let ?ks = "map jo_ID (filter (stale ''verify'' second) (db_jobs ?d1))"
  have c1: "ClaimDueJob 0 ?d0 = Some (mark_running 0 (toy_job 1 0), ?d1)" by code_simp
  have c2: "RequeueStaleJobs ''verify'' second ?d1 = (1, ?d2)" by code_simp
  have c3: "ClaimDueJob 0 ?d2 = Some (mark_running 0 (toy_job 1 0), snd (the (ClaimDueJob 0 ?d2)))" by code_simp
  have j: "jo_ID (mark_running 0 (toy_job 1 0)) = 1" by (simp add: toy_job_def)
  have run: "job_run ?d0 ([] @ Claimed 1 # [Requeued ?ks] @ Claimed 1 # []) (snd (the (ClaimDueJob 0 ?d2)))"
    using run_claim[OF run_requeue[OF run_claim[OF run_init c1] c2] c3] unfolding j append.simps .
  have "distinct (job_ids ?d0)" by (simp add: job_ids_def)
  from claim_exclusive[OF run this refl] obtain ks where ks: "Requeued ks \<in> set [Requeued ?ks]" "1 \<in> set ks" by blast
  from ks(1) have "ks = ?ks" by (simp only: list.set insert_iff empty_iff job_event.inject simp_thms)
  with run ks(2) show ?thesis by blast
qed

subsection \<open>The newest job of a kind\<close>

lemma RecentJobs_1:
  assumes "kind \<noteq> []"
  shows "RecentJobs kind 1 d = [] \<longleftrightarrow> filter (\<lambda>j. jo_Kind j = kind) (db_jobs d) = []"
    and "RecentJobs kind 1 d = n # rest \<Longrightarrow> n \<in> set (db_jobs d) \<and> jo_Kind n = kind
           \<and> (\<forall>k \<in> set (db_jobs d). jo_Kind k = kind \<longrightarrow> jo_ID k \<le> jo_ID n)"
proof -
  let ?xs = "filter (\<lambda>j. jo_Kind j = kind) (db_jobs d)"
  let ?s = "sort_key jo_ID ?xs"
  have eq: "RecentJobs kind 1 d = take 1 (rev ?s)" using assms by (simp add: RecentJobs_def jobLimit_def)
  have set: "set ?s = set ?xs" by simp
  show "RecentJobs kind 1 d = [] \<longleftrightarrow> ?xs = []" using set_empty[of ?s] set set_empty[of ?xs] unfolding eq by simp
  assume "RecentJobs kind 1 d = n # rest"
  then obtain ys where rev: "rev ?s = n # ys" unfolding eq by (cases "rev ?s") auto
  then have s: "?s = rev ys @ [n]" by (simp add: rev_eq_Cons_iff)
  have "sorted (map jo_ID (rev ys @ [n]))" using sorted_sort_key[of jo_ID ?xs] unfolding s .
  then have "\<forall>k \<in> set ?s. jo_ID k \<le> jo_ID n" unfolding s by (auto simp: sorted_append)
  moreover have "n \<in> set ?s" unfolding s by simp
  ultimately show "n \<in> set (db_jobs d) \<and> jo_Kind n = kind \<and> (\<forall>k \<in> set (db_jobs d). jo_Kind k = kind \<longrightarrow> jo_ID k \<le> jo_ID n)"
    unfolding set by simp
qed

lemma RecentJobs_cong:
  "filter (\<lambda>j. jo_Kind j = kind) (db_jobs d) = filter (\<lambda>j. jo_Kind j = kind) (db_jobs d') \<Longrightarrow> kind \<noteq> []
    \<Longrightarrow> RecentJobs kind l d = RecentJobs kind l d'"
  by (simp add: RecentJobs_def)

lemma interval_job_enqueued:
  "kind \<noteq> [] \<Longrightarrow> EnqueueJob (interval_job kind now) d = Inr (next_id (map jo_ID (db_jobs d)),
     d\<lparr>db_jobs := db_jobs d @ [(interval_job kind now)\<lparr>jo_ID := next_id (map jo_ID (db_jobs d)), jo_ScheduledFor := ts now,
       jo_Status := ''pending''\<rparr>]\<rparr>)"
  by (simp add: EnqueueJob_def interval_job_def Let_def Job_Queue.truncate_def maxDetail_def)

lemma enqueue_interval_cases:
  assumes "kind \<noteq> []"
  obtains "enqueue_interval sc now (kind, iv) d = d"
  | r where "wants_job now (intervalFor d iv) (RecentJobs kind 1 d)" "jo_Kind r = kind" "jo_ID r = next_id (map jo_ID (db_jobs d))"
      "enqueue_interval sc now (kind, iv) d = d\<lparr>db_jobs := db_jobs d @ [r]\<rparr>"
proof (cases "map_of (sc_runners sc) kind = None \<or> \<not> wants_job now (intervalFor d iv) (RecentJobs kind 1 d)")
  case True
  then have "enqueue_interval sc now (kind, iv) d = d" by (auto simp: enqueue_interval_def)
  then show thesis by (rule that(1))
next
  case False
  then have w: "wants_job now (intervalFor d iv) (RecentJobs kind 1 d)" by blast
  show thesis
    by (rule that(2)[OF w, of "(interval_job kind now)\<lparr>jo_ID := next_id (map jo_ID (db_jobs d)), jo_ScheduledFor := ts now,
       jo_Status := ''pending''\<rparr>"])
      (use False in \<open>simp_all add: enqueue_interval_def interval_job_enqueued[OF assms]\<close>, simp_all add: interval_job_def)
qed

lemma intervals_kind: "ki \<in> set intervals \<Longrightarrow> fst ki \<noteq> []"
  by (auto simp: intervals_def)

subsection \<open>One open job of each interval kind\<close>

definition is_open :: "Job \<Rightarrow> bool" where
  "is_open j \<longleftrightarrow> jo_Status j = ''pending'' \<or> jo_Status j = ''running''"

definition newest_only :: "string \<Rightarrow> db \<Rightarrow> bool" where
  "newest_only kind d \<longleftrightarrow> (\<forall>j \<in> set (db_jobs d). jo_Kind j = kind \<and> is_open j \<longrightarrow>
     (\<forall>k \<in> set (db_jobs d). jo_Kind k = kind \<longrightarrow> jo_ID k \<le> jo_ID j))"

definition sched_ok :: "db \<Rightarrow> bool" where
  "sched_ok d \<longleftrightarrow> distinct (job_ids d) \<and> (\<forall>kind \<in> fst ` set intervals. newest_only kind d)"

text \<open>Rewriting rows in place so that no closed job opens keeps it.\<close>

definition no_opening :: "Job \<Rightarrow> Job \<Rightarrow> bool" where
  "no_opening j j' \<longleftrightarrow> jo_ID j' = jo_ID j \<and> jo_Kind j' = jo_Kind j \<and> (is_open j' \<longrightarrow> is_open j)"

lemma sched_ok_rows:
  assumes "sched_ok d" and "list_all2 no_opening (db_jobs d) (db_jobs d')"
  shows "sched_ok d'"
proof -
  have ids: "job_ids d' = job_ids d" unfolding job_ids_def
    by (rule nth_equalityI) (use assms(2) in \<open>auto simp: list_all2_conv_all_nth no_opening_def\<close>)
  have orig: "\<exists>j \<in> set (db_jobs d). no_opening j j'" if "j' \<in> set (db_jobs d')" for j'
    using that assms(2) unfolding list_all2_conv_all_nth by (metis in_set_conv_nth)
  have "newest_only kind d'" if k: "newest_only kind d" for kind
    unfolding newest_only_def
  proof (intro ballI impI)
    fix j' k' assume j': "j' \<in> set (db_jobs d')" "jo_Kind j' = kind \<and> is_open j'"
      and k': "k' \<in> set (db_jobs d')" "jo_Kind k' = kind"
    from orig[OF j'(1)] orig[OF k'(1)] j'(2) k'(2) k show "jo_ID k' \<le> jo_ID j'"
      by (auto simp: newest_only_def no_opening_def)
  qed
  with assms(1) ids show ?thesis by (simp add: sched_ok_def)
qed

lemma sched_ok_requeue: "sched_ok d \<Longrightarrow> sched_ok (snd (RequeueStaleJobs kind cutoff d))"
  by (erule sched_ok_rows)
    (auto simp: RequeueStaleJobs_def update_where_def list_all2_conv_all_nth no_opening_def is_open_def stale_def)

lemma sched_ok_requeueStale: "sched_ok d \<Longrightarrow> sched_ok (requeueStale sc now d)"
proof -
  have "sched_ok d \<Longrightarrow> sched_ok (fold (\<lambda>(kind, r) d. snd (RequeueStaleJobs kind (now - timeout sc kind) d)) rs d)" for rs d
    by (induction rs arbitrary: d) (auto simp: sched_ok_requeue)
  then show "sched_ok d \<Longrightarrow> ?thesis" unfolding requeueStale_def .
qed

lemma wants_job_closed:
  assumes "wants_job now every (RecentJobs kind 1 d)" and "kind \<noteq> []" and "distinct (job_ids d)" and "newest_only kind d"
    and "j \<in> set (db_jobs d)" and "jo_Kind j = kind"
  shows "\<not> is_open j"
proof
  assume o: "is_open j"
  then obtain n rest where n: "RecentJobs kind 1 d = n # rest"
    using RecentJobs_1(1)[OF assms(2), of d] assms(5,6) by (cases "RecentJobs kind 1 d") (auto simp: filter_empty_conv)
  note nn = RecentJobs_1(2)[OF assms(2) n]
  have "jo_ID n = jo_ID j" using nn o assms(4-6) by (auto simp: newest_only_def intro: order_antisym)
  then have "n = j" using nn assms(3,5) by (auto simp: job_ids_def distinct_map dest: inj_onD)
  with assms(1) n o show False by (simp add: wants_job_def is_open_def split: if_splits)
qed

lemma sched_ok_enqueue_interval:
  assumes "sched_ok d" and "ki \<in> set intervals"
  shows "sched_ok (enqueue_interval sc now ki d)"
proof -
  obtain kind iv where ki: "ki = (kind, iv)" by (cases ki)
  with intervals_kind[OF assms(2)] have ne: "kind \<noteq> []" by simp
  from assms have ok: "distinct (job_ids d)" "newest_only kind d" by (auto simp: sched_ok_def ki intro: rev_image_eqI)
  show ?thesis unfolding ki
  proof (rule enqueue_interval_cases[OF ne, of sc now iv d])
    fix r assume r: "wants_job now (intervalFor d iv) (RecentJobs kind 1 d)" "jo_Kind r = kind" "jo_ID r = next_id (map jo_ID (db_jobs d))"
      "enqueue_interval sc now (kind, iv) d = d\<lparr>db_jobs := db_jobs d @ [r]\<rparr>"
    have above: "\<And>k. k \<in> set (db_jobs d) \<Longrightarrow> jo_ID k < jo_ID r" using next_id_greater r(3) by simp
    have "newest_only k (d\<lparr>db_jobs := db_jobs d @ [r]\<rparr>)" if "newest_only k d" for k
      using that wants_job_closed[OF r(1) ne ok] above r(2) by (auto simp: newest_only_def intro: less_imp_le)
    moreover have "distinct (job_ids (d\<lparr>db_jobs := db_jobs d @ [r]\<rparr>))"
      using ok(1) above by (auto simp: job_ids_def dest!: above)
    ultimately show "sched_ok (enqueue_interval sc now (kind, iv) d)" using assms(1) by (simp add: r(4) sched_ok_def)
  qed (use assms(1) in simp)
qed

lemma sched_ok_enqueueIntervals: "sched_ok d \<Longrightarrow> sched_ok (enqueueIntervals sc now d)"
proof -
  have "sched_ok d \<Longrightarrow> set kis \<subseteq> set intervals \<Longrightarrow> sched_ok (fold (enqueue_interval sc now) kis d)" for kis d
    by (induction kis arbitrary: d) (auto simp: sched_ok_enqueue_interval)
  then show "sched_ok d \<Longrightarrow> ?thesis" by (simp add: enqueueIntervals_def)
qed

lemma sched_ok_drain:
  assumes "runners_keep sc" and "sched_ok d" and "drain sc readings d = Some d'"
  shows "sched_ok d'"
  using assms(2,3)
proof (induction readings arbitrary: d)
  case (Cons rd rest)
  obtain c now1 now2 where rd: "rd = (c, now1, now2)" by (cases rd)
  consider (stop) "c \<or> ClaimDueJob now1 d = None" | (busy) cl where "\<not> c" "ClaimDueJob now1 d = Some cl" by blast
  then show ?case
  proof cases
    case stop
    with Cons.prems show ?thesis by (auto simp: rd runOne_None split: if_splits)
  next
    case busy
    obtain r d1 st det where one: "runOne sc now1 now2 d = (True, d1)" and r: "r \<in> set (db_jobs d)" "due now1 r" "closed_status st"
      "db_jobs d1 = map (\<lambda>q. if jo_ID q = jo_ID r then ended now1 now2 st det q else q) (db_jobs d)"
      by (rule runOne_Some[OF assms(1) busy(2), of now2])
    have "list_all2 no_opening (db_jobs d) (db_jobs d1)" unfolding r(4)
      using r(3) by (auto simp: list_all2_conv_all_nth no_opening_def is_open_def closed_status_def)
    with Cons.prems(1) have "sched_ok d1" by (rule sched_ok_rows)
    moreover have "drain sc rest d1 = Some d'" using Cons.prems(2) busy(1) by (simp add: rd one)
    ultimately show ?thesis by (rule Cons.IH)
  qed
qed simp

text \<open>Any number of ticks, with writes to the other tables in between.\<close>

inductive sched_run :: "Scheduler \<Rightarrow> db \<Rightarrow> bool" for sc where
  sched_init: "db_jobs d = [] \<Longrightarrow> sched_run sc d"
| sched_tick: "sched_run sc d \<Longrightarrow> scheduler_tick sc now1 now2 readings d = Some d' \<Longrightarrow> sched_run sc d'"
| sched_other: "sched_run sc d \<Longrightarrow> db_jobs d' = db_jobs d \<Longrightarrow> sched_run sc d'"

lemma sched_run_ok: "sched_run sc d \<Longrightarrow> runners_keep sc \<Longrightarrow> sched_ok d"
proof (induction rule: sched_run.induct)
  case (sched_init d)
  then show ?case by (simp add: sched_ok_def job_ids_def newest_only_def)
next
  case (sched_tick d now1 now2 readings d')
  then show ?case unfolding scheduler_tick_def
    by (meson sched_ok_drain sched_ok_enqueueIntervals sched_ok_requeueStale)
next
  case (sched_other d d')
  then show ?case by (simp add: sched_ok_def job_ids_def newest_only_def)
qed


lemma toy_tick: "\<exists>d. sched_run toy_scheduler d \<and> length (db_jobs d) = 2"
proof -
  let ?t = "scheduler_tick toy_scheduler 0 0 [(True, 0, 0)] empty_db"
  have "?t = Some (the ?t) \<and> length (db_jobs (the ?t)) = 2" by code_simp
  moreover have "sched_run toy_scheduler empty_db" by (rule sched_init) (simp add: empty_db_def)
  ultimately show ?thesis using sched_tick by blast
qed


subsection \<open>A scheduled reap holds off the sweep\<close>

lemma enqueue_skips_open:
  assumes "kind \<noteq> []" and "RecentJobs kind 1 d = n # rest" and "is_open n" and "ki \<in> set intervals"
  shows "filter (\<lambda>j. jo_Kind j = kind) (db_jobs (enqueue_interval sc now ki d)) = filter (\<lambda>j. jo_Kind j = kind) (db_jobs d)"
proof -
  obtain k iv where ki: "ki = (k, iv)" by (cases ki)
  with intervals_kind[OF assms(4)] have ne: "k \<noteq> []" by simp
  show ?thesis unfolding ki
  proof (rule enqueue_interval_cases[OF ne, of sc now iv d])
    fix r assume r: "wants_job now (intervalFor d iv) (RecentJobs k 1 d)" "jo_Kind r = k"
      and "jo_ID r = next_id (map jo_ID (db_jobs d))" and r3: "enqueue_interval sc now (k, iv) d = d\<lparr>db_jobs := db_jobs d @ [r]\<rparr>"
    have "k \<noteq> kind" using r(1) assms(2,3) by (auto simp: wants_job_def is_open_def)
    with r(2) r3 show "filter (\<lambda>j. jo_Kind j = kind) (db_jobs (enqueue_interval sc now (k, iv) d)) = filter (\<lambda>j. jo_Kind j = kind) (db_jobs d)"
      by simp
  qed simp
qed


definition toy_agent :: "string \<Rightarrow> Agent" where
  "toy_agent i = \<lparr>ag_ID = i, ag_Name = [], ag_Hostname = [], ag_OS = [], ag_Arch = [], ag_Version = [], ag_Scope = [],
     ag_GroupID = 1, ag_BearerHash = i, ag_SealedBundle = [], ag_PolicyETag = [], ag_EnrolledAt = 0, ag_LastSeenAt = None,
     ag_RevokedAt = Some 0, ag_RetiredAt = None\<rparr>"

definition toy_scheduled :: db where
  "toy_scheduled = snd (projr (ScheduleReap ''ag_a'' (30 * day) (empty_db\<lparr>db_agents := [toy_agent ''ag_a'']\<rparr>)))"


subsection \<open>Cadence\<close>

lemma mul64_seconds:
  assumes "0 \<le> s" and "s \<le> maxIntervalSeconds"
  shows "mul64 s second = s * second"
proof -
  have "in_int64 (s * second)" using assms by (simp add: in_int64_def min_int64_def max_int64_def second_def maxIntervalSeconds_def)
  then show ?thesis unfolding mul64_def by (rule wrap64_id)
qed

lemmas time_units = day_def hour_def minute_def second_def

text \<open>
  Cadence. Whatever is stored in the settings, the interval of every kind lies between
  that kind's minimum, which is at least five minutes, and a year: a setting that is absent,
  malformed, negative or beyond 64 bits never stops a kind of job nor runs it in a tight loop.
\<close>

theorem intervalFor_bounds:
  assumes "(kind, iv) \<in> set intervals"
  shows "5 * minute \<le> iv_min iv \<and> iv_min iv \<le> intervalFor d iv \<and> intervalFor d iv \<le> 365 * day"
proof -
  have iv: "5 * minute \<le> iv_min iv" "iv_min iv \<le> iv_def iv" "iv_def iv \<le> 365 * day"
    using assms by (auto simp: intervals_def time_units)
  have "mul64 s second \<le> 365 * day" if "0 \<le> s" "s \<le> maxIntervalSeconds" for s
    using that unfolding mul64_seconds[OF that] by (simp add: maxIntervalSeconds_def time_units)
  from this[of maxIntervalSeconds] this iv show ?thesis
    by (auto simp: intervalFor_def Let_def maxIntervalSeconds_def split: option.split)
qed

theorem intervalFor_bounds_witness:
  "intervalFor (SetSetting ''mirror_interval'' ''99999999999'' empty_db) \<lparr>iv_setting = ''mirror_interval'', iv_def = hour, iv_min = 5 * minute\<rparr>
     \<le> 365 * day"
  using intervalFor_bounds[of "''mirror''"
      "\<lparr>iv_setting = ''mirror_interval'', iv_def = hour, iv_min = 5 * minute\<rparr>" "SetSetting ''mirror_interval'' ''99999999999'' empty_db"]
  by (simp add: intervals_def)

end
