(* ===== verification/Reseal.thy ===== *)
theory Reseal
  imports Job_Queue Seal
begin

section \<open>Re-sealing the database\<close>

text \<open>
  Models \<^verbatim>\<open>src/fleet/store/reseal.go\<close>: one transaction that re-seals every sealed value of the
  database and writes the new salt. The caller's function is a parameter with a state of
  its own, the nonces it draws; an error of it, or a sealed setting that is not hex, rolls
  everything back.
\<close>

definition SealedSettingPrefix :: string where "SealedSettingPrefix = ''sealed_''"

definition SealSaltSetting :: string where "SealSaltSetting = ''seal_salt''"

datatype reseal_error = BadSalt | ErrSealedNotHex string | ResealErr

record counts =
  n_agents :: nat
  n_targets :: nat
  n_device_keys :: nat
  n_settings :: nat

type_synonym 's reseal_fn = "'s \<Rightarrow> string \<Rightarrow> string option \<times> 's"

text \<open>
  The loop over the rows of a table: all rows are read before any is written, and each is
  written by its primary key. A row answers whether it has a sealed value at all, and is
  rewritten by a function that may fail.
\<close>

fun reseal_rows :: "('r \<Rightarrow> bool) \<Rightarrow> ('s \<Rightarrow> 'r \<Rightarrow> 'r option \<times> 's) \<Rightarrow> 'r list \<Rightarrow> 's \<Rightarrow> ('r list \<times> nat \<times> 's) option" where
  "reseal_rows skip f [] s = Some ([], 0, s)"
| "reseal_rows skip f (r # rows) s =
     (if skip r then map_option (\<lambda>(rs, n, s'). (r # rs, n, s')) (reseal_rows skip f rows s)
      else case f s r of
        (None, s') \<Rightarrow> None
      | (Some r', s') \<Rightarrow> map_option (\<lambda>(rs, n, s''). (r' # rs, Suc n, s'')) (reseal_rows skip f rows s'))"

definition resealBlobs :: "('r \<Rightarrow> string) \<Rightarrow> (string \<Rightarrow> 'r \<Rightarrow> 'r) \<Rightarrow> 's reseal_fn \<Rightarrow> 'r list \<Rightarrow> 's \<Rightarrow> ('r list \<times> nat \<times> 's) option" where
  "resealBlobs get put reseal = reseal_rows (\<lambda>r. get r = []) (\<lambda>s r. map_prod (map_option (\<lambda>v. put v r)) (\<lambda>s. s) (reseal s (get r)))"

text \<open>A target has two keys, either of which may be absent, and counts once.\<close>

definition reseal_opt :: "'s reseal_fn \<Rightarrow> 's reseal_fn" where
  "reseal_opt reseal s v = (if v = [] then (Some [], s) else reseal s v)"

definition reseal_target :: "'s reseal_fn \<Rightarrow> 's \<Rightarrow> Target \<Rightarrow> Target option \<times> 's" where
  "reseal_target reseal s t = (case reseal_opt reseal s (ta_SealedAdminKey t) of
     (None, s1) \<Rightarrow> (None, s1)
   | (Some admin, s1) \<Rightarrow>
       (case reseal_opt reseal s1 (ta_SealedMirrorKey t) of
          (None, s2) \<Rightarrow> (None, s2)
        | (Some mirror, s2) \<Rightarrow> (Some (t\<lparr>ta_SealedAdminKey := admin, ta_SealedMirrorKey := mirror\<rparr>), s2)))"

definition resealTargets :: "'s reseal_fn \<Rightarrow> Target list \<Rightarrow> 's \<Rightarrow> (Target list \<times> nat \<times> 's) option" where
  "resealTargets reseal = reseal_rows (\<lambda>t. ta_SealedAdminKey t = [] \<and> ta_SealedMirrorKey t = []) (reseal_target reseal)"

text \<open>
  SQLite's LIKE compares ASCII letters without regard to case, so the keys selected are
  those that start with the prefix in any case. All values are decoded before the first is
  re-sealed.
\<close>

definition sealed_setting :: "string \<times> string \<Rightarrow> bool" where
  "sealed_setting kv \<longleftrightarrow> HasPrefix (ToLower (fst kv)) SealedSettingPrefix"

definition setting_raw :: "string \<times> string \<Rightarrow> string" where
  "setting_raw kv = (case hex_DecodeString (snd kv) of Some raw \<Rightarrow> raw | None \<Rightarrow> [])"

definition resealSettings :: "'s reseal_fn \<Rightarrow> (string \<times> string) list \<Rightarrow> 's \<Rightarrow> reseal_error + ((string \<times> string) list \<times> nat \<times> 's)" where
  "resealSettings reseal rows s =
     (case find (\<lambda>kv. sealed_setting kv \<and> hex_DecodeString (snd kv) = None) rows of
        Some kv \<Rightarrow> Inl (ErrSealedNotHex (fst kv))
      | None \<Rightarrow>
          (case reseal_rows (\<lambda>kv. \<not> sealed_setting kv \<or> setting_raw kv = [])
                  (\<lambda>s kv. map_prod (map_option (\<lambda>v. (fst kv, hex_EncodeToString v))) (\<lambda>s. s) (reseal s (setting_raw kv))) rows s of
             None \<Rightarrow> Inl ResealErr
           | Some r \<Rightarrow> Inr r))"

definition Reseal :: "string \<Rightarrow> bool \<Rightarrow> 's reseal_fn \<Rightarrow> 's \<Rightarrow> db \<Rightarrow> (reseal_error + counts) \<times> db" where
  "Reseal newSalt dryRun reseal s d =
     (if case hex_DecodeString newSalt of None \<Rightarrow> True | Some raw \<Rightarrow> raw = [] then (Inl BadSalt, d)
      else case resealBlobs ag_SealedBundle (\<lambda>v a. a\<lparr>ag_SealedBundle := v\<rparr>) reseal (db_agents d) s of
        None \<Rightarrow> (Inl ResealErr, d)
      | Some (agents, na, s1) \<Rightarrow>
      (case resealTargets reseal (db_targets d) s1 of
        None \<Rightarrow> (Inl ResealErr, d)
      | Some (targets, nt, s2) \<Rightarrow>
      (case resealBlobs dk_SealedSecret (\<lambda>v k. k\<lparr>dk_SealedSecret := v\<rparr>) reseal (db_keys d) s2 of
        None \<Rightarrow> (Inl ResealErr, d)
      | Some (keys, nk, s3) \<Rightarrow>
      (case resealSettings reseal (db_settings d) s3 of
        Inl e \<Rightarrow> (Inl e, d)
      | Inr (settings, ns, s4) \<Rightarrow>
          (Inr \<lparr>n_agents = na, n_targets = nt, n_device_keys = nk, n_settings = ns\<rparr>,
           if dryRun then d
           else d\<lparr>db_agents := agents, db_targets := targets, db_keys := keys,
                  db_settings := AList.update SealSaltSetting newSalt settings\<rparr>)))))"

subsection \<open>What re-sealing keeps\<close>

text \<open>Every sealed value of the database, row by row.\<close>

definition present :: "string list \<Rightarrow> string list" where "present = filter (\<lambda>v. v \<noteq> [])"

definition target_keys :: "Target \<Rightarrow> string list" where "target_keys t = [ta_SealedAdminKey t, ta_SealedMirrorKey t]"

definition setting_values :: "(string \<times> string) list \<Rightarrow> string list" where
  "setting_values rows = present (map setting_raw (filter sealed_setting rows))"

definition sealed_values :: "db \<Rightarrow> string list" where
  "sealed_values d = present (map ag_SealedBundle (db_agents d))
     @ present (concat (map target_keys (db_targets d)))
     @ present (map dk_SealedSecret (db_keys d)) @ setting_values (db_settings d)"

text \<open>The database without them, and without the salt.\<close>

definition unsealed_part :: "db \<Rightarrow> db" where
  "unsealed_part d = d\<lparr>db_agents := map (\<lambda>a. a\<lparr>ag_SealedBundle := []\<rparr>) (db_agents d),
     db_targets := map (\<lambda>t. t\<lparr>ta_SealedAdminKey := [], ta_SealedMirrorKey := []\<rparr>) (db_targets d),
     db_keys := map (\<lambda>k. k\<lparr>dk_SealedSecret := []\<rparr>) (db_keys d),
     db_settings := filter (\<lambda>kv. \<not> sealed_setting kv \<and> fst kv \<noteq> SealSaltSetting) (db_settings d)\<rparr>"

text \<open>
  A function that, from a state where \<open>I\<close> holds and wherever it succeeds, replaces a value
  by one related to it.
\<close>

definition resealing :: "('s \<Rightarrow> bool) \<Rightarrow> (string \<Rightarrow> string \<Rightarrow> bool) \<Rightarrow> 's reseal_fn \<Rightarrow> bool" where
  "resealing I R reseal \<longleftrightarrow> (\<forall>s v v' s'. I s \<and> reseal s v = (Some v', s') \<longrightarrow> I s' \<and> v' \<noteq> [] \<and> R v v')"

definition related :: "(string \<Rightarrow> string \<Rightarrow> bool) \<Rightarrow> string \<Rightarrow> string \<Rightarrow> bool" where
  "related R v v' \<longleftrightarrow> (if v = [] then v' = [] else v' \<noteq> [] \<and> R v v')"

lemma reseal_rows_rel:
  assumes "\<And>s r r' s'. I s \<Longrightarrow> \<not> skip r \<Longrightarrow> f s r = (Some r', s') \<Longrightarrow> I s' \<and> P r r'" and "\<And>r. skip r \<Longrightarrow> P r r"
    and "reseal_rows skip f rows s = Some (rows', n, s')" and "I s"
  shows "list_all2 P rows rows' \<and> I s'"
  using assms(3,4)
proof (induction rows arbitrary: rows' n s)
  case (Cons r rows)
  show ?case
  proof (cases "skip r")
    case True
    with Cons assms(2) show ?thesis by auto
  next
    case False
    obtain x s1 where x: "f s r = (x, s1)" by (cases "f s r")
    with False Cons.prems obtain r' rs m where r': "x = Some r'" "rows' = r' # rs" "reseal_rows skip f rows s1 = Some (rs, m, s')"
      by (auto split: option.splits)
    have "I s1 \<and> P r r'" using assms(1)[OF Cons.prems(2) False] x r'(1) by blast
    with Cons.IH[OF r'(3)] r'(2) show ?thesis by simp
  qed
qed simp

lemma present_rel: "list_all2 (related R) vs vs' \<Longrightarrow> list_all2 R (present vs) (present vs')"
  by (induction rule: list_all2_induct) (auto simp: present_def related_def split: if_splits)

lemma resealBlobs_rel:
  assumes "resealing I R reseal" and "I s" and "resealBlobs get put reseal rows s = Some (rows', n, s')"
    and "\<And>v r. get (put v r) = v" and "\<And>v r. put [] (put v r) = put [] r"
  shows "list_all2 R (present (map get rows)) (present (map get rows'))" "map (put []) rows' = map (put []) rows" "I s'"
proof -
  have "list_all2 (\<lambda>r r'. related R (get r) (get r') \<and> put [] r' = put [] r) rows rows' \<and> I s'"
  proof (rule reseal_rows_rel[where I = I, OF _ _ assms(3)[unfolded resealBlobs_def] assms(2)])
    fix s r r' s' assume "I s" "get r \<noteq> []" and f: "map_prod (map_option (\<lambda>v. put v r)) (\<lambda>s. s) (reseal s (get r)) = (Some r', s')"
    moreover from f obtain v where "reseal s (get r) = (Some v, s')" "r' = put v r" by (cases "reseal s (get r)") auto
    ultimately show "I s' \<and> related R (get r) (get r') \<and> put [] r' = put [] r"
      using assms(1,4,5) by (auto simp: resealing_def related_def)
  qed (simp add: related_def)
  then have all: "list_all2 (\<lambda>r r'. related R (get r) (get r') \<and> put [] r' = put [] r) rows rows'" and I: "I s'" by auto
  from I show "I s'" .
  from all have "list_all2 (related R) (map get rows) (map get rows')" by (auto simp: list_all2_conv_all_nth)
  then show "list_all2 R (present (map get rows)) (present (map get rows'))" by (rule present_rel)
  from all show "map (put []) rows' = map (put []) rows" by (auto simp: list_all2_conv_all_nth intro!: nth_equalityI)
qed

lemma reseal_opt_rel: "resealing I R reseal \<Longrightarrow> I s \<Longrightarrow> reseal_opt reseal s v = (Some v', s') \<Longrightarrow> I s' \<and> related R v v'"
  by (auto simp: reseal_opt_def resealing_def related_def split: if_splits)

abbreviation blank_target :: "Target \<Rightarrow> Target" where
  "blank_target t \<equiv> t\<lparr>ta_SealedAdminKey := [], ta_SealedMirrorKey := []\<rparr>"

lemma reseal_target_rel:
  assumes "resealing I R reseal" and "I s" and "reseal_target reseal s t = (Some t', s')"
  shows "I s' \<and> list_all2 (related R) (target_keys t) (target_keys t') \<and> blank_target t' = blank_target t"
proof -
  from assms(3) obtain admin s1 mirror where o: "reseal_opt reseal s (ta_SealedAdminKey t) = (Some admin, s1)"
    "reseal_opt reseal s1 (ta_SealedMirrorKey t) = (Some mirror, s')"
    "t' = t\<lparr>ta_SealedAdminKey := admin, ta_SealedMirrorKey := mirror\<rparr>"
    by (auto simp: reseal_target_def split: prod.splits option.splits)
  from reseal_opt_rel[OF assms(1,2) o(1)] reseal_opt_rel[OF assms(1) _ o(2)] o(3) show ?thesis by (simp add: target_keys_def)
qed

lemma concat_rel: "list_all2 (\<lambda>a b. list_all2 Q (g a) (g b)) xs ys \<Longrightarrow> list_all2 Q (concat (map g xs)) (concat (map g ys))"
  by (induction rule: list_all2_induct) (auto intro: list_all2_appendI)

lemma resealTargets_rel:
  assumes "resealing I R reseal" and "I s" and "resealTargets reseal rows s = Some (rows', n, s')"
  shows "list_all2 R (present (concat (map target_keys rows))) (present (concat (map target_keys rows')))"
    "map blank_target rows' = map blank_target rows" "I s'"
proof -
  have all: "list_all2 (\<lambda>t t'. list_all2 (related R) (target_keys t) (target_keys t') \<and> blank_target t' = blank_target t) rows rows' \<and> I s'"
    by (rule reseal_rows_rel[where I = I, OF _ _ assms(3)[unfolded resealTargets_def] assms(2)])
      (use reseal_target_rel[OF assms(1)] in \<open>auto simp: target_keys_def related_def\<close>)
  then have "list_all2 (\<lambda>t t'. list_all2 (related R) (target_keys t) (target_keys t')) rows rows'"
    by (auto elim: list_all2_mono)
  then show "list_all2 R (present (concat (map target_keys rows))) (present (concat (map target_keys rows')))"
    by (intro present_rel concat_rel)
  from all show "map blank_target rows' = map blank_target rows" "I s'"
    by (auto simp: list_all2_conv_all_nth intro!: nth_equalityI)
qed

definition setting_rel :: "(string \<Rightarrow> string \<Rightarrow> bool) \<Rightarrow> string \<times> string \<Rightarrow> string \<times> string \<Rightarrow> bool" where
  "setting_rel R kv kv' \<longleftrightarrow> fst kv' = fst kv \<and> (if sealed_setting kv then related R (setting_raw kv) (setting_raw kv') else kv' = kv)"

lemma sealed_setting_key: "fst kv = fst kv' \<Longrightarrow> sealed_setting kv = sealed_setting kv'"
  by (simp add: sealed_setting_def)

lemma setting_raw_hex [simp]: "setting_raw (k, hex_EncodeToString v) = v"
  by (simp add: setting_raw_def hex_round_trip)

lemma resealSettings_rel:
  assumes "resealing I R reseal" and "I s" and "resealSettings reseal rows s = Inr (rows', n, s')"
  shows "list_all2 (setting_rel R) rows rows'"
proof -
  let ?skip = "\<lambda>kv. \<not> sealed_setting kv \<or> setting_raw kv = []"
  let ?f = "\<lambda>s kv. map_prod (map_option (\<lambda>v. (fst kv, hex_EncodeToString v))) (\<lambda>s. s) (reseal s (setting_raw kv))"
  have rows: "reseal_rows ?skip ?f rows s = Some (rows', n, s')" using assms(3) by (auto simp: resealSettings_def split: option.splits)
  have "list_all2 (setting_rel R) rows rows' \<and> I s'"
  proof (rule reseal_rows_rel[where I = I, OF _ _ rows assms(2)])
    fix s kv kv' s' assume I: "I s" "\<not> ?skip kv" and f: "?f s kv = (Some kv', s')"
    from f obtain v where "reseal s (setting_raw kv) = (Some v, s')" "kv' = (fst kv, hex_EncodeToString v)"
      by (cases "reseal s (setting_raw kv)") auto
    with I assms(1) show "I s' \<and> setting_rel R kv kv'"
      by (auto simp: resealing_def setting_rel_def related_def)
  qed (auto simp: setting_rel_def related_def)
  then show ?thesis by simp
qed

lemma settings_values_rel:
  assumes "list_all2 (setting_rel R) rows rows'"
  shows "list_all2 R (setting_values rows) (setting_values rows')"
    "filter (\<lambda>kv. \<not> sealed_setting kv \<and> fst kv \<noteq> k) rows' = filter (\<lambda>kv. \<not> sealed_setting kv \<and> fst kv \<noteq> k) rows"
proof -
  have "list_all2 (related R) (map setting_raw (filter sealed_setting rows)) (map setting_raw (filter sealed_setting rows'))"
    using assms by (induction rule: list_all2_induct) (auto simp: setting_rel_def split: if_splits dest: sealed_setting_key)
  then show "list_all2 R (setting_values rows) (setting_values rows')" unfolding setting_values_def by (rule present_rel)
  show "filter (\<lambda>kv. \<not> sealed_setting kv \<and> fst kv \<noteq> k) rows' = filter (\<lambda>kv. \<not> sealed_setting kv \<and> fst kv \<noteq> k) rows"
    using assms by (induction rule: list_all2_induct) (auto simp: setting_rel_def split: if_splits dest: sealed_setting_key)
qed

lemma salt_not_sealed: "\<not> sealed_setting (SealSaltSetting, v)"
  by (simp add: sealed_setting_def SealSaltSetting_def SealedSettingPrefix_def) code_simp

lemma settings_salt:
  "filter sealed_setting (AList.update SealSaltSetting v rows) = filter sealed_setting rows"
  "filter (\<lambda>kv. \<not> sealed_setting kv \<and> fst kv \<noteq> SealSaltSetting) (AList.update SealSaltSetting v rows)
     = filter (\<lambda>kv. \<not> sealed_setting kv \<and> fst kv \<noteq> SealSaltSetting) rows"
  by (induction rows) (auto simp: salt_not_sealed)

lemma Reseal_values:
  assumes "Reseal newSalt False reseal s d = (Inr c, d')" and "resealing I R reseal" and "I s"
  shows "list_all2 R (sealed_values d) (sealed_values d')" "unsealed_part d' = unsealed_part d" "Setting SealSaltSetting d' = newSalt"
    "map fst (db_settings d') = map fst (AList.update SealSaltSetting newSalt (db_settings d))"
    "(db_admins d', db_sessions d', db_templates d', db_groups d', db_tokens d', db_commands d', db_reports d', db_jobs d', db_kit_acks d',
      db_repo_stats d') = (db_admins d, db_sessions d, db_templates d, db_groups d, db_tokens d, db_commands d, db_reports d, db_jobs d,
      db_kit_acks d, db_repo_stats d)"
proof -
  obtain agents na s1 targets nt s2 keys nk s3 settings ns s4 where
    a: "resealBlobs ag_SealedBundle (\<lambda>v a. a\<lparr>ag_SealedBundle := v\<rparr>) reseal (db_agents d) s = Some (agents, na, s1)" and
    t: "resealTargets reseal (db_targets d) s1 = Some (targets, nt, s2)" and
    k: "resealBlobs dk_SealedSecret (\<lambda>v k. k\<lparr>dk_SealedSecret := v\<rparr>) reseal (db_keys d) s2 = Some (keys, nk, s3)" and
    v: "resealSettings reseal (db_settings d) s3 = Inr (settings, ns, s4)" and
    d': "d' = d\<lparr>db_agents := agents, db_targets := targets, db_keys := keys, db_settings := AList.update SealSaltSetting newSalt settings\<rparr>"
    using assms(1) unfolding Reseal_def by (auto split: option.splits sum.splits prod.splits if_splits)
  note A = resealBlobs_rel[OF assms(2,3) a]
  note T = resealTargets_rel[OF assms(2) A(3) t]
  note K = resealBlobs_rel[OF assms(2) T(3) k]
  note S = settings_values_rel[OF resealSettings_rel[OF assms(2) K(3) v]]
  show "list_all2 R (sealed_values d) (sealed_values d')"
    unfolding sealed_values_def d'
    by (intro list_all2_appendI) (use A(1) T(1) K(1) S(1) in \<open>simp_all add: setting_values_def settings_salt\<close>)
  show "unsealed_part d' = unsealed_part d"
    unfolding unsealed_part_def d' using A(2) T(2) K(2) S(2)[of SealSaltSetting] by (simp add: settings_salt)
  show "Setting SealSaltSetting d' = newSalt" by (simp add: Setting_def d' update_conv)
  have "map fst settings = map fst (db_settings d)"
    using resealSettings_rel[OF assms(2) K(3) v] by (auto simp: list_all2_conv_all_nth setting_rel_def intro!: nth_equalityI)
  then show "map fst (db_settings d') = map fst (AList.update SealSaltSetting newSalt (db_settings d))"
    by (simp add: d' update_keys)
  show "(db_admins d', db_sessions d', db_templates d', db_groups d', db_tokens d', db_commands d', db_reports d', db_jobs d', db_kit_acks d',
      db_repo_stats d') = (db_admins d, db_sessions d, db_templates d, db_groups d, db_tokens d, db_commands d, db_reports d, db_jobs d,
      db_kit_acks d, db_repo_stats d)" by (simp add: d')
qed

lemma Reseal_unchanged: "Reseal newSalt dryRun reseal s d = (Inl e, d') \<Longrightarrow> d' = d" "Reseal newSalt True reseal s d = (r, d') \<Longrightarrow> d' = d"
  unfolding Reseal_def by (auto split: option.splits sum.splits prod.splits if_splits)

end
