(* ===== verification/Passphrase_Rotation.thy ===== *)
theory Passphrase_Rotation
  imports Reseal
begin

section \<open>Rotation of the sealing passphrase\<close>

text \<open>
  Models \<^verbatim>\<open>RotatePassphrase\<close> and \<^verbatim>\<open>recoverPendingKey\<close> of \<^verbatim>\<open>src/fleet/api/admin_passphrase.go\<close> and
  \<^verbatim>\<open>load\<close> of \<^verbatim>\<open>src/fleet/api/server.go\<close>: the key file, the pending key file beside it, and the
  database. A rotation is also taken apart into the steps a crash can fall between. The key
  derivation (argon2id) and the cipher are parameters; a file is its contents, and a
  secret file is written atomically (\<^verbatim>\<open>writeSecretFile\<close>).
\<close>

definition minPassphraseLen :: nat where "minPassphraseLen = 12"

datatype rotate_error = ErrWeakPassphrase | StateErr | BadStoredSalt | ErrWrongPassphrase | PendingWriteErr
  | RotateReseal reseal_error | RenameErr

record disk =
  fd_key :: "string option"
  fd_pending :: "string option"
  fd_db :: db

type_synonym kdf = "string \<Rightarrow> string \<Rightarrow> string"
type_synonym sb_seal = "string \<Rightarrow> string \<Rightarrow> string \<Rightarrow> string"
type_synonym sb_open = "string \<Rightarrow> string \<Rightarrow> string \<Rightarrow> string option"

text \<open>The function handed to Reseal: open under the old key, seal under the new one with the next nonce.\<close>

definition rotate_value :: "sb_open \<Rightarrow> sb_seal \<Rightarrow> string \<Rightarrow> string \<Rightarrow> string option list reseal_fn" where
  "rotate_value opn sel old new nonces sealed =
     (case Key_Open opn old sealed of
        None \<Rightarrow> (None, nonces)
      | Some plain \<Rightarrow> (case nonces of [] \<Rightarrow> (None, []) | n # ns \<Rightarrow> (Key_Seal sel new n plain, ns)))"

text \<open>
  Everything before the first write: the new key, where the current passphrase is right.
  \<open>stateErr\<close> says whether the start left an unresolved pending key.
\<close>

definition rotate_check :: "kdf \<Rightarrow> bool \<Rightarrow> string \<Rightarrow> string \<Rightarrow> string \<Rightarrow> string \<Rightarrow> db \<Rightarrow> rotate_error + string" where
  "rotate_check derive stateErr current new_pass newSalt old d =
     (if length new_pass < minPassphraseLen then Inl ErrWeakPassphrase
      else if stateErr then Inl StateErr
      else case hex_DecodeString (Setting SealSaltSetting d) of
        None \<Rightarrow> Inl BadStoredSalt
      | Some salt \<Rightarrow>
          if salt = [] then Inl BadStoredSalt
          else if derive current salt \<noteq> old then Inl ErrWrongPassphrase
          else Inr (derive new_pass newSalt))"

definition write_pending :: "string \<Rightarrow> string \<Rightarrow> disk \<Rightarrow> disk" where
  "write_pending newKey newSalt f = f\<lparr>fd_pending := Some (WritePendingKeyFile newKey newSalt)\<rparr>"

definition rename_pending :: "disk \<Rightarrow> disk" where
  "rename_pending f = f\<lparr>fd_key := fd_pending f, fd_pending := None\<rparr>"

definition reseal_db :: "sb_open \<Rightarrow> sb_seal \<Rightarrow> string \<Rightarrow> string \<Rightarrow> string \<Rightarrow> bool \<Rightarrow> string option list \<Rightarrow> disk
    \<Rightarrow> (reseal_error + counts) \<times> disk" where
  "reseal_db opn sel old newKey newSalt dryRun nonces f =
     (case Reseal (hex_EncodeToString newSalt) dryRun (rotate_value opn sel old newKey) nonces (fd_db f) of
        (r, d') \<Rightarrow> (r, f\<lparr>fd_db := d'\<rparr>))"

text \<open>
  The whole call: its result, the key the process goes on with, and the disk. Whether the
  pending file can be written and renamed are inputs.
\<close>

definition RotatePassphrase :: "kdf \<Rightarrow> sb_open \<Rightarrow> sb_seal \<Rightarrow> bool \<Rightarrow> string \<Rightarrow> string \<Rightarrow> bool \<Rightarrow> string \<Rightarrow> string option list \<Rightarrow> bool \<Rightarrow> bool
    \<Rightarrow> string \<Rightarrow> disk \<Rightarrow> (rotate_error + counts) \<times> string \<times> disk" where
  "RotatePassphrase derive opn sel stateErr current new_pass dryRun newSalt nonces write_ok rename_ok old f =
     (case rotate_check derive stateErr current new_pass newSalt old (fd_db f) of
        Inl e \<Rightarrow> (Inl e, old, f)
      | Inr newKey \<Rightarrow>
          if \<not> dryRun \<and> \<not> write_ok then (Inl PendingWriteErr, old, f)
          else let f1 = (if dryRun then f else write_pending newKey newSalt f)
          in case reseal_db opn sel old newKey newSalt dryRun nonces f1 of
               (Inl e, f2) \<Rightarrow> (Inl (RotateReseal e), old, f2)
             | (Inr c, f2) \<Rightarrow>
                 if dryRun then (Inr c, old, f2)
                 else if rename_ok then (Inr c, newKey, rename_pending f2)
                 else (Inl RenameErr, newKey, f2))"

text \<open>
  The start: an unreadable pending file, an unreadable store, a store without a salt and
  a failing rename keep the file and stop the server.
\<close>

datatype load_error = KeepPending | RemoveErr | BadKeyFile

definition recoverPendingKey :: "bool \<Rightarrow> bool \<Rightarrow> bool \<Rightarrow> disk \<Rightarrow> load_error option \<times> disk" where
  "recoverPendingKey db_ok rename_ok remove_ok f =
     (case fd_pending f of
        None \<Rightarrow> (None, f)
      | Some b \<Rightarrow>
          (case ReadPendingKeyFile b of
             None \<Rightarrow> (Some KeepPending, f)
           | Some (k, salt) \<Rightarrow>
               let stored = Setting SealSaltSetting (fd_db f)
               in if \<not> db_ok \<or> stored = [] then (Some KeepPending, f)
                  else if stored = hex_EncodeToString salt then
                    (if rename_ok then (None, rename_pending f) else (Some KeepPending, f))
                  else if remove_ok then (None, f\<lparr>fd_pending := None\<rparr>)
                  else (Some RemoveErr, f)))"

definition load :: "bool \<Rightarrow> bool \<Rightarrow> bool \<Rightarrow> disk \<Rightarrow> (load_error + string) \<times> disk" where
  "load db_ok rename_ok remove_ok f =
     (case recoverPendingKey db_ok rename_ok remove_ok f of
        (Some e, f1) \<Rightarrow> (Inl e, f1)
      | (None, f1) \<Rightarrow>
          (case fd_key f1 of
             None \<Rightarrow> (Inl BadKeyFile, f1)
           | Some b \<Rightarrow> (case ReadKeyFile b of None \<Rightarrow> (Inl BadKeyFile, f1) | Some k \<Rightarrow> (Inr k, f1))))"

subsection \<open>Rotations, crashes and restarts\<close>

datatype proc = Stopped | Serving string | Pending string string string | Committed string

text \<open>A key opens everything that is sealed in the database.\<close>

definition opens :: "sb_open \<Rightarrow> string \<Rightarrow> db \<Rightarrow> bool" where
  "opens opn k d \<longleftrightarrow> (\<forall>v \<in> set (sealed_values d). Key_Open opn k v \<noteq> None)"

text \<open>What the code relies on of the cipher, and of the nonces it draws.\<close>

definition secretbox_laws :: "sb_open \<Rightarrow> sb_seal \<Rightarrow> bool" where
  "secretbox_laws opn sel \<longleftrightarrow> (\<forall>m n k. length n = nonceSize \<longrightarrow> opn (sel m n k) n k = Some m)
     \<and> (\<forall>m n k. length (sel m n k) = length m + secretbox_Overhead)"

definition good_nonces :: "string option list \<Rightarrow> bool" where
  "good_nonces nonces \<longleftrightarrow> (\<forall>n. Some n \<in> set nonces \<longrightarrow> length n = nonceSize)"

text \<open>
  One step of the server's life. While it serves, other handlers store values sealed under
  the key in memory; the rotation excludes them (\<^verbatim>\<open>sealMu\<close>). A fresh salt differs from the
  stored one. \<open>ren\<close> says whether the rename after a commit may fail.
\<close>

inductive rotation_step :: "bool \<Rightarrow> kdf \<Rightarrow> sb_open \<Rightarrow> sb_seal \<Rightarrow> disk \<times> proc \<Rightarrow> disk \<times> proc \<Rightarrow> bool"
  for ren derive opn sel where
  st_load: "load a b c f = (Inr k, f') \<Longrightarrow> rotation_step ren derive opn sel (f, Stopped) (f', Serving k)"
| st_load_fails: "load a b c f = (Inl e, f') \<Longrightarrow> rotation_step ren derive opn sel (f, Stopped) (f', Stopped)"
| st_other: "Setting SealSaltSetting d' = Setting SealSaltSetting (fd_db f)
    \<Longrightarrow> \<forall>v \<in> set (sealed_values d'). v \<in> set (sealed_values (fd_db f)) \<or> Key_Open opn k v \<noteq> None
    \<Longrightarrow> rotation_step ren derive opn sel (f, Serving k) (f\<lparr>fd_db := d'\<rparr>, Serving k)"
| st_write: "rotate_check derive False current new_pass newSalt k (fd_db f) = Inr newKey
    \<Longrightarrow> newSalt \<noteq> [] \<Longrightarrow> hex_EncodeToString newSalt \<noteq> Setting SealSaltSetting (fd_db f)
    \<Longrightarrow> rotation_step ren derive opn sel (f, Serving k) (write_pending newKey newSalt f, Pending k newKey newSalt)"
| st_reseal_fails: "reseal_db opn sel k newKey newSalt False nonces f = (Inl e, f')
    \<Longrightarrow> rotation_step ren derive opn sel (f, Pending k newKey newSalt) (f', Serving k)"
| st_commit: "reseal_db opn sel k newKey newSalt False nonces f = (Inr cn, f') \<Longrightarrow> good_nonces nonces
    \<Longrightarrow> rotation_step ren derive opn sel (f, Pending k newKey newSalt) (f', Committed newKey)"
| st_rename: "rotation_step ren derive opn sel (f, Committed k) (rename_pending f, Serving k)"
| st_rename_fails: "ren \<Longrightarrow> rotation_step ren derive opn sel (f, Committed k) (f, Serving k)"
| st_crash: "rotation_step ren derive opn sel (f, p) (f, Stopped)"

inductive rotation_run :: "bool \<Rightarrow> kdf \<Rightarrow> sb_open \<Rightarrow> sb_seal \<Rightarrow> disk \<times> proc \<Rightarrow> disk \<times> proc \<Rightarrow> bool"
  for ren derive opn sel s0 where
  rr_init: "rotation_run ren derive opn sel s0 s0"
| rr_step: "rotation_run ren derive opn sel s0 s \<Longrightarrow> rotation_step ren derive opn sel s s' \<Longrightarrow> rotation_run ren derive opn sel s0 s'"

text \<open>The call is the sequence of its steps.\<close>

lemma RotatePassphrase_run:
  assumes "RotatePassphrase derive opn sel False current new_pass False newSalt nonces write_ok rename_ok k f = (r, k', f')"
    and "newSalt \<noteq> []" and "hex_EncodeToString newSalt \<noteq> Setting SealSaltSetting (fd_db f)"
    and "good_nonces nonces"
  shows "rotation_run (\<not> rename_ok) derive opn sel (f, Serving k) (f', Serving k')"
proof (cases "rotate_check derive False current new_pass newSalt k (fd_db f)")
  case (Inl e)
  with assms(1) have "k' = k" "f' = f" by (auto simp: RotatePassphrase_def)
  then show ?thesis by (simp add: rr_init)
next
  case (Inr newKey)
  show ?thesis
  proof (cases write_ok)
    case False
    with Inr assms(1) show ?thesis by (auto simp: RotatePassphrase_def rr_init)
  next
    case True
    let ?f1 = "write_pending newKey newSalt f"
    have w: "rotation_run (\<not> rename_ok) derive opn sel (f, Serving k) (?f1, Pending k newKey newSalt)"
      by (rule rr_step[OF rr_init st_write[OF Inr assms(2,3)]])
    obtain x f2 where x: "reseal_db opn sel k newKey newSalt False nonces ?f1 = (x, f2)" by (cases "reseal_db opn sel k newKey newSalt False nonces ?f1")
    show ?thesis
    proof (cases x)
      case (Inl e)
      with Inr True x assms(1) have "k' = k" "f' = f2" by (auto simp: RotatePassphrase_def Let_def)
      with rr_step[OF w st_reseal_fails] x Inl show ?thesis by blast
    next
      case c: (Inr c)
      from rr_step[OF w st_commit[OF x[unfolded c] assms(4)]]
      have "rotation_run (\<not> rename_ok) derive opn sel (f, Serving k) (f2, Committed newKey)" .
      note fin = rr_step[OF this st_rename] rr_step[OF this st_rename_fails]
      from fin Inr True x c assms(1) show ?thesis by (auto simp: RotatePassphrase_def Let_def split: if_splits)
    qed
  qed
qed

subsection \<open>Re-sealing keeps every secret\<close>

text \<open>The old value opens under the old key, the new one under the new key, to the same secret.\<close>

definition same_secret :: "sb_open \<Rightarrow> string \<Rightarrow> string \<Rightarrow> string \<Rightarrow> string \<Rightarrow> bool" where
  "same_secret opn old new v v' \<longleftrightarrow> Key_Open opn old v \<noteq> None \<and> Key_Open opn new v' = Key_Open opn old v"

lemma rotate_value_resealing:
  assumes "secretbox_laws opn sel"
  shows "resealing good_nonces (same_secret opn old new) (rotate_value opn sel old new)"
  unfolding resealing_def
proof (intro allI impI, elim conjE)
  fix nonces v v' nonces' assume g: "good_nonces nonces" and r: "rotate_value opn sel old new nonces v = (Some v', nonces')"
  from r obtain plain n where p: "Key_Open opn old v = Some plain" "nonces = n # nonces'" "Key_Seal sel new n plain = Some v'"
    by (auto simp: rotate_value_def split: option.splits list.splits)
  then obtain m where m: "n = Some m" by (cases n) (auto simp: Key_Seal_def)
  have len: "length m = nonceSize" using g p(2) m by (simp add: good_nonces_def)
  note ks = Key_Open_Seal[of opn sel m new plain v', OF _ _ len p(3)[unfolded m]]
  have "Key_Open opn new v' = Some plain" "length v' = nonceSize + secretbox_Overhead + length plain"
    using ks assms by (auto simp: secretbox_laws_def)
  moreover have "v' \<noteq> []" using p(3) len m by (auto simp: Key_Seal_def nonceSize_def)
  ultimately show "good_nonces nonces' \<and> v' \<noteq> [] \<and> same_secret opn old new v v'"
    using g p(1,2) by (simp add: good_nonces_def same_secret_def)
qed

lemmas Reseal_secrets = Reseal_values[OF _ rotate_value_resealing]

lemma same_secret_map: "list_all2 (same_secret opn old new) vs vs' \<Longrightarrow> map (Key_Open opn new) vs' = map (Key_Open opn old) vs"
  by (induction rule: list_all2_induct) (auto simp: same_secret_def)


subsection \<open>A crash at any point is survived\<close>

definition key_is :: "string \<Rightarrow> disk \<Rightarrow> bool" where
  "key_is k f \<longleftrightarrow> (\<exists>b. fd_key f = Some b \<and> ReadKeyFile b = Some k)"

text \<open>A pending file of a rotation that did not commit, and one of a rotation that did.\<close>

definition dead_pending :: "disk \<Rightarrow> bool" where
  "dead_pending f \<longleftrightarrow> fd_pending f = None \<or> (\<exists>k salt. fd_pending f = Some (WritePendingKeyFile k salt) \<and> length k = key_len \<and> salt \<noteq> []
     \<and> hex_EncodeToString salt \<noteq> Setting SealSaltSetting (fd_db f))"

definition live_pending :: "string \<Rightarrow> disk \<Rightarrow> bool" where
  "live_pending k f \<longleftrightarrow> (\<exists>salt. fd_pending f = Some (WritePendingKeyFile k salt) \<and> length k = key_len \<and> salt \<noteq> []
     \<and> hex_EncodeToString salt = Setting SealSaltSetting (fd_db f))"

definition consistent :: "sb_open \<Rightarrow> disk \<times> proc \<Rightarrow> bool" where
  "consistent opn s = (case s of (f, p) \<Rightarrow> Setting SealSaltSetting (fd_db f) \<noteq> [] \<and>
     (case p of
        Serving k \<Rightarrow> opens opn k (fd_db f) \<and> key_is k f \<and> dead_pending f
      | Pending k newKey newSalt \<Rightarrow> opens opn k (fd_db f) \<and> key_is k f \<and> length newKey = key_len \<and> newSalt \<noteq> []
          \<and> fd_pending f = Some (WritePendingKeyFile newKey newSalt) \<and> hex_EncodeToString newSalt \<noteq> Setting SealSaltSetting (fd_db f)
      | Committed k \<Rightarrow> opens opn k (fd_db f) \<and> live_pending k f
      | Stopped \<Rightarrow> \<exists>k. opens opn k (fd_db f) \<and> (key_is k f \<and> dead_pending f \<or> live_pending k f)))"

lemma ReadPendingKeyFile_pending: "length k = key_len \<Longrightarrow> salt \<noteq> [] \<Longrightarrow> ReadPendingKeyFile (WritePendingKeyFile k salt) = Some (k, salt)"
  by (simp add: ReadPendingKeyFile_def readKeyFile_pending)

lemma ReadKeyFile_pending: "length k = key_len \<Longrightarrow> salt \<noteq> [] \<Longrightarrow> ReadKeyFile (WritePendingKeyFile k salt) = Some k"
  by (simp add: ReadKeyFile_def readKeyFile_pending)

lemma hex_ne: "s \<noteq> [] \<Longrightarrow> hex_EncodeToString s \<noteq> []"
  by (cases s) (simp_all add: hex_EncodeToString_def)

lemma rename_live: "live_pending k f \<Longrightarrow> key_is k (rename_pending f) \<and> dead_pending (rename_pending f) \<and> fd_db (rename_pending f) = fd_db f"
  by (auto simp: live_pending_def key_is_def dead_pending_def rename_pending_def ReadKeyFile_pending)

lemma load_dead:
  assumes "key_is k f" and "dead_pending f" and "load a b c f = (r, f')" and "Setting SealSaltSetting (fd_db f) \<noteq> []"
  shows "(r = Inr k \<or> (\<exists>e. r = Inl e)) \<and> key_is k f' \<and> dead_pending f' \<and> fd_db f' = fd_db f \<and> (a \<and> c \<longrightarrow> r = Inr k)"
proof (cases "fd_pending f")
  case None
  with assms show ?thesis by (auto simp: load_def recoverPendingKey_def key_is_def)
next
  case (Some b')
  with assms(2) obtain k' salt where p: "b' = WritePendingKeyFile k' salt" "length k' = key_len" "salt \<noteq> []"
    "hex_EncodeToString salt \<noteq> Setting SealSaltSetting (fd_db f)" by (auto simp: dead_pending_def)
  from assms(1) obtain x where x: "fd_key f = Some x" "ReadKeyFile x = Some k" by (auto simp: key_is_def)
  have "recoverPendingKey a b c f = (if \<not> a then (Some KeepPending, f) else if c then (None, f\<lparr>fd_pending := None\<rparr>) else (Some RemoveErr, f))"
    using Some p assms(4) by (simp add: recoverPendingKey_def ReadPendingKeyFile_pending Let_def eq_commute)
  with assms(1-3) x show ?thesis
    by (cases a; cases c) (auto simp: load_def key_is_def dead_pending_def)
qed

lemma load_live:
  assumes "live_pending k f" and "load a b c f = (r, f')" and "Setting SealSaltSetting (fd_db f) \<noteq> []"
  shows "(r = Inr k \<and> key_is k f' \<and> dead_pending f' \<or> (\<exists>e. r = Inl e) \<and> f' = f) \<and> fd_db f' = fd_db f \<and> (a \<and> b \<longrightarrow> r = Inr k)"
proof -
  from assms(1) obtain salt where p: "fd_pending f = Some (WritePendingKeyFile k salt)" "length k = key_len" "salt \<noteq> []"
    "hex_EncodeToString salt = Setting SealSaltSetting (fd_db f)" by (auto simp: live_pending_def)
  have "recoverPendingKey a b c f = (if \<not> a then (Some KeepPending, f) else if b then (None, rename_pending f) else (Some KeepPending, f))"
    using p assms(3) by (simp add: recoverPendingKey_def ReadPendingKeyFile_pending Let_def)
  moreover obtain x where "fd_key (rename_pending f) = Some x" "ReadKeyFile x = Some k"
    using rename_live[OF assms(1)] by (auto simp: key_is_def)
  ultimately show ?thesis using assms(2) rename_live[OF assms(1)] by (cases a; cases b) (auto simp: load_def)
qed

lemma opens_resealed:
  assumes "secretbox_laws opn sel" and "good_nonces nonces" and "reseal_db opn sel old new newSalt False nonces f = (Inr c, f')"
  shows "opens opn new (fd_db f')" "Setting SealSaltSetting (fd_db f') = hex_EncodeToString newSalt"
    "fd_pending f' = fd_pending f" "fd_key f' = fd_key f"
proof -
  obtain d' where r: "Reseal (hex_EncodeToString newSalt) False (rotate_value opn sel old new) nonces (fd_db f) = (Inr c, d')"
    and f': "f' = f\<lparr>fd_db := d'\<rparr>" using assms(3) by (auto simp: reseal_db_def split: prod.splits)
  note v = Reseal_secrets[OF r assms(1,2)]
  show "opens opn new (fd_db f')" using v(1) unfolding f' opens_def same_secret_def list_all2_conv_all_nth
    by simp (metis in_set_conv_nth)
  show "Setting SealSaltSetting (fd_db f') = hex_EncodeToString newSalt" using v(3) by (simp add: f')
qed (use assms(3) in \<open>auto simp: reseal_db_def split: prod.splits\<close>)

lemma consistent_step:
  assumes "rotation_step False derive opn sel s s'" and "consistent opn s" and "secretbox_laws opn sel"
    and "\<And>p salt. length (derive p salt) = key_len"
  shows "consistent opn s'"
  using assms(1,2)
proof (cases rule: rotation_step.cases)
  case (st_load a b c f k f')
  from assms(2) obtain k0 where k0: "opens opn k0 (fd_db f)" "key_is k0 f \<and> dead_pending f \<or> live_pending k0 f"
    and salt: "Setting SealSaltSetting (fd_db f) \<noteq> []" by (auto simp: st_load consistent_def)
  from k0(2) show ?thesis
    using load_dead[OF _ _ st_load(3) salt, of k0] load_live[OF _ st_load(3) salt, of k0] k0(1) salt
    by (auto simp: st_load consistent_def)
next
  case (st_load_fails a b c f e f')
  from assms(2) obtain k0 where k0: "opens opn k0 (fd_db f)" "key_is k0 f \<and> dead_pending f \<or> live_pending k0 f"
    and salt: "Setting SealSaltSetting (fd_db f) \<noteq> []" by (auto simp: st_load_fails consistent_def)
  from k0(2) show ?thesis
    using load_dead[OF _ _ st_load_fails(3) salt, of k0] load_live[OF _ st_load_fails(3) salt, of k0] k0(1) salt
    by (auto simp: st_load_fails consistent_def)
next
  case (st_other d' f k)
  with assms(2) show ?thesis by (auto simp: consistent_def opens_def key_is_def dead_pending_def)
next
  case (st_write current new_pass newSalt k f newKey)
  have "length newKey = key_len" using st_write(3) assms(4) by (auto simp: rotate_check_def split: if_splits option.splits)
  with st_write assms(2) show ?thesis by (auto simp: consistent_def write_pending_def key_is_def)
next
  case (st_reseal_fails k newKey newSalt nonces f e f')
  have "f' = f" using st_reseal_fails(3) by (auto simp: reseal_db_def split: prod.splits dest: Reseal_unchanged(1))
  with st_reseal_fails assms(2) show ?thesis by (auto simp: consistent_def dead_pending_def)
next
  case (st_commit k newKey newSalt nonces f cn f')
  note o = opens_resealed[OF assms(3) st_commit(4) st_commit(3)]
  from assms(2) o show ?thesis by (auto simp: st_commit consistent_def live_pending_def hex_ne)
next
  case (st_rename f k)
  with assms(2) rename_live[of k f] show ?thesis by (simp add: consistent_def)
next
  case (st_crash f p)
  with assms(2) show ?thesis by (cases p) (auto simp: consistent_def dead_pending_def)
qed simp


subsection \<open>A failing rename\<close>

text \<open>A small fleet, with a cipher whose box starts with part of the key.\<close>

definition key_tag :: "string \<Rightarrow> string" where "key_tag k = take 16 (k @ replicate 16 CHR ''.'')"

definition tag_seal :: sb_seal where "tag_seal m n k = key_tag k @ m"

definition tag_open :: sb_open where "tag_open b n k = (if take 16 b = key_tag k then Some (drop 16 b) else None)"

definition toy_kdf :: kdf where "toy_kdf p salt = take 32 (p @ salt @ replicate 32 CHR ''.'')"

definition toy_nonces :: "string option list" where "toy_nonces = [Some (replicate 24 CHR ''n'')]"

definition toy_key :: string where "toy_key = toy_kdf ''passphrase-0'' ''salt''"

definition toy_db :: db where
  "toy_db = empty_db\<lparr>db_settings := [(''seal_salt'', hex_EncodeToString ''salt''),
     (''sealed_smtp_password'', hex_EncodeToString (the (Key_Seal tag_seal toy_key (hd toy_nonces) ''secret'')))]\<rparr>"

definition toy_disk :: disk where
  "toy_disk = \<lparr>fd_key = Some (WriteKeyFile toy_key), fd_pending = None, fd_db = toy_db\<rparr>"

lemma tag_laws: "secretbox_laws tag_open tag_seal"
proof -
  have "length (key_tag k) = 16" for k by (simp add: key_tag_def)
  then show ?thesis by (simp add: secretbox_laws_def tag_seal_def tag_open_def secretbox_Overhead_def)
qed

lemma toy_kdf_len: "length (toy_kdf p salt) = key_len"
  by (simp add: toy_kdf_def key_len_def)

lemma toy_nonces_good: "good_nonces toy_nonces"
  by (simp add: good_nonces_def toy_nonces_def nonceSize_def)

text \<open>The first rotation, up to its commit.\<close>

definition toy_pending :: disk where
  "toy_pending = write_pending (toy_kdf ''passphrase-1'' ''pepper'') ''pepper'' toy_disk"

definition toy_committed :: disk where
  "toy_committed = snd (reseal_db tag_open tag_seal toy_key (toy_kdf ''passphrase-1'' ''pepper'') ''pepper'' False toy_nonces toy_pending)"

lemma toy_commit_run: "rotation_run ren toy_kdf tag_open tag_seal (toy_disk, Serving toy_key) (toy_committed, Committed (toy_kdf ''passphrase-1'' ''pepper''))"
proof -
  have "rotate_check toy_kdf False ''passphrase-0'' ''passphrase-1'' ''pepper'' toy_key (fd_db toy_disk) = Inr (toy_kdf ''passphrase-1'' ''pepper'')"
    by code_simp
  moreover have "hex_EncodeToString ''pepper'' \<noteq> Setting SealSaltSetting (fd_db toy_disk)" by code_simp
  ultimately have w: "rotation_step ren toy_kdf tag_open tag_seal (toy_disk, Serving toy_key)
      (toy_pending, Pending toy_key (toy_kdf ''passphrase-1'' ''pepper'') ''pepper'')"
    unfolding toy_pending_def by (intro st_write) simp_all
  have "reseal_db tag_open tag_seal toy_key (toy_kdf ''passphrase-1'' ''pepper'') ''pepper'' False toy_nonces toy_pending
      = (Inr \<lparr>n_agents = 0, n_targets = 0, n_device_keys = 0, n_settings = 1\<rparr>, toy_committed)" by code_simp
  from rr_step[OF rr_step[OF rr_init w] st_commit[OF this toy_nonces_good]] show ?thesis .
qed

lemma toy_opens: "opens tag_open toy_key toy_db"
  by code_simp



text \<open>
  C37. A failing rename can lose the key. After a rotation whose rename failed, the process
  goes on under the new key and only the pending file holds it. The next rotation
  overwrites that file before its own transaction; if the server then crashes, the start
  deletes the file, since its salt is not the stored one, and serves with the key of
  before the first rotation, which opens nothing.
\<close>

theorem rename_failure_loses_key:
  "\<exists>f. rotation_run True toy_kdf tag_open tag_seal (toy_disk, Serving toy_key) (f, Serving toy_key)
     \<and> \<not> opens tag_open toy_key (fd_db f) \<and> fd_pending f = None \<and> fd_key f = Some (WriteKeyFile toy_key)"
proof -
  let ?k1 = "toy_kdf ''passphrase-1'' ''pepper''" and ?k2 = "toy_kdf ''passphrase-2'' ''ginger''"
  let ?f = "toy_committed\<lparr>fd_pending := None\<rparr>"
  have "rotate_check toy_kdf False ''passphrase-1'' ''passphrase-2'' ''ginger'' ?k1 (fd_db toy_committed) = Inr ?k2" by code_simp
  moreover have "hex_EncodeToString ''ginger'' \<noteq> Setting SealSaltSetting (fd_db toy_committed)" by code_simp
  ultimately have w: "rotation_step True toy_kdf tag_open tag_seal (toy_committed, Serving ?k1)
      (write_pending ?k2 ''ginger'' toy_committed, Pending ?k1 ?k2 ''ginger'')" by (intro st_write) simp_all
  have "load True True True (write_pending ?k2 ''ginger'' toy_committed) = (Inr toy_key, ?f)" by code_simp
  from rr_step[OF rr_step[OF rr_step[OF rr_step[OF toy_commit_run st_rename_fails] w] st_crash] st_load[OF this]]
  have "rotation_run True toy_kdf tag_open tag_seal (toy_disk, Serving toy_key) (?f, Serving toy_key)" by simp
  moreover have "\<not> opens tag_open toy_key (fd_db ?f)" by code_simp
  moreover have "fd_key ?f = Some (WriteKeyFile toy_key)" by code_simp
  ultimately show ?thesis by (intro exI[of _ ?f]) simp
qed

end
