(* ===== verification/Fleet_Invariants.thy ===== *)
theory Fleet_Invariants
  imports Reseal
begin

section \<open>Invariants of the fleet database\<close>

text \<open>
  One step is one statement or transaction of the store package, whoever issues it. Every
  reachable database satisfies every constraint of \<^verbatim>\<open>schema.sql\<close>; a group that still has
  repositories stays where it is; an enrollment token is spent at most as often as it
  allows; the batch queries of the dashboard agree with the per-device ones.
\<close>

subsection \<open>Steps\<close>

datatype db_event = Consumed string gotime | TokenCreated string | SessionCreated string | AgentCreated string | OtherEvent

inductive db_step :: "db \<Rightarrow> db_event \<Rightarrow> db \<Rightarrow> bool" where
  s_CreateAdmin: "CreateAdmin email pw at d = Inr (i, d') \<Longrightarrow> db_step d OtherEvent d'"
| s_UpdateAdminPassword: "UpdateAdminPassword i pw d = (e, d') \<Longrightarrow> db_step d OtherEvent d'"
| s_DeleteAdmin: "DeleteAdmin i d = (e, d') \<Longrightarrow> db_step d OtherEvent d'"
| s_CreateSession: "CreateSession h a now ex d = Inr (i, d') \<Longrightarrow> db_step d (SessionCreated h) d'"
| s_RevokeSession: "db_step d OtherEvent (RevokeSession i at d)"
| s_RevokeSessions: "db_step d OtherEvent (RevokeSessionsForAdminExcept a i at d)"
| s_CreateTarget: "CreateTarget t d = (i, d') \<Longrightarrow> db_step d OtherEvent d'"
| s_SetTargetMirror: "db_step d OtherEvent (SetTargetMirror t d)"
| s_SetTargetObjectLockVerified: "db_step d OtherEvent (SetTargetObjectLockVerified i at d)"
| s_CreateTemplate: "CreateTemplate pol te d = Some (i, d') \<Longrightarrow> db_step d OtherEvent d'"
| s_UpdateTemplate: "UpdateTemplate pol te d = Some d' \<Longrightarrow> db_step d OtherEvent d'"
| s_CreateGroup: "CreateGroup g d = Inr (i, d') \<Longrightarrow> db_step d OtherEvent d'"
| s_UpdateGroup: "UpdateGroup i name tid teid d = (e, d') \<Longrightarrow> db_step d OtherEvent d'"
| s_DeleteGroup: "DeleteGroup i now d = (e, d') \<Longrightarrow> db_step d OtherEvent d'"
| s_CreateToken: "CreateToken tk d = Inr (i, d') \<Longrightarrow> db_step d (TokenCreated (tk_Hash tk)) d'"
| s_ConsumeToken: "ConsumeToken i now d = (True, d') \<Longrightarrow> tk \<in> set (db_tokens d) \<Longrightarrow> tk_ID tk = i \<Longrightarrow> db_step d (Consumed (tk_Hash tk) now) d'"
| s_RevokeToken: "db_step d OtherEvent (RevokeToken i at d)"
| s_CreateAgent: "CreateAgent a d = Inr d' \<Longrightarrow> db_step d (AgentCreated (ag_ID a)) d'"
| s_TouchAgent: "db_step d OtherEvent (TouchAgent ai at version etag d)"
| s_RevokeAgent: "db_step d OtherEvent (RevokeAgent ai at d)"
| s_SetAgentBundle: "SetAgentBundle ai sealed d = (e, d') \<Longrightarrow> db_step d OtherEvent d'"
| s_DeleteAgent: "DeleteAgent ai d = (e, d') \<Longrightarrow> db_step d OtherEvent d'"
| s_RetireAgent: "db_step d OtherEvent (RetireAgent ai at d)"
| s_CreateDeviceKey: "CreateDeviceKeyRow k d = Inr d' \<Longrightarrow> db_step d OtherEvent d'"
| s_DisableDeviceKeys: "db_step d OtherEvent (d\<lparr>db_keys := snd (DisableDeviceKeysForAgent ai at (db_keys d))\<rparr>)"
| s_DisableDeviceKey: "db_step d OtherEvent (d\<lparr>db_keys := DisableDeviceKey kid at (db_keys d)\<rparr>)"
| s_DeleteDeviceKeys: "db_step d OtherEvent (d\<lparr>db_keys := snd (DeleteDeviceKeysForAgent ai (db_keys d))\<rparr>)"
| s_AddCommand: "AddCommand c d = Inr (i, d') \<Longrightarrow> db_step d OtherEvent d'"
| s_AckCommand: "AckCommand i ai at d = (e, d') \<Longrightarrow> db_step d OtherEvent d'"
| s_AddReport: "AddReport r d = Inr (i, d') \<Longrightarrow> db_step d OtherEvent d'"
| s_SetSettings: "db_step d OtherEvent (SetSettings kv d)"
| s_SetKitAck: "SetKitAck ai i at d = Inr d' \<Longrightarrow> db_step d OtherEvent d'"
| s_SetMirrored: "SetMirrored ai at n d = Inr d' \<Longrightarrow> db_step d OtherEvent d'"
| s_SetStats: "SetStats ai at l st n d = Inr d' \<Longrightarrow> db_step d OtherEvent d'"
| s_ReserveMirrorHides: "ReserveMirrorHides i dev at since n limit d = (r, d') \<Longrightarrow> db_step d OtherEvent d'"
| s_EnqueueJob: "EnqueueJob j d = Inr (i, d') \<Longrightarrow> db_step d OtherEvent d'"
| s_ScheduleReap: "ScheduleReap ai at d = Inr (i, d') \<Longrightarrow> db_step d OtherEvent d'"
| s_ClaimDueJob: "ClaimDueJob now d = Some (j, d') \<Longrightarrow> db_step d OtherEvent d'"
| s_FinishJob: "FinishJob i at st det d = (e2, d') \<Longrightarrow> db_step d OtherEvent d'"
| s_RequeueStaleJobs: "RequeueStaleJobs kind at d = (n2, d') \<Longrightarrow> db_step d OtherEvent d'"
| s_Reseal: "resealing (\<lambda>s :: string option list. True) (\<lambda>v v'. True) f \<Longrightarrow> Reseal salt dry f nonces d = (r2, d') \<Longrightarrow> db_step d OtherEvent d'"

inductive db_run :: "db \<Rightarrow> db_event list \<Rightarrow> db \<Rightarrow> bool" for d0 where
  run_start: "db_run d0 [] d0"
| run_next: "db_run d0 es d \<Longrightarrow> db_step d e d' \<Longrightarrow> db_run d0 (e # es) d'"

subsection \<open>The constraints of the schema\<close>

definition keys_ok :: "db \<Rightarrow> bool" where
  "keys_ok d \<longleftrightarrow>
     distinct (map ad_ID (db_admins d)) \<and> distinct (map ad_Email (db_admins d))
   \<and> distinct (map se_ID (db_sessions d)) \<and> distinct (map se_TokenHash (db_sessions d))
   \<and> distinct (map ta_ID (db_targets d)) \<and> distinct (map te_ID (db_templates d)) \<and> distinct (map gr_ID (db_groups d))
   \<and> distinct (map ag_ID (db_agents d)) \<and> distinct (map ag_BearerHash (db_agents d))
   \<and> distinct (map tk_ID (db_tokens d)) \<and> distinct (map tk_Hash (db_tokens d))
   \<and> distinct (map co_ID (db_commands d)) \<and> distinct (map re_ID (db_reports d))
   \<and> distinct (map (\<lambda>r. (re_AgentID r, re_TaskID r)) (db_reports d))
   \<and> distinct (map fst (db_settings d)) \<and> distinct (map dk_AccessKeyID (db_keys d)) \<and> distinct (map jo_ID (db_jobs d))
   \<and> distinct (map ka_AgentID (db_kit_acks d)) \<and> distinct (map rp_AgentID (db_repo_stats d))"

definition refs_ok :: "db \<Rightarrow> bool" where
  "refs_ok d \<longleftrightarrow>
     se_AdminID ` set (db_sessions d) \<subseteq> ad_ID ` set (db_admins d)
   \<and> gr_TargetID ` set (db_groups d) \<subseteq> ta_ID ` set (db_targets d)
   \<and> gr_TemplateID ` set (db_groups d) \<subseteq> te_ID ` set (db_templates d)
   \<and> ag_GroupID ` set (db_agents d) \<subseteq> gr_ID ` set (db_groups d)
   \<and> tk_GroupID ` set (db_tokens d) \<subseteq> gr_ID ` set (db_groups d)
   \<and> co_AgentID ` set (db_commands d) \<subseteq> ag_ID ` set (db_agents d)
   \<and> re_AgentID ` set (db_reports d) \<subseteq> ag_ID ` set (db_agents d)
   \<and> dk_AgentID ` set (db_keys d) \<subseteq> ag_ID ` set (db_agents d)
   \<and> jo_AgentID ` set (db_jobs d) - {[]} \<subseteq> ag_ID ` set (db_agents d)
   \<and> ka_AgentID ` set (db_kit_acks d) \<subseteq> ag_ID ` set (db_agents d)
   \<and> ka_By ` set (db_kit_acks d) \<subseteq> ad_ID ` set (db_admins d)
   \<and> rp_AgentID ` set (db_repo_stats d) \<subseteq> ag_ID ` set (db_agents d)"

definition db_ok :: "db \<Rightarrow> bool" where "db_ok d \<longleftrightarrow> keys_ok d \<and> refs_ok d"

named_theorems ok

lemmas has_defs = has_admin_def has_group_def has_target_def has_template_def has_agent_def

lemmas ok_simps = db_ok_def keys_ok_def refs_ok_def has_defs update_where_column subset_insertI2 insert_Diff_if

lemma fresh_image [simp]: "next_id (map k xs) \<notin> k ` set xs"
  using next_id_fresh[of "map k xs"] by simp

lemma CreateAdmin_ok [ok]: "CreateAdmin email pw at d = Inr (i, d') \<Longrightarrow> db_ok d \<Longrightarrow> db_ok d'"
  by (clarsimp simp: CreateAdmin_def Let_def split_def split: if_splits option.splits; simp add: ok_simps)

lemma UpdateAdminPassword_ok [ok]: "UpdateAdminPassword i pw d = (e, d') \<Longrightarrow> db_ok d \<Longrightarrow> db_ok d'"
  by (clarsimp simp: UpdateAdminPassword_def Let_def split_def split: if_splits option.splits; simp add: ok_simps)

lemma CreateSession_ok [ok]: "CreateSession h a now ex d = Inr (i, d') \<Longrightarrow> db_ok d \<Longrightarrow> db_ok d'"
  by (clarsimp simp: CreateSession_def Let_def split_def split: if_splits option.splits; simp add: ok_simps)

lemma RevokeSession_ok [ok]: "db_ok d \<Longrightarrow> db_ok (RevokeSession i at d)"
  by (simp add: RevokeSession_def ok_simps)

lemma RevokeSessionsForAdminExcept_ok [ok]: "db_ok d \<Longrightarrow> db_ok (RevokeSessionsForAdminExcept a i at d)"
  by (simp add: RevokeSessionsForAdminExcept_def ok_simps)

lemma CreateTarget_ok [ok]: "CreateTarget t d = (i, d') \<Longrightarrow> db_ok d \<Longrightarrow> db_ok d'"
  by (clarsimp simp: CreateTarget_def Let_def split_def split: if_splits option.splits; simp add: ok_simps)

lemma SetTargetMirror_ok [ok]: "db_ok d \<Longrightarrow> db_ok (SetTargetMirror t d)"
  by (simp add: SetTargetMirror_def ok_simps)

lemma SetTargetObjectLockVerified_ok [ok]: "db_ok d \<Longrightarrow> db_ok (SetTargetObjectLockVerified i at d)"
  by (simp add: SetTargetObjectLockVerified_def ok_simps)

lemma CreateTemplate_ok [ok]: "CreateTemplate pol te d = Some (i, d') \<Longrightarrow> db_ok d \<Longrightarrow> db_ok d'"
  by (clarsimp simp: CreateTemplate_def Let_def split_def split: if_splits option.splits; simp add: ok_simps)

lemma UpdateTemplate_ok [ok]: "UpdateTemplate pol te d = Some d' \<Longrightarrow> db_ok d \<Longrightarrow> db_ok d'"
  by (clarsimp simp: UpdateTemplate_def Let_def split_def split: if_splits option.splits; simp add: ok_simps)

lemma CreateGroup_ok [ok]: "CreateGroup g d = Inr (i, d') \<Longrightarrow> db_ok d \<Longrightarrow> db_ok d'"
  by (clarsimp simp: CreateGroup_def Let_def split_def split: if_splits option.splits; simp add: ok_simps)

lemma CreateToken_ok [ok]: "CreateToken tk d = Inr (i, d') \<Longrightarrow> db_ok d \<Longrightarrow> db_ok d'"
  by (clarsimp simp: CreateToken_def Let_def split_def split: if_splits option.splits; simp add: ok_simps)

lemma ConsumeToken_ok [ok]: "ConsumeToken i now d = (b, d') \<Longrightarrow> db_ok d \<Longrightarrow> db_ok d'"
  by (clarsimp simp: ConsumeToken_def Let_def split_def split: if_splits option.splits; simp add: ok_simps)

lemma RevokeToken_ok [ok]: "db_ok d \<Longrightarrow> db_ok (RevokeToken i at d)"
  by (simp add: RevokeToken_def ok_simps)

lemma CreateAgent_ok [ok]: "CreateAgent a d = Inr d' \<Longrightarrow> db_ok d \<Longrightarrow> db_ok d'"
  by (clarsimp simp: CreateAgent_def Let_def split_def split: if_splits option.splits; simp add: ok_simps)

lemma TouchAgent_ok [ok]: "db_ok d \<Longrightarrow> db_ok (TouchAgent ai at version etag d)"
  by (simp add: TouchAgent_def ok_simps)

lemma RevokeAgent_ok [ok]: "db_ok d \<Longrightarrow> db_ok (RevokeAgent ai at d)"
  by (simp add: RevokeAgent_def ok_simps)

lemma RetireAgent_ok [ok]: "db_ok d \<Longrightarrow> db_ok (RetireAgent ai at d)"
  by (simp add: RetireAgent_def ok_simps)

lemma SetAgentBundle_ok [ok]: "SetAgentBundle ai sealed d = (e, d') \<Longrightarrow> db_ok d \<Longrightarrow> db_ok d'"
  by (clarsimp simp: SetAgentBundle_def Let_def split_def split: if_splits option.splits; simp add: ok_simps)

lemma AddCommand_ok [ok]: "AddCommand c d = Inr (i, d') \<Longrightarrow> db_ok d \<Longrightarrow> db_ok d'"
  by (clarsimp simp: AddCommand_def Let_def split_def split: if_splits option.splits; simp add: ok_simps)

lemma AckCommand_ok [ok]: "AckCommand i ai at d = (e, d') \<Longrightarrow> db_ok d \<Longrightarrow> db_ok d'"
  by (clarsimp simp: AckCommand_def Let_def split_def split: if_splits option.splits; simp add: ok_simps)

lemma EnqueueJob_ok [ok]: "EnqueueJob j d = Inr (i, d') \<Longrightarrow> db_ok d \<Longrightarrow> db_ok d'"
  by (clarsimp simp: EnqueueJob_def Let_def split: if_splits; cases "jo_AgentID j = []"; simp add: ok_simps)

lemma ScheduleReap_ok [ok]: "ScheduleReap ai at d = Inr (i, d') \<Longrightarrow> db_ok d \<Longrightarrow> db_ok d'"
  by (clarsimp simp: ScheduleReap_def Let_def split_def split: if_splits option.splits; simp add: ok_simps)

lemma FinishJob_ok [ok]: "FinishJob i at st det d = (e, d') \<Longrightarrow> db_ok d \<Longrightarrow> db_ok d'"
  by (clarsimp simp: FinishJob_def Let_def split_def split: if_splits option.splits; simp add: ok_simps)

lemma RequeueStaleJobs_ok [ok]: "RequeueStaleJobs kind at d = (n, d') \<Longrightarrow> db_ok d \<Longrightarrow> db_ok d'"
  by (clarsimp simp: RequeueStaleJobs_def Let_def split_def split: if_splits option.splits; simp add: ok_simps)

lemma ReserveMirrorHides_ok [ok]: "ReserveMirrorHides i dev at since n limit d = (r, d') \<Longrightarrow> db_ok d \<Longrightarrow> db_ok d'"
  by (clarsimp simp: ReserveMirrorHides_def Let_def split_def split: if_splits option.splits; simp add: ok_simps)

lemma CreateDeviceKeyRow_ok [ok]: "CreateDeviceKeyRow k d = Inr d' \<Longrightarrow> db_ok d \<Longrightarrow> db_ok d'"
  by (clarsimp simp: CreateDeviceKeyRow_def CreateDeviceKey_def split: if_splits option.splits; simp add: ok_simps)

lemma DisableDeviceKeysForAgent_ok [ok]: "db_ok d \<Longrightarrow> db_ok (d\<lparr>db_keys := snd (DisableDeviceKeysForAgent ai at (db_keys d))\<rparr>)"
proof -
  have "snd (DisableDeviceKeysForAgent ai at (db_keys d)) = snd (update_where (\<lambda>k. dk_AgentID k = ai \<and> dk_DisabledAt k = None)
      (\<lambda>k. k\<lparr>dk_DisabledAt := Some (ts at)\<rparr>) (db_keys d))" by (simp add: DisableDeviceKeysForAgent_def update_where_def)
  then show "db_ok d \<Longrightarrow> ?thesis" by (simp add: ok_simps)
qed

lemma DisableDeviceKey_ok [ok]: "db_ok d \<Longrightarrow> db_ok (d\<lparr>db_keys := DisableDeviceKey kid at (db_keys d)\<rparr>)"
proof -
  have "DisableDeviceKey kid at (db_keys d) = snd (update_where (\<lambda>k. dk_AccessKeyID k = kid \<and> dk_DisabledAt k = None)
      (\<lambda>k. k\<lparr>dk_DisabledAt := Some (ts at)\<rparr>) (db_keys d))" by (simp add: DisableDeviceKey_def update_where_def)
  then show "db_ok d \<Longrightarrow> ?thesis" by (simp add: ok_simps)
qed

lemma ClaimDueJob_ok [ok]: "ClaimDueJob now d = Some (j, d') \<Longrightarrow> db_ok d \<Longrightarrow> db_ok d'"
proof -
  assume c: "ClaimDueJob now d = Some (j, d')" and ok: "db_ok d"
  show "db_ok d'" using c ok
    by (clarsimp simp: ClaimDueJob_def split: option.splits; simp add: ok_simps mark_running_def)
qed

lemma ReportRow_None: "ReportRow a t d = None \<Longrightarrow> (a, t) \<notin> (\<lambda>r. (re_AgentID r, re_TaskID r)) ` set (db_reports d)"
  by (auto simp: ReportRow_def find_None_iff)

lemma AddReport_ok [ok]: "AddReport r d = Inr (i, d') \<Longrightarrow> db_ok d \<Longrightarrow> db_ok d'"
  by (clarsimp simp: AddReport_def Let_def split: if_splits option.splits; simp add: ok_simps ReportRow_None)

lemma SetSettings_ok [ok]: "db_ok d \<Longrightarrow> db_ok (SetSettings kv d)"
proof -
  have "db_ok d \<Longrightarrow> db_ok (SetSetting k v d)" for k v d by (simp add: SetSetting_def ok_simps distinct_update)
  then show "db_ok d \<Longrightarrow> ?thesis" unfolding SetSettings_def by (induction kv arbitrary: d) auto
qed

subsubsection \<open>Upserts and deletions\<close>

lemma ka_By_update: "ka_By ` set (snd (update_where p (\<lambda>_. k) rows)) \<subseteq> insert (ka_By k) (ka_By ` set rows)"
  by (auto simp: update_where_def)

lemma ka_AgentID_update:
  "ka_AgentID k = a \<Longrightarrow> map ka_AgentID (snd (update_where (\<lambda>r. ka_AgentID r = a) (\<lambda>_. k) rows)) = map ka_AgentID rows"
  by (induction rows) (auto simp: update_where_def)

lemma SetKitAck_ok [ok]: "SetKitAck ai i at d = Inr d' \<Longrightarrow> db_ok d \<Longrightarrow> db_ok d'"
proof -
  assume s: "SetKitAck ai i at d = Inr d'" and ok: "db_ok d"
  define k where "k = \<lparr>ka_AgentID = ai, ka_At = ts at, ka_By = i\<rparr>"
  let ?u = "snd (update_where (\<lambda>r. ka_AgentID r = ai) (\<lambda>_. k) (db_kit_acks d))"
  have upd: "map ka_AgentID ?u = map ka_AgentID (db_kit_acks d)" by (rule ka_AgentID_update) (simp add: k_def)
  have ids: "ka_AgentID ` set ?u = ka_AgentID ` set (db_kit_acks d)" using arg_cong[OF upd, of set] by simp
  have s': "SetKitAck ai i at d = (if \<not> has_agent d ai \<or> \<not> has_admin d i then Inl SqlErr
      else Inr (d\<lparr>db_kit_acks := (if ai \<in> ka_AgentID ` set (db_kit_acks d) then ?u else db_kit_acks d @ [k])\<rparr>))"
    unfolding SetKitAck_def Let_def k_def ..
  have has: "has_agent d ai" "has_admin d i" using s unfolding s' by (simp_all split: if_splits)
  then have d': "d' = d\<lparr>db_kit_acks := (if ai \<in> ka_AgentID ` set (db_kit_acks d) then ?u else db_kit_acks d @ [k])\<rparr>"
    using s unfolding s' by (simp only: simp_thms if_False sum.inject)
  have acks: "ka_By ` set ?u \<subseteq> ad_ID ` set (db_admins d)"
  proof (rule order_trans[OF ka_By_update])
    show "insert (ka_By k) (ka_By ` set (db_kit_acks d)) \<subseteq> ad_ID ` set (db_admins d)" using ok has(2) by (simp add: ok_simps k_def)
  qed
  show "db_ok d'"
  proof (cases "ai \<in> ka_AgentID ` set (db_kit_acks d)")
    case True
    with ok ids acks upd show ?thesis by (simp add: d' ok_simps)
  next
    case False
    with ok has show ?thesis by (simp add: d' ok_simps k_def)
  qed
qed

lemma upsert_stat_ok:
  assumes "upsert_stat ai new f d = Inr d'" and "db_ok d" and "rp_AgentID new = ai" and "\<And>r. rp_AgentID (f r) = rp_AgentID r"
  shows "db_ok d'"
proof -
  let ?u = "snd (update_where (\<lambda>r. rp_AgentID r = ai) f (db_repo_stats d))"
  note col = update_where_column[of rp_AgentID f, OF assms(4)]
  have has: "has_agent d ai" using assms(1) by (simp add: upsert_stat_def split: if_splits)
  then have d': "d' = d\<lparr>db_repo_stats := (if ai \<in> rp_AgentID ` set (db_repo_stats d) then ?u else db_repo_stats d @ [new])\<rparr>"
    using assms(1) unfolding upsert_stat_def by (simp only: simp_thms if_False sum.inject)
  show ?thesis
  proof (cases "ai \<in> rp_AgentID ` set (db_repo_stats d)")
    case True
    then show ?thesis using assms(2) unfolding d' if_P[OF True] by (simp add: ok_simps col)
  next
    case False
    then show ?thesis using assms(2,3) has unfolding d' if_not_P[OF False] by (simp add: ok_simps)
  qed
qed

lemma SetMirrored_ok [ok]: "SetMirrored ai at n d = Inr d' \<Longrightarrow> db_ok d \<Longrightarrow> db_ok d'"
  unfolding SetMirrored_def by (erule upsert_stat_ok) simp_all

lemma SetStats_ok [ok]: "SetStats ai at l st n d = Inr d' \<Longrightarrow> db_ok d \<Longrightarrow> db_ok d'"
  unfolding SetStats_def by (erule upsert_stat_ok) simp_all

lemma image_remove:
  "f ` A \<subseteq> g ` B \<Longrightarrow> f ` {x \<in> A. f x \<noteq> i} \<subseteq> g ` {y \<in> B. g y \<noteq> i}"
  "f ` A \<subseteq> C \<Longrightarrow> f ` {x \<in> A. P x} \<subseteq> C"
  "X \<subseteq> g ` B \<Longrightarrow> (i \<in> g ` B \<Longrightarrow> i \<notin> X) \<Longrightarrow> X \<subseteq> g ` {y \<in> B. g y \<noteq> i}"
proof -
  show "f ` A \<subseteq> g ` B \<Longrightarrow> f ` {x \<in> A. f x \<noteq> i} \<subseteq> g ` {y \<in> B. g y \<noteq> i}" by (fastforce simp: image_subset_iff)
  show "f ` A \<subseteq> C \<Longrightarrow> f ` {x \<in> A. P x} \<subseteq> C" by auto
  show "X \<subseteq> g ` B \<Longrightarrow> (i \<in> g ` B \<Longrightarrow> i \<notin> X) \<Longrightarrow> X \<subseteq> g ` {y \<in> B. g y \<noteq> i}" by fastforce
qed

lemma DeleteDeviceKeysForAgent_ok [ok]: "db_ok d \<Longrightarrow> db_ok (d\<lparr>db_keys := snd (DeleteDeviceKeysForAgent ai (db_keys d))\<rparr>)"
  by (simp add: DeleteDeviceKeysForAgent_def ok_simps distinct_map_filter image_remove(2))

lemma DeleteAdmin_ok [ok]: "DeleteAdmin i d = (e, d') \<Longrightarrow> db_ok d \<Longrightarrow> db_ok d'"
  by (clarsimp simp: DeleteAdmin_def split: if_splits; simp add: ok_simps distinct_map_filter image_remove)

lemma DeleteAgent_ok [ok]: "DeleteAgent ai d = (e, d') \<Longrightarrow> db_ok d \<Longrightarrow> db_ok d'"
proof (cases "has_agent d ai \<and> agent_referenced d ai")
  case False
  assume "DeleteAgent ai d = (e, d')" and ok: "db_ok d"
  then have d': "d' = d\<lparr>db_keys := filter (\<lambda>k. dk_AgentID k \<noteq> ai) (db_keys d), db_agents := filter (\<lambda>a. ag_ID a \<noteq> ai) (db_agents d)\<rparr>"
    unfolding DeleteAgent_def if_not_P[OF False] by simp
  from False have free: "ai \<in> ag_ID ` set (db_agents d) \<Longrightarrow> ai \<notin> jo_AgentID ` set (db_jobs d) - {[]}"
    by (auto simp: agent_referenced_def has_agent_def)
  have "jo_AgentID ` set (db_jobs d) - {[]} \<subseteq> ag_ID ` {x \<in> set (db_agents d). ag_ID x \<noteq> ai}"
    using ok by (intro image_remove(3) free) (simp_all add: ok_simps)
  with ok False show ?thesis unfolding d'
    by (simp add: ok_simps distinct_map_filter image_remove agent_referenced_def)
qed (simp add: DeleteAgent_def)

lemma DeleteGroup_ok [ok]: "DeleteGroup i now d = (e, d') \<Longrightarrow> db_ok d \<Longrightarrow> db_ok d'"
  by (clarsimp simp: DeleteGroup_def Let_def split_def split: if_splits; simp add: ok_simps distinct_map_filter image_remove(2))

lemma UpdateGroup_ok [ok]: "UpdateGroup i name tid teid d = (e, d') \<Longrightarrow> db_ok d \<Longrightarrow> db_ok d'"
proof -
  assume u: "UpdateGroup i name tid teid d = (e, d')" and ok: "db_ok d"
  define p where "p = (\<lambda>g :: Group. gr_ID g = i \<and> gr_DeletedAt g = None \<and> (coalesce tid (gr_TargetID g) = gr_TargetID g \<or> \<not> unretired_in d i))"
  define f where "f = (\<lambda>g :: Group. g\<lparr>gr_Name := coalesce name (gr_Name g), gr_TargetID := coalesce tid (gr_TargetID g),
                    gr_TemplateID := coalesce teid (gr_TemplateID g)\<rparr>)"
  have gid: "gr_ID (f g) = gr_ID g" for g by (simp add: f_def)
  from u have "d' = d \<or> d' = d\<lparr>db_groups := snd (update_where p f (db_groups d))\<rparr> \<and> fk_ok (has_target d) tid \<and> fk_ok (has_template d) teid"
    unfolding UpdateGroup_def p_def[symmetric] f_def[symmetric] by (auto simp: Let_def split_def split: if_splits)
  then show "db_ok d'"
  proof
    assume a: "d' = d\<lparr>db_groups := snd (update_where p f (db_groups d))\<rparr> \<and> fk_ok (has_target d) tid \<and> fk_ok (has_template d) teid"
    have "gr_TargetID ` set (snd (update_where p f (db_groups d))) \<subseteq> ta_ID ` set (db_targets d)"
      using ok a by (auto simp: ok_simps update_where_def f_def coalesce_def fk_ok_def split: option.splits)
    moreover have "gr_TemplateID ` set (snd (update_where p f (db_groups d))) \<subseteq> te_ID ` set (db_templates d)"
      using ok a by (auto simp: ok_simps update_where_def f_def coalesce_def fk_ok_def split: option.splits)
    ultimately show ?thesis using ok a by (simp add: ok_simps gid)
  qed (use ok in simp)
qed

lemma Reseal_ok [ok]:
  assumes "resealing (\<lambda>s. True) (\<lambda>v v'. True) f" and "Reseal salt dry f nonces d = (r, d')" and "db_ok d"
  shows "db_ok d'"
proof (cases "dry \<or> (\<exists>e. r = Inl e)")
  case True
  with assms(2) have "d' = d" by (cases r; cases dry) (auto dest: Reseal_unchanged)
  with assms(3) show ?thesis by simp
next
  case False
  then obtain c where r: "Reseal salt False f nonces d = (Inr c, d')" using assms(2) by (cases r) auto
  note v = Reseal_values[OF r assms(1) TrueI]
  have rows: "map (\<lambda>a. a\<lparr>ag_SealedBundle := []\<rparr>) (db_agents d') = map (\<lambda>a. a\<lparr>ag_SealedBundle := []\<rparr>) (db_agents d)"
    "map blank_target (db_targets d') = map blank_target (db_targets d)"
    "map (\<lambda>k. k\<lparr>dk_SealedSecret := []\<rparr>) (db_keys d') = map (\<lambda>k. k\<lparr>dk_SealedSecret := []\<rparr>) (db_keys d)"
    using arg_cong[OF v(2), of db_agents] arg_cong[OF v(2), of db_targets] arg_cong[OF v(2), of db_keys] by (simp_all add: unsealed_part_def)
  have m: "map ag_ID (db_agents d') = map ag_ID (db_agents d)" "map ag_BearerHash (db_agents d') = map ag_BearerHash (db_agents d)"
    "map ag_GroupID (db_agents d') = map ag_GroupID (db_agents d)" "map ta_ID (db_targets d') = map ta_ID (db_targets d)"
    "map dk_AccessKeyID (db_keys d') = map dk_AccessKeyID (db_keys d)" "map dk_AgentID (db_keys d') = map dk_AgentID (db_keys d)"
    using arg_cong[OF rows(1), of "map ag_ID"] arg_cong[OF rows(1), of "map ag_BearerHash"] arg_cong[OF rows(1), of "map ag_GroupID"]
      arg_cong[OF rows(2), of "map ta_ID"] arg_cong[OF rows(3), of "map dk_AccessKeyID"] arg_cong[OF rows(3), of "map dk_AgentID"]
    by (simp_all add: o_def)
  note images = m[THEN arg_cong[of _ _ set], unfolded set_map]
  have "distinct (map fst (AList.update SealSaltSetting salt (db_settings d)))"
    using assms(3) by (intro distinct_update) (simp add: ok_simps)
  with v(4) have "distinct (map fst (db_settings d'))" by simp
  with assms(3) v(5) m images show ?thesis by (simp add: ok_simps)
qed

lemma db_step_ok: "db_step d e d' \<Longrightarrow> db_ok d \<Longrightarrow> db_ok d'"
  by (induction rule: db_step.induct) (blast intro: ok)+

subsection \<open>What a step leaves alone\<close>

text \<open>The statements that write the groups or the enrollment tokens.\<close>

inductive group_or_token_step :: "db \<Rightarrow> db_event \<Rightarrow> db \<Rightarrow> bool" where
  gt_CreateGroup: "CreateGroup g d = Inr (i, d') \<Longrightarrow> group_or_token_step d OtherEvent d'"
| gt_UpdateGroup: "UpdateGroup i name tid teid d = (e, d') \<Longrightarrow> group_or_token_step d OtherEvent d'"
| gt_DeleteGroup: "DeleteGroup i now d = (e, d') \<Longrightarrow> group_or_token_step d OtherEvent d'"
| gt_CreateToken: "CreateToken tk d = Inr (i, d') \<Longrightarrow> group_or_token_step d (TokenCreated (tk_Hash tk)) d'"
| gt_ConsumeToken: "ConsumeToken i now d = (True, d') \<Longrightarrow> tk \<in> set (db_tokens d) \<Longrightarrow> tk_ID tk = i
    \<Longrightarrow> group_or_token_step d (Consumed (tk_Hash tk) now) d'"
| gt_RevokeToken: "group_or_token_step d OtherEvent (RevokeToken i at d)"

lemmas other_defs = CreateAdmin_def UpdateAdminPassword_def DeleteAdmin_def CreateSession_def RevokeSession_def
  RevokeSessionsForAdminExcept_def CreateTarget_def SetTargetMirror_def SetTargetObjectLockVerified_def CreateTemplate_def UpdateTemplate_def
  CreateAgent_def TouchAgent_def RevokeAgent_def SetAgentBundle_def DeleteAgent_def RetireAgent_def CreateDeviceKeyRow_def
  AddCommand_def AckCommand_def AddReport_def SetKitAck_def SetMirrored_def SetStats_def upsert_stat_def ReserveMirrorHides_def
  EnqueueJob_def ScheduleReap_def ClaimDueJob_def FinishJob_def RequeueStaleJobs_def

lemma SetSettings_frame: "db_groups (SetSettings kv d) = db_groups d" "db_tokens (SetSettings kv d) = db_tokens d"
    "db_admins (SetSettings kv d) = db_admins d"
  unfolding SetSettings_def by (induction kv arbitrary: d) (auto simp: SetSetting_def)

lemma Reseal_frame:
  assumes "Reseal salt dry f nonces d = (r, d')"
  shows "db_groups d' = db_groups d" "db_tokens d' = db_tokens d" "db_admins d' = db_admins d"
  using assms unfolding Reseal_def by (auto split: option.splits sum.splits prod.splits if_splits)

lemma step_frame:
  assumes "db_step d e d'"
  shows "(\<forall>h now. e \<noteq> Consumed h now) \<and> db_groups d' = db_groups d \<and> db_tokens d' = db_tokens d \<or> group_or_token_step d e d'"
  using assms
  by (cases rule: db_step.cases)
    (auto simp: SetSettings_frame intro: group_or_token_step.intros dest: Reseal_frame,
      (clarsimp simp: other_defs Let_def split_def split: if_splits option.splits)+)

subsection \<open>What no statement undoes\<close>

text \<open>
  What the store promises its clients about a fact of the database: once it holds, only one
  kind of statement, \<open>undo\<close>, can end it.
\<close>

locale lasting =
  fixes undo :: db_event and holds :: "db \<Rightarrow> bool"
  assumes lasting_step: "db_step d e d' \<Longrightarrow> e \<noteq> undo \<Longrightarrow> holds d \<Longrightarrow> holds d'"
begin

lemma lasting_run: "db_run d0 es d \<Longrightarrow> undo \<notin> set es \<Longrightarrow> holds d0 \<Longrightarrow> holds d"
  by (induction rule: db_run.induct) (auto intro: lasting_step)

end

text \<open>
  No session row of this token hash is live, and no row of this agent is unrevoked. Both
  last: no statement clears \<^verbatim>\<open>revoked_at\<close>, so only an insertion could bring them back.
\<close>

definition dead_session :: "string \<Rightarrow> db \<Rightarrow> bool" where
  "dead_session h d \<longleftrightarrow> (\<forall>v \<in> set (db_sessions d). se_TokenHash v = h \<longrightarrow> se_RevokedAt v \<noteq> None)"

definition locked_agent :: "string \<Rightarrow> db \<Rightarrow> bool" where
  "locked_agent a d \<longleftrightarrow> (\<forall>r \<in> set (db_agents d). ag_ID r = a \<longrightarrow> ag_RevokedAt r \<noteq> None)"

lemma SetSettings_rows: "db_sessions (SetSettings kv d) = db_sessions d" "db_agents (SetSettings kv d) = db_agents d"
  unfolding SetSettings_def by (induction kv arbitrary: d) (auto simp: SetSetting_def)

lemma Reseal_sessions: "Reseal salt dry f nonces d = (r, d') \<Longrightarrow> db_sessions d' = db_sessions d"
  unfolding Reseal_def by (auto split: option.splits sum.splits prod.splits if_splits)

lemmas group_token_defs = CreateGroup_def UpdateGroup_def DeleteGroup_def CreateToken_def ConsumeToken_def RevokeToken_def

inductive session_step :: "db \<Rightarrow> db_event \<Rightarrow> db \<Rightarrow> bool" where
  se_Create: "CreateSession h a now ex d = Inr (i, d') \<Longrightarrow> session_step d (SessionCreated h) d'"
| se_Revoke: "session_step d e (RevokeSession i at d)"
| se_RevokeAll: "session_step d e (RevokeSessionsForAdminExcept a i at d)"
| se_Delete: "DeleteAdmin i d = (x, d') \<Longrightarrow> session_step d e d'"

lemma session_frame: "db_step d e d' \<Longrightarrow> db_sessions d' = db_sessions d \<or> session_step d e d'"
  by (cases rule: db_step.cases, assumption)
    (auto simp: SetSettings_rows intro: session_step.intros dest: Reseal_sessions,
      (clarsimp simp: other_defs group_token_defs Let_def split_def split: if_splits option.splits)+)

lemma dead_session_step:
  assumes "db_step d e d'" and "e \<noteq> SessionCreated h" and "dead_session h d"
  shows "dead_session h d'"
  using session_frame[OF assms(1)]
proof
  assume "session_step d e d'"
  then show ?thesis
    by cases (use assms(2,3) in \<open>auto simp: dead_session_def CreateSession_def RevokeSession_def RevokeSessionsForAdminExcept_def
      DeleteAdmin_def update_where_def Let_def split: if_splits\<close>)
qed (use assms(3) in \<open>simp add: dead_session_def\<close>)

interpretation dead: lasting "SessionCreated h" "dead_session h" for h
  by unfold_locales (rule dead_session_step)

inductive agent_step :: "db \<Rightarrow> db_event \<Rightarrow> db \<Rightarrow> bool" where
  as_Create: "CreateAgent a d = Inr d' \<Longrightarrow> agent_step d (AgentCreated (ag_ID a)) d'"
| as_Touch: "agent_step d e (TouchAgent ai at version etag d)"
| as_Revoke: "agent_step d e (RevokeAgent ai at d)"
| as_SetBundle: "SetAgentBundle ai sealed d = (x, d') \<Longrightarrow> agent_step d e d'"
| as_Delete: "DeleteAgent ai d = (x, d') \<Longrightarrow> agent_step d e d'"
| as_Retire: "agent_step d e (RetireAgent ai at d)"
| as_Reseal: "resealing (\<lambda>s :: string option list. True) (\<lambda>v v'. True) f \<Longrightarrow> Reseal salt dry f nonces d = (r, d') \<Longrightarrow> agent_step d e d'"

lemma agent_frame: "db_step d e d' \<Longrightarrow> db_agents d' = db_agents d \<or> agent_step d e d'"
  by (cases rule: db_step.cases, assumption)
    (auto simp: SetSettings_rows intro: agent_step.intros,
      (clarsimp simp: other_defs group_token_defs Let_def split_def split: if_splits option.splits)+)

lemma Reseal_agents:
  assumes "resealing (\<lambda>s :: string option list. True) (\<lambda>v v'. True) f" and "Reseal salt dry f nonces d = (r, d')"
  shows "map (\<lambda>a. (ag_ID a, ag_RevokedAt a)) (db_agents d') = map (\<lambda>a. (ag_ID a, ag_RevokedAt a)) (db_agents d)"
proof (cases "dry \<or> (\<exists>e. r = Inl e)")
  case True
  with assms(2) have "d' = d" by (cases r; cases dry) (auto dest: Reseal_unchanged)
  then show ?thesis by simp
next
  case False
  then obtain c where r: "Reseal salt False f nonces d = (Inr c, d')" using assms(2) by (cases r) auto
  have "map (\<lambda>a. a\<lparr>ag_SealedBundle := []\<rparr>) (db_agents d') = map (\<lambda>a. a\<lparr>ag_SealedBundle := []\<rparr>) (db_agents d)"
    using arg_cong[OF Reseal_values(2)[OF r assms(1) TrueI], of db_agents] by (simp add: unsealed_part_def)
  from arg_cong[OF this, of "map (\<lambda>a. (ag_ID a, ag_RevokedAt a))"] show ?thesis by (simp add: o_def)
qed

lemma locked_agent_pairs: "locked_agent a d \<longleftrightarrow> (a, None) \<notin> set (map (\<lambda>r. (ag_ID r, ag_RevokedAt r)) (db_agents d))"
  by (force simp: locked_agent_def)

lemma locked_agent_step:
  assumes "db_step d e d'" and "e \<noteq> AgentCreated a" and "locked_agent a d"
  shows "locked_agent a d'"
  using agent_frame[OF assms(1)]
proof
  assume "agent_step d e d'"
  then show ?thesis
  proof cases
    case (as_Reseal f salt dry nonces r)
    from assms(3) show ?thesis unfolding locked_agent_pairs Reseal_agents[OF as_Reseal] .
  qed (use assms(2,3) in \<open>auto simp: locked_agent_def CreateAgent_def TouchAgent_def RevokeAgent_def SetAgentBundle_def DeleteAgent_def
      RetireAgent_def update_where_def Let_def split: if_splits\<close>)
qed (use assms(3) in \<open>simp add: locked_agent_def\<close>)

interpretation locked: lasting "AgentCreated a" "locked_agent a" for a
  by unfold_locales (rule locked_agent_step)

subsection \<open>Every reachable database is well formed\<close>

lemma DeleteAdmin_keeps_one: "DeleteAdmin i d = (e, d') \<Longrightarrow> distinct (map ad_ID (db_admins d)) \<Longrightarrow> db_admins d \<noteq> [] \<Longrightarrow> db_admins d' \<noteq> []"
proof -
  assume del: "DeleteAdmin i d = (e, d')" and dist: "distinct (map ad_ID (db_admins d))" and ne: "db_admins d \<noteq> []"
  have "filter (\<lambda>a. ad_ID a \<noteq> i) (db_admins d) \<noteq> []" if l: "length (db_admins d) > 1"
  proof
    assume "filter (\<lambda>a. ad_ID a \<noteq> i) (db_admins d) = []"
    then have "set (map ad_ID (db_admins d)) \<subseteq> {i}" by (auto simp: filter_empty_conv)
    then have "card (set (map ad_ID (db_admins d))) \<le> 1" using card_mono[of "{i}"] by fastforce
    with l distinct_card[OF dist] show False by simp
  qed
  with del ne show ?thesis by (auto simp: DeleteAdmin_def split: if_splits)
qed

lemma step_admins:
  assumes "db_step d e d'" and "keys_ok d" and "db_admins d \<noteq> []"
  shows "db_admins d' \<noteq> []"
  using assms(1)
proof (cases rule: db_step.cases)
  case (s_DeleteAdmin i e)
  with DeleteAdmin_keeps_one assms(2,3) show ?thesis by (simp add: keys_ok_def)
next
  case (s_UpdateAdminPassword i pw e)
  with assms(3) show ?thesis by (auto simp: UpdateAdminPassword_def update_where_def)
qed (use assms(3) in \<open>auto simp: SetSettings_frame dest: Reseal_frame\<close>,
      (clarsimp simp: other_defs CreateGroup_def UpdateGroup_def DeleteGroup_def CreateToken_def ConsumeToken_def RevokeToken_def
         Let_def split_def split: if_splits option.splits)+)

text \<open>
  C13. The database keeps its constraints. After any sequence of statements of the store
  package, every primary key and UNIQUE column is duplicate-free and every foreign key has
  its row; and a fleet that has an admin never loses the last one.
\<close>

theorem schema_constraints:
  assumes "db_run d0 es d" and "db_ok d0"
  shows "db_ok d \<and> (db_admins d0 \<noteq> [] \<longrightarrow> db_admins d \<noteq> [])"
  using assms
proof (induction rule: db_run.induct)
  case (run_next es d e d')
  then show ?case using db_step_ok step_admins unfolding db_ok_def by blast
qed simp

lemma empty_db_ok: "db_ok empty_db"
  by (simp add: ok_simps empty_db_def)

definition one_admin :: db where "one_admin = snd (projr (CreateAdmin ''root@fleet'' ''hash'' 0 empty_db))"

lemma one_admin_run: "db_run empty_db [OtherEvent] one_admin"
proof -
  have "CreateAdmin ''root@fleet'' ''hash'' 0 empty_db = Inr (1, one_admin)" by code_simp
  from run_next[OF run_start s_CreateAdmin[OF this]] show ?thesis .
qed

theorem schema_constraints_witness: "db_ok (snd (DeleteAdmin 1 one_admin)) \<and> db_admins (snd (DeleteAdmin 1 one_admin)) \<noteq> []"
proof -
  have "DeleteAdmin 1 one_admin = (Some ErrLastAdmin, snd (DeleteAdmin 1 one_admin))" by code_simp
  from run_next[OF run_start s_DeleteAdmin[OF this]]
  have run: "db_run one_admin [OtherEvent] (snd (DeleteAdmin 1 one_admin))" .
  have "db_ok one_admin" by code_simp
  moreover have "db_admins one_admin \<noteq> []" by code_simp
  ultimately show ?thesis using schema_constraints[OF run] by blast
qed

subsection \<open>A group with repositories stays where it is\<close>

lemma find_update:
  "(\<And>r. p r \<Longrightarrow> P (f r) = P r) \<Longrightarrow> find P (snd (update_where p f rows)) = map_option (\<lambda>r. if p r then f r else r) (find P rows)"
  by (induction rows) (auto simp: update_where_def)

lemma find_append: "find P (xs @ ys) = (case find P xs of Some x \<Rightarrow> Some x | None \<Rightarrow> find P ys)"
  by (induction xs) auto

lemma UpdateGroup_pinned:
  assumes "UpdateGroup j name tid teid d = (e, d')" and "GroupRow i d = Some g" and "unretired_in d i"
  shows "\<exists>g'. GroupRow i d' = Some g' \<and> gr_TargetID g' = gr_TargetID g"
proof -
  define p where "p = (\<lambda>g :: Group. gr_ID g = j \<and> gr_DeletedAt g = None \<and> (coalesce tid (gr_TargetID g) = gr_TargetID g \<or> \<not> unretired_in d j))"
  define f where "f = (\<lambda>g :: Group. g\<lparr>gr_Name := coalesce name (gr_Name g), gr_TargetID := coalesce tid (gr_TargetID g),
                    gr_TemplateID := coalesce teid (gr_TemplateID g)\<rparr>)"
  from assms(1) have "d' = d \<or> d' = d\<lparr>db_groups := snd (update_where p f (db_groups d))\<rparr>"
    unfolding UpdateGroup_def p_def[symmetric] f_def[symmetric] by (auto simp: Let_def split_def split: if_splits)
  then show ?thesis
  proof
    assume d': "d' = d\<lparr>db_groups := snd (update_where p f (db_groups d))\<rparr>"
    have "GroupRow i d' = map_option (\<lambda>r. if p r then f r else r) (GroupRow i d)"
      unfolding GroupRow_def d' by (simp, rule find_update) (simp add: f_def)
    moreover have "gr_ID g = i" using assms(2) by (auto simp: GroupRow_def find_Some_iff)
    ultimately show ?thesis using assms(2,3) by (auto simp: p_def f_def)
  qed (use assms(2) in simp)
qed

lemma DeleteGroup_pinned:
  assumes "DeleteGroup j now d = (e, d')" and "GroupRow i d = Some g" and "unretired_in d i"
  shows "GroupRow i d' = Some g"
proof -
  define d1 where "d1 = d\<lparr>db_tokens := filter (\<lambda>t. \<not> (tk_GroupID t = j \<and> token_stale now t)) (db_tokens d)\<rparr>"
  define p where "p = (\<lambda>g :: Group. gr_ID g = j \<and> gr_DeletedAt g = None \<and> \<not> unretired_in d1 j
                  \<and> \<not> list_ex (\<lambda>t. tk_GroupID t = j \<and> token_live now t) (db_tokens d1))"
  define f where "f = (\<lambda>g :: Group. g\<lparr>gr_DeletedAt := Some (ts now)\<rparr>)"
  have un: "unretired_in d1 i" and row: "GroupRow i d1 = Some g" using assms(2,3) by (simp_all add: d1_def unretired_in_def GroupRow_def)
  from assms(1) have "d' = d1 \<or> d' = d1\<lparr>db_groups := snd (update_where p f (db_groups d1))\<rparr>"
    unfolding DeleteGroup_def d1_def[symmetric] Let_def p_def[symmetric] f_def[symmetric] by (auto simp: split_def split: if_splits)
  then show ?thesis
  proof
    assume d': "d' = d1\<lparr>db_groups := snd (update_where p f (db_groups d1))\<rparr>"
    have "GroupRow i d' = map_option (\<lambda>r. if p r then f r else r) (GroupRow i d1)"
      unfolding GroupRow_def d' by (simp, rule find_update) (use un in \<open>auto simp: p_def f_def\<close>)
    moreover have "gr_ID g = i" using row by (auto simp: GroupRow_def find_Some_iff)
    ultimately show ?thesis using row un by (auto simp: p_def)
  qed (use row in simp)
qed

text \<open>
  C28. A group that still holds repositories is pinned. While any agent of a group is not
  retired, no statement of the store deletes the group or changes its target, so the
  gateway keeps resolving the group's devices to the store that holds their data.
\<close>

theorem group_pinned:
  assumes "db_step d e d'" and "GroupRow i d = Some g" and "unretired_in d i"
  shows "\<exists>g'. GroupRow i d' = Some g' \<and> gr_TargetID g' = gr_TargetID g"
  using step_frame[OF assms(1)]
proof
  assume "group_or_token_step d e d'"
  then show ?thesis
  proof cases
    case (gt_CreateGroup g' i')
    then show ?thesis using assms(2) by (auto simp: CreateGroup_def Let_def GroupRow_def find_append split: if_splits)
  next
    case (gt_UpdateGroup i' name tid teid e')
    then show ?thesis using UpdateGroup_pinned assms(2,3) by blast
  next
    case (gt_DeleteGroup i' now e')
    then show ?thesis using DeleteGroup_pinned assms(2,3) by blast
  qed (use assms(2) in \<open>auto simp: CreateToken_def ConsumeToken_def RevokeToken_def GroupRow_def Let_def split_def split: if_splits\<close>)
qed (use assms(2) in \<open>simp add: GroupRow_def\<close>)

subsection \<open>Enrollment tokens\<close>

lemma filter_by_key:
  "distinct (map k xs) \<Longrightarrow> x \<in> set xs \<Longrightarrow> filter (\<lambda>y. k y = k x \<and> Q y) xs = (if Q x then [x] else [])"
  by (induction xs) (auto simp: filter_empty_conv rev_image_eqI)

lemma find_by_key: "distinct (map k xs) \<Longrightarrow> x \<in> set xs \<Longrightarrow> find (\<lambda>y. k y = k x) xs = Some x"
  by (induction xs) (auto simp: rev_image_eqI)

lemma find_filter:
  "distinct (map k xs) \<Longrightarrow> find (\<lambda>y. k y = v) (filter Q xs) = find (\<lambda>y. k y = v) xs \<or> find (\<lambda>y. k y = v) (filter Q xs) = None"
  by (induction xs) (auto simp: find_None_iff rev_image_eqI)

text \<open>The uses of one token, along a run: those it had, and those the run has added.\<close>

definition spent :: "string \<Rightarrow> db_event list \<Rightarrow> nat" where
  "spent h es = length (filter (\<lambda>e. case e of Consumed h' now \<Rightarrow> h' = h | _ \<Rightarrow> False) es)"

definition token_ok :: "Token \<Rightarrow> db_event list \<Rightarrow> db \<Rightarrow> bool" where
  "token_ok t es d \<longleftrightarrow> tk_Uses t + int (spent (tk_Hash t) es) \<le> tk_MaxUses t
     \<and> (\<forall>now. Consumed (tk_Hash t) now \<in> set es \<longrightarrow> ts now < tk_ExpiresAt t)
     \<and> (\<forall>r. TokenByHash (tk_Hash t) d = Some r \<longrightarrow> tk_MaxUses r = tk_MaxUses t \<and> tk_ExpiresAt r = tk_ExpiresAt t
          \<and> tk_Uses r = tk_Uses t + int (spent (tk_Hash t) es))"

lemma spent_simps [simp]: "spent h [] = 0" "spent h (OtherEvent # es) = spent h es" "spent h (TokenCreated h' # es) = spent h es"
    "spent h (Consumed h' now # es) = (if h' = h then Suc (spent h es) else spent h es)"
  by (simp_all add: spent_def)

lemma spent_other: "\<forall>h now. e \<noteq> Consumed h now \<Longrightarrow> spent h (e # es) = spent h es"
  by (cases e) (simp_all add: spent_def)

lemma consumed_row:
  assumes "ConsumeToken i now d = (True, d')" and "tk \<in> set (db_tokens d)" and "tk_ID tk = i" and "keys_ok d"
  shows "token_live now tk" "db_tokens d' = map (\<lambda>r. if r = tk then r\<lparr>tk_Uses := tk_Uses r + 1\<rparr> else r) (db_tokens d)"
proof -
  have dist: "distinct (map tk_ID (db_tokens d))" using assms(4) by (simp add: keys_ok_def)
  note f = filter_by_key[OF dist assms(2), of "token_live now", unfolded assms(3)]
  have "length (filter (\<lambda>t. tk_ID t = i \<and> token_live now t) (db_tokens d)) = 1"
    using assms(1) by (auto simp: ConsumeToken_def update_where_def)
  with f show live: "token_live now tk" by (auto split: if_splits)
  have "\<And>r. r \<in> set (db_tokens d) \<Longrightarrow> (tk_ID r = i \<and> token_live now r) = (r = tk)"
    using dist assms(2,3) live by (auto simp: distinct_map dest: inj_onD)
  then show "db_tokens d' = map (\<lambda>r. if r = tk then r\<lparr>tk_Uses := tk_Uses r + 1\<rparr> else r) (db_tokens d)"
    using assms(1) by (auto simp: ConsumeToken_def update_where_def)
qed

lemma token_ok_consume:
  assumes "ConsumeToken i now d = (True, d')" and "tk \<in> set (db_tokens d)" and "tk_ID tk = i" and "keys_ok d" and "token_ok t es d"
    and "0 < tk_MaxUses t"
  shows "token_ok t (Consumed (tk_Hash tk) now # es) d'"
proof -
  have hash: "distinct (map tk_Hash (db_tokens d))" using assms(4) by (simp add: keys_ok_def)
  note c = consumed_row[OF assms(1-4)]
  have row: "TokenByHash h d = Some tk \<longleftrightarrow> h = tk_Hash tk" for h
    using find_by_key[OF hash assms(2)] by (auto simp: TokenByHash_def find_Some_iff)
  have upd: "TokenByHash (tk_Hash t) d' = map_option (\<lambda>r. if r = tk then r\<lparr>tk_Uses := tk_Uses r + 1\<rparr> else r) (TokenByHash (tk_Hash t) d)"
    unfolding TokenByHash_def c(2)
    using find_update[of "\<lambda>r. r = tk" "\<lambda>r. tk_Hash r = tk_Hash t" "\<lambda>r. r\<lparr>tk_Uses := tk_Uses r + 1\<rparr>" "db_tokens d"]
    by (simp add: update_where_def)
  show ?thesis
  proof (cases "tk_Hash t = tk_Hash tk")
    case True
    with row have r: "TokenByHash (tk_Hash t) d = Some tk" by blast
    have t: "tk_MaxUses tk = tk_MaxUses t" "tk_ExpiresAt tk = tk_ExpiresAt t" "tk_Uses tk = tk_Uses t + int (spent (tk_Hash t) es)"
      using assms(5) r by (simp_all add: token_ok_def)
    have "tk_Uses tk < tk_MaxUses tk" "ts now < tk_ExpiresAt tk" using c(1) assms(6) t(1) by (simp_all add: token_live_def)
    then show ?thesis using assms(5) t unfolding token_ok_def upd r by (simp add: True)
  next
    case False
    with row have "TokenByHash (tk_Hash t) d \<noteq> Some tk" by blast
    then have "TokenByHash (tk_Hash t) d' = TokenByHash (tk_Hash t) d" unfolding upd by (cases "TokenByHash (tk_Hash t) d") auto
    then show ?thesis using assms(5) False unfolding token_ok_def by simp
  qed
qed

lemma token_ok_step:
  assumes "db_step d e d'" and "keys_ok d" and "token_ok t es d" and "0 < tk_MaxUses t" and "e \<noteq> TokenCreated (tk_Hash t)"
  shows "token_ok t (e # es) d'"
  using step_frame[OF assms(1)]
proof
  assume "group_or_token_step d e d'"
  then show ?thesis
  proof cases
    case (gt_CreateGroup g i)
    then show ?thesis using assms(3) by (auto simp: CreateGroup_def token_ok_def TokenByHash_def Let_def split: if_splits)
  next
    case (gt_UpdateGroup i name tid teid e')
    then show ?thesis using assms(3)
      by (auto simp: UpdateGroup_def token_ok_def TokenByHash_def Let_def split_def split: if_splits)
  next
    case (gt_DeleteGroup i now e')
    have "db_tokens d' = filter (\<lambda>t. \<not> (tk_GroupID t = i \<and> token_stale now t)) (db_tokens d)"
      using gt_DeleteGroup(2) by (auto simp: DeleteGroup_def Let_def split_def split: if_splits)
    then have "TokenByHash (tk_Hash t) d' = TokenByHash (tk_Hash t) d \<or> TokenByHash (tk_Hash t) d' = None"
      using find_filter[of tk_Hash "db_tokens d"] assms(2) by (simp add: TokenByHash_def keys_ok_def)
    with assms(3) gt_DeleteGroup(1) show ?thesis by (auto simp: token_ok_def)
  next
    case (gt_CreateToken tk i)
    with assms(3,5) show ?thesis
      by (auto simp: CreateToken_def token_ok_def TokenByHash_def find_append Let_def split: if_splits option.splits)
  next
    case (gt_ConsumeToken i now tk)
    with token_ok_consume assms(2-4) show ?thesis by blast
  next
    case (gt_RevokeToken i at)
    with assms(3) show ?thesis by (auto simp: RevokeToken_def token_ok_def TokenByHash_def find_update)
  qed
qed (use assms(3) in \<open>auto simp: token_ok_def TokenByHash_def spent_other\<close>)

text \<open>
  C24. Tokens are not over-spent. Whatever statements run, in whatever interleaving, a token
  for a limited number of enrollments is consumed at most as often as it had uses left, and
  never once it has expired.
\<close>

theorem token_not_overspent:
  assumes "db_run d0 es d" and "db_ok d0" and "t \<in> set (db_tokens d0)" and "0 < tk_MaxUses t" and "tk_Uses t \<le> tk_MaxUses t"
    and "TokenCreated (tk_Hash t) \<notin> set es"
  shows "int (spent (tk_Hash t) es) \<le> tk_MaxUses t - tk_Uses t
    \<and> (\<forall>now. Consumed (tk_Hash t) now \<in> set es \<longrightarrow> ts now < tk_ExpiresAt t)"
proof -
  have row: "TokenByHash (tk_Hash t) d0 = Some t"
    using find_by_key[of tk_Hash "db_tokens d0" t] assms(2,3) by (simp add: TokenByHash_def ok_simps)
  from assms(1,6) have "db_ok d \<and> token_ok t es d"
  proof (induction rule: db_run.induct)
    case run_start
    with row assms(2,5) show ?case by (auto simp: token_ok_def)
  next
    case (run_next es d e d')
    then show ?case using db_step_ok token_ok_step[of d e d' t es] assms(4) unfolding db_ok_def by auto
  qed
  then show ?thesis by (auto simp: token_ok_def)
qed

definition one_group :: db where
  "one_group = empty_db\<lparr>db_targets := [\<lparr>ta_ID = 1, ta_Name = [], ta_Kind = [], ta_Bucket = [], ta_Region = [], ta_Path = [],
       ta_SealedAdminKey = [], ta_ObjectLockVerifiedAt = None, ta_CreatedAt = 0, ta_StorageMode = [], ta_Endpoint = [], ta_MirrorKind = [],
       ta_MirrorBucket = [], ta_MirrorRegion = [], ta_SealedMirrorKey = [], ta_MirrorLockVerifiedAt = None, ta_MirrorConditionalPut = None\<rparr>],
     db_templates := [\<lparr>te_ID = 1, te_Name = [], te_Sources = [], te_PolicyJSON = ''{}'', te_CreatedAt = 0\<rparr>],
     db_groups := [\<lparr>gr_ID = 1, gr_Name = [], gr_TargetID = 1, gr_TemplateID = 1, gr_CreatedAt = 0, gr_DeletedAt = None\<rparr>],
     db_agents := [\<lparr>ag_ID = ''ag_a'', ag_Name = [], ag_Hostname = [], ag_OS = [], ag_Arch = [], ag_Version = [], ag_Scope = [],
       ag_GroupID = 1, ag_BearerHash = [], ag_SealedBundle = [], ag_PolicyETag = [], ag_EnrolledAt = 0, ag_LastSeenAt = None,
       ag_RevokedAt = None, ag_RetiredAt = None\<rparr>],
     db_tokens := [\<lparr>tk_ID = 1, tk_Hash = ''x'', tk_GroupID = 1, tk_ExpiresAt = hour, tk_MaxUses = 1, tk_Uses = 0, tk_RevokedAt = None,
       tk_CreatedBy = 1, tk_CreatedAt = 0\<rparr>]\<rparr>"

theorem token_not_overspent_witness:
  "\<exists>d. db_run one_group [Consumed ''x'' 0] d \<and> int (spent ''x'' [Consumed ''x'' 0]) \<le> 1"
proof -
  let ?t = "hd (db_tokens one_group)"
  have "ConsumeToken 1 0 one_group = (True, snd (ConsumeToken 1 0 one_group))" by code_simp
  moreover have t: "?t \<in> set (db_tokens one_group)" "tk_ID ?t = 1" "tk_Hash ?t = ''x''" "tk_MaxUses ?t = 1" "tk_Uses ?t = 0"
    by (simp_all add: one_group_def)
  ultimately have "db_step one_group (Consumed ''x'' 0) (snd (ConsumeToken 1 0 one_group))" using s_ConsumeToken by metis
  from run_next[OF run_start this] have run: "db_run one_group [Consumed ''x'' 0] (snd (ConsumeToken 1 0 one_group))" .
  have ok: "db_ok one_group" by code_simp
  from token_not_overspent[OF run ok t(1)] t(3-5) have "int (spent ''x'' [Consumed ''x'' 0]) \<le> 1" by simp
  with run show ?thesis by blast
qed

theorem group_pinned_witness:
  "\<exists>g'. GroupRow 1 (snd (DeleteGroup 1 0 one_group)) = Some g' \<and> gr_TargetID g' = 1"
proof -
  let ?g = "hd (db_groups one_group)"
  have "DeleteGroup 1 0 one_group = (fst (DeleteGroup 1 0 one_group), snd (DeleteGroup 1 0 one_group))" by simp
  from s_DeleteGroup[OF this] have step: "db_step one_group OtherEvent (snd (DeleteGroup 1 0 one_group))" .
  have "GroupRow 1 one_group = Some ?g" "unretired_in one_group 1" "gr_TargetID ?g = 1" by code_simp+
  with group_pinned[OF step, of 1 ?g] show ?thesis by simp
qed

subsection \<open>The batch queries of the dashboard\<close>

lemma newest_first_set: "set (newest_first rs) = set rs"
  by (simp add: newest_first_def)

lemma batch_first:
  assumes "distinct (map re_ID rs)" and "\<And>r. r \<in> set rs \<Longrightarrow> re_AgentID r = a \<Longrightarrow> L r = L0" and "set L0 \<subseteq> {r \<in> set rs. re_AgentID r = a}"
  shows "find (\<lambda>r. re_AgentID r = a \<and> Some (re_ID r) = map_option re_ID (first_of (L r))) rs = first_of L0"
proof (cases L0)
  case Nil
  then have "\<forall>r \<in> set rs. \<not> (re_AgentID r = a \<and> Some (re_ID r) = map_option re_ID (first_of (L r)))"
    using assms(2) by (simp add: first_of_def)
  then show ?thesis using Nil by (auto simp: find_None_iff first_of_def)
next
  case (Cons x xs)
  have x: "x \<in> set rs" "re_AgentID x = a" using assms(3) Cons by auto
  have "\<And>r. r \<in> set rs \<Longrightarrow> (re_AgentID r = a \<and> Some (re_ID r) = map_option re_ID (first_of (L r))) = (re_ID r = re_ID x)"
    using assms(1,2) x Cons by (auto simp: first_of_def distinct_map dest: inj_onD)
  then have "find (\<lambda>r. re_AgentID r = a \<and> Some (re_ID r) = map_option re_ID (first_of (L r))) rs = find (\<lambda>r. re_ID r = re_ID x) rs"
    by (rule find_cong[OF refl])
  also have "\<dots> = Some x" by (rule find_by_key[OF assms(1) x(1)])
  finally show ?thesis by (simp add: Cons first_of_def)
qed

lemma first_of_take: "first_of (take 1 xs) = first_of xs"
  by (cases xs) (simp_all add: first_of_def)

text \<open>
  C36. Batch and per-device queries agree. For every device, the newest report and the time
  of the last good snapshot that the overview reads in one query are those the device's own
  page reads.
\<close>

theorem batch_queries_agree:
  assumes "db_ok d"
  shows "LatestReports d a = first_of (ReportsForAgent a 1 d) \<and> LastOKReports d a = map_option re_FinishedAt (LastOKReport a d)"
proof -
  have ids: "distinct (map re_ID (db_reports d))" using assms by (simp add: ok_simps)
  have "LatestReports d a = first_of (newest_first (filter (\<lambda>q. re_AgentID q = a) (db_reports d)))"
    unfolding LatestReports_def by (rule batch_first[OF ids]) (auto simp: newest_first_set)
  moreover have "LastOKReports d a = map_option re_FinishedAt (LastOKReport a d)"
    unfolding LastOKReports_def LastOKReport_def
    by (rule arg_cong[of _ _ "map_option re_FinishedAt"], rule batch_first[OF ids]) (auto simp: newest_first_set)
  ultimately show ?thesis unfolding ReportsForAgent_def first_of_take by blast
qed

definition toy_report :: "int \<Rightarrow> gotime \<Rightarrow> Report" where
  "toy_report i at = \<lparr>re_ID = i, re_AgentID = ''ag_a'', re_TaskID = [char_of (nat i)], re_Kind = ''snapshot'', re_Source = [], re_StartedAt = at,
     re_FinishedAt = at, re_Status = ''ok'', re_Bytes = 0, re_Files = 0, re_SnapshotID = [], re_Stderr = []\<rparr>"

theorem batch_queries_agree_witness:
  "LatestReports (one_group\<lparr>db_reports := [toy_report 2 0, toy_report 1 second]\<rparr>) ''ag_a'' = Some (toy_report 1 second)"
proof -
  let ?d = "one_group\<lparr>db_reports := [toy_report 2 0, toy_report 1 second]\<rparr>"
  have "db_ok ?d" by code_simp
  from conjunct1[OF batch_queries_agree[OF this]] have "LatestReports ?d ''ag_a'' = first_of (ReportsForAgent ''ag_a'' 1 ?d)" .
  also have "\<dots> = Some (toy_report 1 second)" by code_simp
  finally show ?thesis .
qed

subsection \<open>Deleting an admin\<close>

text \<open>An acknowledgement of a recovery kit is never removed, and while it names an admin that admin cannot be deleted.\<close>

lemma kit_ack_blocks_delete:
  assumes "SetKitAck ai i at d = Inr d'" and "length (db_admins d) > 1"
  shows "DeleteAdmin i d' = (Some SqlErr, d')"
proof -
  let ?k = "\<lparr>ka_AgentID = ai, ka_At = ts at, ka_By = i\<rparr>"
  have "?k \<in> set (db_kit_acks d')" and admins: "db_admins d' = db_admins d" "has_admin d i"
    using assms(1) by (auto simp: SetKitAck_def update_where_def Let_def split: if_splits)
  then have "i \<in> ka_By ` set (db_kit_acks d')" using imageI[of ?k "set (db_kit_acks d')" ka_By] by simp
  with admins assms(2) show ?thesis by (simp add: DeleteAdmin_def has_admin_def)
qed

end
