(* ===== verification/Enrollment.thy ===== *)
theory Enrollment
  imports Fleet_Invariants Scheduler
begin

section \<open>Enrollment\<close>

text \<open>
  Models \<^verbatim>\<open>src/fleet/enroll/token.go\<close>, the token endpoints of \<^verbatim>\<open>src/fleet/api/admin_tokens.go\<close> and
  the agent endpoints of \<^verbatim>\<open>src/fleet/api/agent_endpoints.go\<close>. SHA-256, the provisioning of a
  device and the sealing of its bundle are parameters; random bytes are arguments,
  \<^const>\<open>None\<close> where reading them fails. A handler answers with its status and message.
\<close>

subsection \<open>Tokens\<close>

definition DefaultTTL :: duration where "DefaultTTL = hour"

definition MaxTTL :: duration where "MaxTTL = 30 * 24 * hour"

datatype token_error = ErrTokenInvalid | ErrTTLTooLong | RandErr | TokenStoreErr

definition HashToken :: "(string \<Rightarrow> string) \<Rightarrow> string \<Rightarrow> string" where "HashToken sha256 plain = sha256 plain"

definition NewToken :: "(string \<Rightarrow> string) \<Rightarrow> string option \<Rightarrow> (string \<times> string) option" where
  "NewToken sha256 rnd = (case rnd of
     None \<Rightarrow> None
   | Some b \<Rightarrow> (let plain = ''wh_'' @ RawURLEncoding_EncodeToString b in Some (plain, HashToken sha256 plain)))"

definition Issue :: "(string \<Rightarrow> string) \<Rightarrow> string option \<Rightarrow> gotime \<Rightarrow> int \<Rightarrow> duration \<Rightarrow> int \<Rightarrow> int \<Rightarrow> db
    \<Rightarrow> token_error + (string \<times> Token \<times> db)" where
  "Issue sha256 rnd now groupID ttl maxUses by_admin d =
     (let ttl' = (if ttl \<le> 0 then DefaultTTL else ttl);
          maxUses' = (if maxUses < 0 then 1 else maxUses)
      in if ttl' > MaxTTL then Inl ErrTTLTooLong
         else case NewToken sha256 rnd of
           None \<Rightarrow> Inl RandErr
         | Some (plain, hash) \<Rightarrow>
             let tok = \<lparr>tk_ID = 0, tk_Hash = hash, tk_GroupID = groupID, tk_ExpiresAt = now + ttl', tk_MaxUses = maxUses', tk_Uses = 0,
                        tk_RevokedAt = None, tk_CreatedBy = by_admin, tk_CreatedAt = now\<rparr>
             in case CreateToken tok d of
                  Inl e \<Rightarrow> Inl TokenStoreErr
                | Inr (i, d') \<Rightarrow> Inr (plain, tok\<lparr>tk_ID := i\<rparr>, d'))"

text \<open>The three statements of a consumption, run one after the other.\<close>

definition Consume :: "(string \<Rightarrow> string) \<Rightarrow> gotime \<Rightarrow> string \<Rightarrow> db \<Rightarrow> (token_error + Token) \<times> db" where
  "Consume sha256 now plain d =
     (case TokenByHash (HashToken sha256 plain) d of
        None \<Rightarrow> (Inl ErrTokenInvalid, d)
      | Some tok \<Rightarrow>
          (case ConsumeToken (tk_ID tok) now d of
             (False, d') \<Rightarrow> (Inl ErrTokenInvalid, d')
           | (True, d') \<Rightarrow>
               (Inr (case TokenByHash (HashToken sha256 plain) d' of Some fresh \<Rightarrow> fresh | None \<Rightarrow> tok), d')))"

subsection \<open>Token endpoints\<close>

datatype answer = Answer nat string

definition handleTokenCreate :: "(string \<Rightarrow> string) \<Rightarrow> string option \<Rightarrow> gotime \<Rightarrow> int \<Rightarrow> int \<Rightarrow> int option \<Rightarrow> int \<Rightarrow> db
    \<Rightarrow> (answer + (string \<times> Token)) \<times> db" where
  "handleTokenCreate sha256 rnd now groupID ttlSeconds maxUses by_admin d =
     (if GroupRow groupID d = None then (Inl (Answer 400 ''unknown group_id''), d)
      else case Issue sha256 rnd now groupID (mul64 ttlSeconds second) (case maxUses of None \<Rightarrow> - 1 | Some n \<Rightarrow> n) by_admin d of
        Inl ErrTTLTooLong \<Rightarrow> (Inl (Answer 400 ''token lifetime exceeds 30 days''), d)
      | Inl e \<Rightarrow> (Inl (Answer 500 ''internal error''), d)
      | Inr (plain, tok, d') \<Rightarrow> (Inr (plain, tok), d'))"

definition handleTokenRevoke :: "gotime \<Rightarrow> int \<Rightarrow> db \<Rightarrow> db" where
  "handleTokenRevoke now i d = RevokeToken i now d"

subsection \<open>Enrolling a device\<close>

text \<open>\<^verbatim>\<open>base32.StdEncoding\<close> without padding.\<close>

definition byte_bits :: "char \<Rightarrow> bool list" where
  "byte_bits c = map (\<lambda>i. odd (byte c div 2 ^ i)) (rev [0..<8])"

definition b32_char :: "bool list \<Rightarrow> char" where
  "b32_char bs = (let n = foldl (\<lambda>n b. 2 * n + of_bool b) 0 (take 5 (bs @ replicate 5 False))
     in if n < 26 then char_of (65 + n :: nat) else char_of (24 + n))"

fun b32_chunks :: "bool list \<Rightarrow> string" where
  "b32_chunks (a # b # c # d # e # rest) = b32_char [a, b, c, d, e] # b32_chunks rest"
| "b32_chunks [] = []"
| "b32_chunks bs = [b32_char bs]"

definition base32_encode :: "string \<Rightarrow> string" where
  "base32_encode s = b32_chunks (concat (map byte_bits s))"

definition newID :: "string \<Rightarrow> string" where
  "newID b = ''ag_'' @ take 10 (ToLower (base32_encode b))"

definition NewBearer :: "(string \<Rightarrow> string) \<Rightarrow> string option \<Rightarrow> (string \<times> string) option" where
  "NewBearer sha256 rnd = (case NewToken sha256 rnd of
     None \<Rightarrow> None
   | Some (plain, _) \<Rightarrow> (let plain' = ''wa_'' @ drop 3 plain in Some (plain', HashToken sha256 plain')))"

record enroll_req =
  er_Token :: string
  er_Hostname :: string
  er_OS :: string
  er_Arch :: string
  er_Version :: string
  er_Scope :: string

text \<open>
  The request as three stretches, between which statements of other requests may run:
  up to the lookup of the group and its target; the agent's row; provisioning and the
  bundle, with the clean-up of a failure.
\<close>

definition enroll_begin :: "(string \<Rightarrow> string) \<Rightarrow> gotime \<Rightarrow> enroll_req \<Rightarrow> db \<Rightarrow> (answer + Group \<times> Target) \<times> db" where
  "enroll_begin sha256 now req d =
     (if er_Token req = [] \<or> er_Hostname req = [] then (Inl (Answer 400 ''token and hostname are required''), d)
      else case Consume sha256 now (er_Token req) d of
        (Inl ErrTokenInvalid, d1) \<Rightarrow> (Inl (Answer 403 ''invalid or expired token''), d1)
      | (Inl e, d1) \<Rightarrow> (Inl (Answer 500 ''enrollment failed''), d1)
      | (Inr tok, d1) \<Rightarrow>
          (case GroupRow (tk_GroupID tok) d1 of
             None \<Rightarrow> (Inl (Answer 500 ''token's group is gone''), d1)
           | Some g \<Rightarrow>
               (case TargetRow (gr_TargetID g) d1 of
                  None \<Rightarrow> (Inl (Answer 500 ''group's target is gone''), d1)
                | Some t \<Rightarrow> (Inr (g, t), d1))))"

definition enroll_row :: "gotime \<Rightarrow> enroll_req \<Rightarrow> string \<Rightarrow> string \<Rightarrow> Group \<Rightarrow> Agent" where
  "enroll_row now req i bearerHash g =
     \<lparr>ag_ID = i, ag_Name = er_Hostname req, ag_Hostname = er_Hostname req, ag_OS = er_OS req, ag_Arch = er_Arch req,
      ag_Version = er_Version req, ag_Scope = (if er_Scope req = [] then ''user'' else er_Scope req), ag_GroupID = gr_ID g,
      ag_BearerHash = bearerHash, ag_SealedBundle = [], ag_PolicyETag = [], ag_EnrolledAt = now, ag_LastSeenAt = None,
      ag_RevokedAt = None, ag_RetiredAt = None\<rparr>"

text \<open>
  Provisioning may write the device's gateway key; it returns the sealed bundle, or where it
  failed. The deferred clean-up of a failure revokes what was minted (\<open>undo\<close>) and deletes
  the row with its keys.
\<close>

definition enroll_finish :: "(Target \<Rightarrow> string \<Rightarrow> db \<Rightarrow> (answer + string) \<times> db) \<Rightarrow> (Target \<Rightarrow> string \<Rightarrow> db \<Rightarrow> db) \<Rightarrow> string \<Rightarrow> Target \<Rightarrow> db
    \<Rightarrow> (answer + string) \<times> db" where
  "enroll_finish provision undo i t d =
     (case provision t i d of
        (Inl a, d1) \<Rightarrow> (Inl a, snd (DeleteAgent i (undo t i d1)))
      | (Inr bundle, d1) \<Rightarrow>
          (case SetAgentBundle i bundle d1 of
             (Some e, d2) \<Rightarrow> (Inl (Answer 500 ''enrollment failed''), snd (DeleteAgent i (undo t i d2)))
           | (None, d2) \<Rightarrow> (Inr i, d2)))"

text \<open>The target's spec fails where the public URL of a hosted target is not set.\<close>

definition handleEnroll :: "(string \<Rightarrow> string) \<Rightarrow> (Target \<Rightarrow> db \<Rightarrow> answer option)
    \<Rightarrow> (Target \<Rightarrow> string \<Rightarrow> db \<Rightarrow> (answer + string) \<times> db) \<Rightarrow> (Target \<Rightarrow> string \<Rightarrow> db \<Rightarrow> db)
    \<Rightarrow> gotime \<Rightarrow> string option \<Rightarrow> string option \<Rightarrow> enroll_req \<Rightarrow> db \<Rightarrow> (answer + string \<times> string) \<times> db" where
  "handleEnroll sha256 specFor provision undo now rnd_id rnd_bearer req d =
     (case enroll_begin sha256 now req d of
        (Inl a, d1) \<Rightarrow> (Inl a, d1)
      | (Inr (g, t), d1) \<Rightarrow>
          (case specFor t d1 of
             Some a \<Rightarrow> (Inl a, d1)
           | None \<Rightarrow>
               (case (rnd_id, NewBearer sha256 rnd_bearer) of
                  (Some b, Some (bearer, bearerHash)) \<Rightarrow>
                    (case CreateAgent (enroll_row now req (newID b) bearerHash g) d1 of
                       Inl e \<Rightarrow> (Inl (Answer 500 ''enrollment failed''), d1)
                     | Inr d2 \<Rightarrow>
                         (case enroll_finish provision undo (newID b) t d2 of
                            (Inl a, d3) \<Rightarrow> (Inl a, d3)
                          | (Inr i, d3) \<Rightarrow> (Inr (i, bearer), d3)))
                | _ \<Rightarrow> (Inl (Answer 500 ''enrollment failed''), d1))))"

subsection \<open>The agent's own endpoints\<close>

definition requireAgent :: "(string \<Rightarrow> string) \<Rightarrow> string \<Rightarrow> db \<Rightarrow> answer + Agent" where
  "requireAgent sha256 authorization d =
     (let bearer = TrimPrefix authorization ''Bearer ''
      in if bearer = [] \<or> bearer = authorization then Inl (Answer 401 ''missing bearer token'')
         else case AgentByBearerHash (HashToken sha256 bearer) d of
           None \<Rightarrow> Inl (Answer 401 ''unknown or revoked agent'')
         | Some a \<Rightarrow> if ag_RevokedAt a \<noteq> None then Inl (Answer 401 ''unknown or revoked agent'') else Inr a)"

definition maxReportStderr :: nat where "maxReportStderr = 8192"

text \<open>A report, with the id of the command it answers, zero for none.\<close>

definition handleReport :: "gotime \<Rightarrow> Agent \<Rightarrow> Report \<Rightarrow> int \<Rightarrow> db \<Rightarrow> answer \<times> db" where
  "handleReport now a r commandID d =
     (if re_TaskID r = [] \<or> re_Kind r = [] \<or> re_Status r = [] then (Answer 400 ''task_id, kind and status are required'', d)
      else if commandID \<noteq> 0 \<and> CommandAgentID commandID d \<noteq> Some (ag_ID a)
      then (Answer 400 ''command_id does not belong to this agent'', d)
      else case AddReport (r\<lparr>re_AgentID := ag_ID a, re_Stderr := take maxReportStderr (re_Stderr r)\<rparr>) d of
        Inl e \<Rightarrow> (Answer 500 ''internal error'', d)
      | Inr (i, d1) \<Rightarrow>
          let d2 = (if commandID \<noteq> 0 then snd (AckCommand commandID (ag_ID a) now d1) else d1)
          in (Answer 204 [], TouchAgent (ag_ID a) now (ag_Version a) (ag_PolicyETag a) d2))"

definition poll_pending :: "gotime \<Rightarrow> Agent \<Rightarrow> string \<Rightarrow> string \<Rightarrow> string \<Rightarrow> db \<Rightarrow> (nat \<times> Command list) \<times> db" where
  "poll_pending now a docETag etag version d =
     (let d1 = TouchAgent (ag_ID a) now (if version = [] then ag_Version a else version) etag d;
          pending = PendingCommands (ag_ID a) d1
      in if etag = docETag \<and> pending = [] then ((304, []), d1) else ((200, pending), d1))"

end
