(* ===== verification/Reap.thy ===== *)
theory Reap
  imports Scheduler
begin

section \<open>Reaping revoked devices\<close>

text \<open>
  Models \<^verbatim>\<open>src/fleet/jobs/reap.go\<close>, the sweep bookkeeping of \<^verbatim>\<open>src/fleet/jobs/repo.go\<close> and
  \<^verbatim>\<open>IsSafeAgentDir\<close> of \<^verbatim>\<open>src/fleet/enroll/provision.go\<close>: which repository directories the job
  removes, and what it does to the database. Every directory handed to \<^verbatim>\<open>os.RemoveAll\<close> is
  recorded; whether the call succeeds is an input, as is whether the context is done
  before each device. The wording of an error is a parameter: it only shows in the job's
  detail.
\<close>

subsection \<open>Package path/filepath\<close>

definition clean_step :: "bool \<Rightarrow> string list \<Rightarrow> string \<Rightarrow> string list" where
  "clean_step rooted acc c =
     (if c = [] \<or> c = ''.'' then acc
      else if c = ''..'' then
        (if acc \<noteq> [] \<and> last acc \<noteq> ''..'' then butlast acc else if rooted then acc else acc @ [''..''])
      else acc @ [c])"

definition is_rooted :: "string \<Rightarrow> bool" where "is_rooted path = HasPrefix path ''/''"

definition clean_comps :: "string \<Rightarrow> string list" where
  "clean_comps path = foldl (clean_step (is_rooted path)) [] (Split path (CHR ''/''))"

definition render_path :: "bool \<Rightarrow> string list \<Rightarrow> string" where
  "render_path rooted comps =
     (if rooted then ''/'' @ Join comps ''/'' else if comps = [] then ''.'' else Join comps ''/'')"

definition filepath_Clean :: "string \<Rightarrow> string" where
  "filepath_Clean path = (if path = [] then ''.'' else render_path (is_rooted path) (clean_comps path))"

definition filepath_Join :: "string list \<Rightarrow> string" where
  "filepath_Join elems = (case filter (\<lambda>e. e \<noteq> []) elems of [] \<Rightarrow> [] | es \<Rightarrow> filepath_Clean (Join es ''/''))"

definition IsSafeAgentDir :: "string \<Rightarrow> bool" where
  "IsSafeAgentDir agentID \<longleftrightarrow> agentID \<noteq> [] \<and> agentID \<noteq> ''.'' \<and> agentID \<noteq> ''..''
     \<and> \<not> (Contains agentID (CHR ''/'') \<or> Contains agentID (CHR 0x5C)) \<and> filepath_Clean agentID = agentID"

subsection \<open>Sweeps\<close>

definition detailErrors :: nat where "detailErrors = 3"

record sweep =
  sw_verb :: string
  sw_total :: nat
  sw_ok :: nat
  sw_skipped :: nat
  sw_extra :: string
  sw_errs :: "string list"
  sw_skips :: "string list"

definition sweep_fail :: "string \<Rightarrow> string \<Rightarrow> sweep \<Rightarrow> sweep" where
  "sweep_fail who err s = s\<lparr>sw_errs := sw_errs s @ [who @ '': '' @ err]\<rparr>"

definition sweep_skip :: "string \<Rightarrow> string \<Rightarrow> sweep \<Rightarrow> sweep" where
  "sweep_skip who reason s = s\<lparr>sw_skipped := Suc (sw_skipped s), sw_skips := sw_skips s @ [who @ '': '' @ reason]\<rparr>"

abbreviation itoa :: "nat \<Rightarrow> string" where "itoa n \<equiv> FormatInt (int n)"

definition sweep_detail :: "sweep \<Rightarrow> string" where
  "sweep_detail s =
     (let d0 = sw_verb s @ '' '' @ itoa (sw_ok s) @ ''/'' @ itoa (sw_total s) @ '' ok; '' @ itoa (length (sw_errs s)) @ '' failed'';
          d1 = (if sw_skipped s > 0 then d0 @ ''; '' @ itoa (sw_skipped s) @ '' skipped'' else d0);
          d2 = (if sw_extra s \<noteq> [] then d1 @ '', '' @ sw_extra s else d1);
          shown = sw_errs s @ sw_skips s
      in if shown = [] then d2
         else let shown' = take detailErrors shown;
                  d3 = d2 @ '': '' @ Join shown' ''; '';
                  n = length (sw_errs s) + length (sw_skips s) - length shown'
              in if n > 0 then d3 @ '' (+'' @ itoa n @ '' more)'' else d3)"

definition sweep_err :: "sweep \<Rightarrow> run_err option" where
  "sweep_err s = (if sw_errs s \<noteq> [] then Some (RunErr (sw_verb s @ '' did not complete for every device''))
                  else if sw_skipped s > 0 then Some ErrSkipped else None)"

subsection \<open>The reap job\<close>

definition RevokedRetentionSetting :: string where "RevokedRetentionSetting = ''revoked_retention_days''"
definition DefaultRetentionDays :: int where "DefaultRetentionDays = 30"
definition MinRetentionDays :: int where "MinRetentionDays = 1"
definition MaxRetentionDays :: int where "MaxRetentionDays = 3650"

definition RevokedRetentionDays :: "db \<Rightarrow> int" where
  "RevokedRetentionDays d = (let v = Setting RevokedRetentionSetting d in
     if v = [] then DefaultRetentionDays
     else case ParseInt64 v of
       Some n \<Rightarrow> if MinRetentionDays \<le> n \<and> n \<le> MaxRetentionDays then n else DefaultRetentionDays
     | None \<Rightarrow> DefaultRetentionDays)"

definition retentionWindow :: "db \<Rightarrow> duration" where
  "retentionWindow d = mul64 (mul64 (RevokedRetentionDays d) 24) hour"

datatype reap_err = ErrNoLocalData | UnsafeID string | NoGroup | NoTarget | NoPath | RemoveFailed | NoAgent string | NotRevoked string | CtxDone

definition reapCandidates :: "Job \<Rightarrow> db \<Rightarrow> reap_err + Agent list" where
  "reapCandidates j d =
     (if jo_AgentID j \<noteq> [] then
        (case AgentRow (jo_AgentID j) d of
           None \<Rightarrow> Inl (NoAgent (jo_AgentID j))
         | Some a \<Rightarrow>
             if ag_RevokedAt a = None then Inl (NotRevoked (ag_ID a))
             else if ag_RetiredAt a \<noteq> None then Inr [] else Inr [a])
      else Inr (filter (\<lambda>a. ag_RevokedAt a \<noteq> None \<and> ag_RetiredAt a = None) (Agents d)))"

definition agentRepoDir :: "db \<Rightarrow> Agent \<Rightarrow> reap_err + string" where
  "agentRepoDir d a =
     (if \<not> IsSafeAgentDir (ag_ID a) then Inl (UnsafeID (ag_ID a))
      else case GroupRow (ag_GroupID a) d of
        None \<Rightarrow> Inl NoGroup
      | Some g \<Rightarrow>
          (case TargetRow (gr_TargetID g) d of
             None \<Rightarrow> Inl NoTarget
           | Some t \<Rightarrow>
               if ta_Kind t = ''filesystem'' then
                 (if ta_Path t = [] then Inl NoPath else Inr (filepath_Join [ta_Path t, ''agents'', ag_ID a]))
               else if ta_Kind t = ''hosted'' \<and> ta_StorageMode t = ''disk'' then
                 (if ta_Path t = [] then Inl NoPath else Inr (filepath_Join [ta_Path t, ag_ID a]))
               else Inl ErrNoLocalData))"

text \<open>Keys first, then the bytes, then the stamp; with the directories handed to RemoveAll.\<close>

definition reapAgent :: "(string \<Rightarrow> bool) \<Rightarrow> gotime \<Rightarrow> Agent \<Rightarrow> db \<Rightarrow> reap_err option \<times> db \<times> string list" where
  "reapAgent rm now a d =
     (case agentRepoDir d a of
        Inl e \<Rightarrow>
          if e \<noteq> ErrNoLocalData then (Some e, d, [])
          else (Some ErrNoLocalData, RetireAgent (ag_ID a) now (d\<lparr>db_keys := snd (DeleteDeviceKeysForAgent (ag_ID a) (db_keys d))\<rparr>), [])
      | Inr dir \<Rightarrow>
          let d1 = d\<lparr>db_keys := snd (DeleteDeviceKeysForAgent (ag_ID a) (db_keys d))\<rparr>
          in if rm dir then (None, RetireAgent (ag_ID a) now d1, [dir]) else (Some RemoveFailed, d1, [dir]))"

record reap_state =
  rs_sweep :: sweep
  rs_waiting :: nat
  rs_kept :: nat
  rs_db :: db
  rs_unlinked :: "string list"

definition reap_one :: "(reap_err \<Rightarrow> string) \<Rightarrow> (string \<Rightarrow> bool) \<Rightarrow> gotime \<Rightarrow> duration \<Rightarrow> Agent \<Rightarrow> reap_state \<Rightarrow> reap_state" where
  "reap_one text rm now window a r =
     (if time_sub now (the (ag_RevokedAt a)) < window then r\<lparr>rs_waiting := Suc (rs_waiting r)\<rparr>
      else let s1 = (rs_sweep r)\<lparr>sw_total := Suc (sw_total (rs_sweep r))\<rparr>
      in case reapAgent rm now a (rs_db r) of (err, d', dirs) \<Rightarrow>
        let r1 = r\<lparr>rs_db := d', rs_unlinked := rs_unlinked r @ dirs\<rparr>
        in case err of
             Some ErrNoLocalData \<Rightarrow> r1\<lparr>rs_kept := Suc (rs_kept r), rs_sweep := s1\<lparr>sw_ok := Suc (sw_ok s1)\<rparr>\<rparr>
           | Some e \<Rightarrow> r1\<lparr>rs_sweep := sweep_fail (ag_ID a) (text e) s1\<rparr>
           | None \<Rightarrow> r1\<lparr>rs_sweep := s1\<lparr>sw_ok := Suc (sw_ok s1)\<rparr>\<rparr>)"

text \<open>Whether the context is done before each device; an exhausted list means it never is again.\<close>

fun reap_loop :: "(reap_err \<Rightarrow> string) \<Rightarrow> (string \<Rightarrow> bool) \<Rightarrow> gotime \<Rightarrow> duration \<Rightarrow> bool list \<Rightarrow> Agent list \<Rightarrow> reap_state \<Rightarrow> reap_state" where
  "reap_loop text rm now window cs [] r = r"
| "reap_loop text rm now window cs (a # as) r =
     (if cs \<noteq> [] \<and> hd cs then r\<lparr>rs_sweep := sweep_fail ''reap'' (text CtxDone) (rs_sweep r)\<rparr>
      else reap_loop text rm now window (drop 1 cs) as (reap_one text rm now window a r))"

definition reap_notes :: "nat \<Rightarrow> nat \<Rightarrow> string list" where
  "reap_notes waiting kept =
     (if waiting > 0 then [itoa waiting @ '' still inside the retention window''] else [])
     @ (if kept > 0 then [itoa kept @ '' with no local repository''] else [])"

definition Reap :: "(reap_err \<Rightarrow> string) \<Rightarrow> (string \<Rightarrow> bool) \<Rightarrow> bool list \<Rightarrow> gotime \<Rightarrow> Job \<Rightarrow> db \<Rightarrow> (outcome \<times> db) \<times> string list" where
  "Reap text rm cs now j d =
     (case reapCandidates j d of
        Inl e \<Rightarrow> ((Returned [] (Some (RunErr (text e))), d), [])
      | Inr agents \<Rightarrow>
          let r = reap_loop text rm now (retentionWindow d) cs agents
                    \<lparr>rs_sweep = \<lparr>sw_verb = ''reaped'', sw_total = 0, sw_ok = 0, sw_skipped = 0, sw_extra = [], sw_errs = [], sw_skips = []\<rparr>,
                     rs_waiting = 0, rs_kept = 0, rs_db = d, rs_unlinked = []\<rparr>;
              s = (rs_sweep r)\<lparr>sw_extra := Join (reap_notes (rs_waiting r) (rs_kept r)) '', ''\<rparr>
          in ((Returned (sweep_detail s) (sweep_err s), rs_db r), rs_unlinked r))"

end
