(* ===== verification/Reap_Correct.thy ===== *)
theory Reap_Correct
  imports Reap
begin

section \<open>Correctness of the reap job\<close>

text \<open>
  The job removes exactly one directory level below a target's root, only for devices
  that are revoked, not yet retired and past the retention window.
\<close>

subsection \<open>Where a device's repository lives\<close>

lemma Split_slash: "Split (a @ c # b) c = Split a c @ Split b c"
proof (induction a)
  case (Cons x a)
  show ?case
  proof (cases "x = c")
    case False
    with Cons show ?thesis by (cases "Split a c") auto
  qed (simp add: Cons)
qed simp

lemma clean_comps_below:
  assumes "root \<noteq> []" and "CHR ''/'' \<notin> set name" and "name \<noteq> []" and "name \<noteq> ''.''" and "name \<noteq> ''..''"
  shows "clean_comps (root @ CHR ''/'' # name) = clean_comps root @ [name]" "is_rooted (root @ CHR ''/'' # name) = is_rooted root"
proof -
  show r: "is_rooted (root @ CHR ''/'' # name) = is_rooted root" using assms(1) by (cases root) (simp_all add: is_rooted_def HasPrefix_def)
  show "clean_comps (root @ CHR ''/'' # name) = clean_comps root @ [name]"
    unfolding clean_comps_def r using assms(2-5) by (simp add: Split_slash Split_notin clean_step_def)
qed

lemma safe_name: "IsSafeAgentDir i \<Longrightarrow> CHR ''/'' \<notin> set i \<and> i \<noteq> [] \<and> i \<noteq> ''.'' \<and> i \<noteq> ''..''"
  by (simp add: IsSafeAgentDir_def Contains_def)

text \<open>One level below the root for a hosted target, two for a filesystem target.\<close>

lemma Join_below:
  assumes "root \<noteq> []" and "IsSafeAgentDir i"
  shows "filepath_Join [root, i] = render_path (is_rooted root) (clean_comps root @ [i])"
  using assms(1) safe_name[OF assms(2)] clean_comps_below[of root i] by (simp add: filepath_Join_def filepath_Clean_def)

lemma Join_below_agents:
  assumes "root \<noteq> []" and "IsSafeAgentDir i"
  shows "filepath_Join [root, ''agents'', i] = render_path (is_rooted root) (clean_comps root @ [''agents'', i])"
proof -
  have "clean_comps ((root @ ''/agents'') @ CHR ''/'' # i) = clean_comps (root @ ''/agents'') @ [i]"
    "is_rooted ((root @ ''/agents'') @ CHR ''/'' # i) = is_rooted (root @ ''/agents'')"
    using clean_comps_below[of "root @ ''/agents''" i] safe_name[OF assms(2)] by simp_all
  with assms(1) safe_name[OF assms(2)] clean_comps_below[of root "''agents''"] show ?thesis
    by (simp add: filepath_Join_def filepath_Clean_def)
qed

text \<open>The directory of an agent, in terms of its target's root.\<close>

definition dir_of :: "db \<Rightarrow> Agent \<Rightarrow> string \<Rightarrow> bool" where
  "dir_of d a p \<longleftrightarrow> IsSafeAgentDir (ag_ID a) \<and>
     (\<exists>g t. GroupRow (ag_GroupID a) d = Some g \<and> TargetRow (gr_TargetID g) d = Some t \<and> ta_Path t \<noteq> [] \<and>
       (ta_Kind t = ''filesystem'' \<and> p = render_path (is_rooted (ta_Path t)) (clean_comps (ta_Path t) @ [''agents'', ag_ID a])
        \<or> ta_Kind t = ''hosted'' \<and> ta_StorageMode t = ''disk'' \<and> p = render_path (is_rooted (ta_Path t)) (clean_comps (ta_Path t) @ [ag_ID a])))"

lemma agentRepoDir_dir: "agentRepoDir d a = Inr p \<Longrightarrow> dir_of d a p"
  by (auto simp: agentRepoDir_def dir_of_def Join_below Join_below_agents split: if_splits option.splits)

subsection \<open>The window\<close>

lemma retention_bounds: "1 \<le> RevokedRetentionDays d \<and> RevokedRetentionDays d \<le> 3650"
  by (auto simp: RevokedRetentionDays_def DefaultRetentionDays_def MinRetentionDays_def MaxRetentionDays_def Let_def split: option.splits)

lemma retentionWindow_days: "retentionWindow d = RevokedRetentionDays d * day"
proof -
  have "in_int64 (RevokedRetentionDays d * 24)" "in_int64 (RevokedRetentionDays d * 24 * hour)"
    using retention_bounds[of d] by (simp_all add: in_int64_def min_int64_def max_int64_def hour_def minute_def second_def)
  then show ?thesis by (simp add: retentionWindow_def mul64_def wrap64_id day_def)
qed

subsection \<open>What the loop does\<close>

definition reapable :: "gotime \<Rightarrow> duration \<Rightarrow> Agent \<Rightarrow> bool" where
  "reapable now window a \<longleftrightarrow> (\<exists>t. ag_RevokedAt a = Some t \<and> \<not> time_sub now t < window) \<and> ag_RetiredAt a = None"

text \<open>
  From one database to another by reaping some of the agents in \<open>A\<close>: rows of those may have
  been stamped and their keys deleted, the rest is as it was, and the directories named
  are theirs.
\<close>

definition reaped :: "Agent set \<Rightarrow> gotime \<Rightarrow> db \<Rightarrow> db \<Rightarrow> string list \<Rightarrow> bool" where
  "reaped A now d d' dirs \<longleftrightarrow>
     (\<exists>rows keys. d' = d\<lparr>db_agents := rows, db_keys := keys\<rparr>)
   \<and> list_all2 (\<lambda>a a'. a' = a \<or> a \<in> A \<and> ag_RetiredAt a = None \<and> a' = a\<lparr>ag_RetiredAt := Some (ts now)\<rparr>
        \<and> ag_ID a \<notin> dk_AgentID ` set (db_keys d')) (db_agents d) (db_agents d')
   \<and> (\<exists>gone. gone \<subseteq> ag_ID ` A \<and> db_keys d' = filter (\<lambda>k. dk_AgentID k \<notin> gone) (db_keys d))
   \<and> (\<forall>p \<in> set dirs. \<exists>a \<in> A. dir_of d a p)"

lemma dir_of_cong: "db_groups d' = db_groups d \<Longrightarrow> db_targets d' = db_targets d \<Longrightarrow> dir_of d' a p = dir_of d a p"
  by (simp add: dir_of_def GroupRow_def TargetRow_def)

lemma reaped_frame: "reaped A now d d' dirs \<Longrightarrow> db_groups d' = db_groups d \<and> db_targets d' = db_targets d"
  by (auto simp: reaped_def)

definition delete_keys :: "string \<Rightarrow> db \<Rightarrow> db" where
  "delete_keys i d = d\<lparr>db_keys := filter (\<lambda>k. dk_AgentID k \<noteq> i) (db_keys d)\<rparr>"

lemma reapAgent_cases:
  assumes "reapAgent rm now a d = (e, d', dirs)"
  shows "(d' = d \<and> dirs = []) \<or>
    ((d' = delete_keys (ag_ID a) d \<or> d' = RetireAgent (ag_ID a) now (delete_keys (ag_ID a) d)) \<and> (\<forall>p \<in> set dirs. dir_of d a p))"
  using assms by (auto simp: reapAgent_def delete_keys_def DeleteDeviceKeysForAgent_def Let_def
      split: sum.splits if_splits dest: agentRepoDir_dir)

lemma reaped_delete:
  assumes "reaped A now d d1 dirs" and "a \<in> A"
  shows "reaped A now d (delete_keys (ag_ID a) d1) dirs"
proof -
  from assms(1) obtain rows keys gone where r: "d1 = d\<lparr>db_agents := rows, db_keys := keys\<rparr>" "gone \<subseteq> ag_ID ` A"
    "db_keys d1 = filter (\<lambda>k. dk_AgentID k \<notin> gone) (db_keys d)" by (auto simp: reaped_def)
  have "\<exists>gone. gone \<subseteq> ag_ID ` A \<and> db_keys (delete_keys (ag_ID a) d1) = filter (\<lambda>k. dk_AgentID k \<notin> gone) (db_keys d)"
    using r(2,3) assms(2) by (intro exI[of _ "insert (ag_ID a) gone"]) (auto simp: delete_keys_def intro!: filter_cong)
  moreover have "\<exists>rows keys. delete_keys (ag_ID a) d1 = d\<lparr>db_agents := rows, db_keys := keys\<rparr>"
    using r(1) by (auto simp: delete_keys_def)
  ultimately show ?thesis using assms(1) unfolding reaped_def
    by (auto simp: delete_keys_def elim!: list_all2_mono)
qed

lemma reaped_retire:
  assumes "reaped A now d d1 dirs" and "a \<in> A" and "A \<subseteq> set (db_agents d)" and "distinct (map ag_ID (db_agents d))"
    and "ag_ID a \<notin> dk_AgentID ` set (db_keys d1)"
  shows "reaped A now d (RetireAgent (ag_ID a) now d1) dirs"
proof -
  let ?f = "\<lambda>r. if ag_ID r = ag_ID a \<and> ag_RetiredAt r = None then r\<lparr>ag_RetiredAt := Some (ts now)\<rparr> else r"
  let ?P = "\<lambda>x x'. x' = x \<or> x \<in> A \<and> ag_RetiredAt x = None \<and> x' = x\<lparr>ag_RetiredAt := Some (ts now)\<rparr> \<and> ag_ID x \<notin> dk_AgentID ` set (db_keys d1)"
  have d2: "RetireAgent (ag_ID a) now d1 = d1\<lparr>db_agents := map ?f (db_agents d1)\<rparr>" by (simp add: RetireAgent_def update_where_def)
  have all: "list_all2 ?P (db_agents d) (db_agents d1)" using assms(1) by (simp add: reaped_def)
  have "?P x (?f x')" if "?P x x'" and "x \<in> set (db_agents d)" for x x'
  proof (cases "x' = x \<and> ag_ID x = ag_ID a")
    case True
    then have "x = a" using that(2) assms(2-4) by (auto simp: distinct_map dest: inj_onD)
    with True assms(2,5) show ?thesis by auto
  qed (use that in auto)
  with all have "list_all2 ?P (db_agents d) (map ?f (db_agents d1))" unfolding list_all2_conv_all_nth by simp
  moreover obtain rows keys where "d1 = d\<lparr>db_agents := rows, db_keys := keys\<rparr>" using assms(1) by (auto simp: reaped_def)
  then have "d1\<lparr>db_agents := map ?f (db_agents d1)\<rparr> = d\<lparr>db_agents := map ?f (db_agents d1), db_keys := keys\<rparr>" by simp
  then have "\<exists>rows keys. d1\<lparr>db_agents := map ?f (db_agents d1)\<rparr> = d\<lparr>db_agents := rows, db_keys := keys\<rparr>" by blast
  ultimately show ?thesis using assms(1) unfolding d2 reaped_def by simp
qed

lemma reaped_agent:
  assumes "reaped A now d d1 dirs" and "a \<in> A" and "A \<subseteq> set (db_agents d)" and "distinct (map ag_ID (db_agents d))"
    and "reapAgent rm now a d1 = (e, d2, dirs2)"
  shows "reaped A now d d2 (dirs @ dirs2)"
proof -
  have more: "reaped A now d d2 dirs \<Longrightarrow> \<forall>p \<in> set dirs2. dir_of d1 a p \<Longrightarrow> reaped A now d d2 (dirs @ dirs2)"
    using assms(2) reaped_frame[OF assms(1)] dir_of_cong[of d1 d a] by (auto simp: reaped_def)
  have del: "reaped A now d (delete_keys (ag_ID a) d1) dirs" by (rule reaped_delete[OF assms(1,2)])
  have "ag_ID a \<notin> dk_AgentID ` set (db_keys (delete_keys (ag_ID a) d1))" by (auto simp: delete_keys_def)
  from reaped_retire[OF del assms(2-4) this] del assms(1) reapAgent_cases[OF assms(5)] more show ?thesis by auto
qed

lemma reap_one_frame:
  "rs_db (reap_one text rm now window a r) = (if time_sub now (the (ag_RevokedAt a)) < window then rs_db r else fst (snd (reapAgent rm now a (rs_db r))))"
  "rs_unlinked (reap_one text rm now window a r) = (if time_sub now (the (ag_RevokedAt a)) < window then rs_unlinked r
     else rs_unlinked r @ snd (snd (reapAgent rm now a (rs_db r))))"
  by (auto simp: reap_one_def Let_def split_def split: option.splits reap_err.splits)

lemma reap_loop_reaped:
  assumes "A \<subseteq> set (db_agents d)" and "distinct (map ag_ID (db_agents d))"
    and "reaped A now d (rs_db r) (rs_unlinked r)" and "\<forall>a \<in> set as. \<not> time_sub now (the (ag_RevokedAt a)) < window \<longrightarrow> a \<in> A"
  shows "reaped A now d (rs_db (reap_loop text rm now window cs as r)) (rs_unlinked (reap_loop text rm now window cs as r))"
  using assms(3,4)
proof (induction as arbitrary: cs r)
  case (Cons a as)
  have "reaped A now d (rs_db (reap_one text rm now window a r)) (rs_unlinked (reap_one text rm now window a r))"
  proof (cases "time_sub now (the (ag_RevokedAt a)) < window")
    case False
    with Cons.prems(2) have "a \<in> A" by simp
    obtain e d2 dirs2 where x: "reapAgent rm now a (rs_db r) = (e, d2, dirs2)" by (metis prod.exhaust)
    from reaped_agent[OF Cons.prems(1) \<open>a \<in> A\<close> assms(1,2) x] show ?thesis unfolding reap_one_frame if_not_P[OF False] x by simp
  qed (use Cons.prems(1) in \<open>simp add: reap_one_frame\<close>)
  with Cons show ?case by simp
qed simp

lemma candidates_reapable:
  assumes "reapCandidates j d = Inr as" and "a \<in> set as" and "\<not> time_sub now (the (ag_RevokedAt a)) < window"
  shows "a \<in> {a \<in> set (db_agents d). reapable now window a \<and> (jo_AgentID j = [] \<or> ag_ID a = jo_AgentID j)}"
  using assms by (auto simp: reapCandidates_def reapable_def AgentRow_def Agents_def find_Some_iff split: if_splits option.splits)

text \<open>
  C18. The reap job only removes what it may. It deletes directories and keys, and stamps
  rows, only of devices that were revoked at least the retention window ago, a window of
  one to 3650 days whatever the setting holds, and are not retired; of the one device the
  job names, if it names one. A directory it removes is named by the device, directly below
  its target's root, or below the root's agents directory for a filesystem target. No
  device is stamped while a key of it remains.
\<close>

theorem reap_confined:
  assumes "Reap text rm cs now j d = ((out, d'), dirs)" and "distinct (map ag_ID (db_agents d))"
  shows "reaped {a \<in> set (db_agents d). reapable now (retentionWindow d) a \<and> (jo_AgentID j = [] \<or> ag_ID a = jo_AgentID j)} now d d' dirs
    \<and> (\<exists>n. 1 \<le> n \<and> n \<le> 3650 \<and> retentionWindow d = n * day)"
proof -
  let ?A = "{a \<in> set (db_agents d). reapable now (retentionWindow d) a \<and> (jo_AgentID j = [] \<or> ag_ID a = jo_AgentID j)}"
  have "d = d\<lparr>db_agents := db_agents d, db_keys := db_keys d\<rparr>" by simp
  then have "\<exists>rows keys. d = d\<lparr>db_agents := rows, db_keys := keys\<rparr>" by blast
  then have start: "reaped ?A now d d []" by (auto simp: reaped_def list_all2_same intro: exI[of _ "{}"])
  have "reaped ?A now d d' dirs"
  proof (cases "reapCandidates j d")
    case (Inl e)
    with assms(1) start show ?thesis by (auto simp: Reap_def)
  next
    case (Inr as)
    have "\<forall>a \<in> set as. \<not> time_sub now (the (ag_RevokedAt a)) < retentionWindow d \<longrightarrow> a \<in> ?A"
      using candidates_reapable[OF Inr] by blast
    with Inr assms start show ?thesis
      by (auto simp: Reap_def Let_def intro!: reap_loop_reaped)
  qed
  with retention_bounds[of d] retentionWindow_days[of d] show ?thesis by blast
qed

definition toy_revoked :: Agent where
  "toy_revoked = \<lparr>ag_ID = ''ag_a'', ag_Name = [], ag_Hostname = [], ag_OS = [], ag_Arch = [], ag_Version = [], ag_Scope = [],
     ag_GroupID = 1, ag_BearerHash = ''h'', ag_SealedBundle = [], ag_PolicyETag = [], ag_EnrolledAt = 0, ag_LastSeenAt = None,
     ag_RevokedAt = Some 0, ag_RetiredAt = None\<rparr>"

definition toy_target :: Target where
  "toy_target = \<lparr>ta_ID = 1, ta_Name = [], ta_Kind = ''hosted'', ta_Bucket = [], ta_Region = [], ta_Path = ''/srv/fleet'', ta_SealedAdminKey = [],
     ta_ObjectLockVerifiedAt = None, ta_CreatedAt = 0, ta_StorageMode = ''disk'', ta_Endpoint = [], ta_MirrorKind = [], ta_MirrorBucket = [],
     ta_MirrorRegion = [], ta_SealedMirrorKey = [], ta_MirrorLockVerifiedAt = None, ta_MirrorConditionalPut = None\<rparr>"

definition toy_reap_db :: db where
  "toy_reap_db = empty_db\<lparr>db_targets := [toy_target], db_agents := [toy_revoked],
     db_groups := [\<lparr>gr_ID = 1, gr_Name = [], gr_TargetID = 1, gr_TemplateID = 1, gr_CreatedAt = 0, gr_DeletedAt = None\<rparr>]\<rparr>"

definition toy_reap :: "(outcome \<times> db) \<times> string list" where
  "toy_reap = Reap (\<lambda>e. []) (\<lambda>p. True) [] (31 * day) (interval_job ''reap'' 0) toy_reap_db"

theorem reap_confined_witness:
  "snd toy_reap = [''/srv/fleet/ag_a''] \<and>
   reaped {a \<in> set (db_agents toy_reap_db). reapable (31 * day) (retentionWindow toy_reap_db) a \<and> (([] :: string) = [] \<or> ag_ID a = [])}
     (31 * day) toy_reap_db (snd (fst toy_reap)) (snd toy_reap)"
proof -
  have ids: "distinct (map ag_ID (db_agents toy_reap_db))" by (simp add: toy_reap_db_def)
  have run: "Reap (\<lambda>e. []) (\<lambda>p. True) [] (31 * day) (interval_job ''reap'' 0) toy_reap_db
      = ((fst (fst toy_reap), snd (fst toy_reap)), snd toy_reap)" by (simp add: toy_reap_def)
  have job: "jo_AgentID (interval_job ''reap'' 0) = []" by (simp add: interval_job_def)
  have "snd toy_reap = [''/srv/fleet/ag_a'']" by code_simp
  with conjunct1[OF reap_confined[OF run ids]] show ?thesis unfolding job by blast
qed

end
