(* ===== verification/Enrollment_Correct.thy ===== *)
theory Enrollment_Correct
  imports Enrollment Reap_Correct
begin

section \<open>Enrollment: what holds and what races\<close>

text \<open>
  Minted ids are safe directory names; a token's lifetime is bounded; and a group can be
  deleted under an enrollment that has already spent its token.
\<close>

subsection \<open>Minted ids\<close>

definition id_char :: "char \<Rightarrow> bool" where
  "id_char c \<longleftrightarrow> byte_in 97 122 c \<or> byte_in 50 55 c"

lemma bits_bound: "length bs = n \<Longrightarrow> foldl (\<lambda>n b. 2 * n + of_bool b) a bs < (2 :: nat) ^ n * Suc a"
proof (induction bs arbitrary: a n)
  case (Cons b bs)
  from Cons.IH[of "n - 1" "2 * a + of_bool b"] Cons.prems
  have "foldl (\<lambda>n b. 2 * n + of_bool b) (2 * a + of_bool b) bs < 2 ^ (n - 1) * Suc (2 * a + of_bool b)" by auto
  also have "\<dots> \<le> 2 ^ (n - 1) * (2 * Suc a)" by (intro mult_le_mono2) (cases b, auto)
  also have "\<dots> = 2 ^ n * Suc a" using Cons.prems by (cases n) auto
  finally show ?case by simp
qed simp

lemma b32_char_range: "id_char (lower_char (b32_char bs))"
proof -
  define n :: nat where "n = foldl (\<lambda>n b. 2 * n + of_bool b) 0 (take 5 (bs @ replicate 5 False))"
  have "n < 2 ^ 5 * Suc 0" unfolding n_def by (rule bits_bound) simp
  then have "n < 32" by simp
  then have "n \<in> set [0..<32]" by simp
  moreover have "b32_char bs = (if n < 26 then char_of (65 + n) else char_of (24 + n))" by (simp add: b32_char_def n_def Let_def)
  moreover have "\<forall>n \<in> set [0..<32]. id_char (lower_char (if n < 26 then char_of (65 + n) else char_of (24 + n)))" by code_simp
  ultimately show ?thesis by simp
qed

lemma b32_chunks_range: "c \<in> set (ToLower (b32_chunks bs)) \<Longrightarrow> id_char c"
  by (induction bs rule: b32_chunks.induct) (auto simp: ToLower_def b32_char_range)

text \<open>So the guard of the reap job never refuses an id the server minted.\<close>

lemma newID_safe: "IsSafeAgentDir (newID b)"
proof -
  have "\<forall>c \<in> set (newID b). id_char c \<or> c = CHR ''_''"
    using b32_chunks_range by (auto simp: newID_def base32_encode_def id_char_def byte_in_def byte_def dest: in_set_takeD)
  then have free: "CHR ''/'' \<notin> set (newID b)" "CHR 0x5C \<notin> set (newID b)" by (auto simp: id_char_def byte_in_def byte_def)
  have pre: "newID b = CHR ''a'' # CHR ''g'' # CHR ''_'' # take 10 (ToLower (base32_encode b))" by (simp add: newID_def)
  then have "clean_comps (newID b) = [newID b]" "\<not> is_rooted (newID b)"
    using free(1) by (simp_all add: clean_comps_def Split_notin clean_step_def is_rooted_def HasPrefix_def)
  with pre free show ?thesis by (simp add: IsSafeAgentDir_def Contains_def filepath_Clean_def render_path_def)
qed

subsection \<open>Lifetimes\<close>

lemma Issue_row:
  assumes "Issue sha256 rnd now g ttl maxUses by_admin d = Inr (plain, tok, d')"
  shows "\<exists>ttl'. 0 < ttl' \<and> ttl' \<le> MaxTTL \<and> (0 < ttl \<longrightarrow> ttl' = ttl) \<and> tk_ExpiresAt tok = now + ttl' \<and> 0 \<le> tk_MaxUses tok \<and> tk_Uses tok = 0
    \<and> tk_Hash tok = sha256 plain \<and> HasPrefix plain ''wh_''"
  using assms by (auto simp: Issue_def NewToken_def HashToken_def Let_def DefaultTTL_def MaxTTL_def hour_def minute_def second_def
      split: if_splits option.splits sum.splits)

text \<open>
  The endpoint multiplies the seconds in 64 bits first: a lifetime of 584 years wraps to a
  third of a second and is accepted, where 31 days are refused.
\<close>

lemma ttl_wraps: "mul64 18446744074 second = 290448384" "0 < mul64 18446744074 second \<and> mul64 18446744074 second \<le> MaxTTL"
    "mul64 (31 * 86400) second > MaxTTL"
  by code_simp+

subsection \<open>A group deleted under an enrollment\<close>

lemma consume_last_use:
  assumes "db_ok d" and "TokenByHash h d = Some tok" and "token_live now tok"
  shows "ConsumeToken (tk_ID tok) now d =
    (True, d\<lparr>db_tokens := map (\<lambda>r. if r = tok then r\<lparr>tk_Uses := tk_Uses r + 1\<rparr> else r) (db_tokens d)\<rparr>)"
proof -
  have mem: "tok \<in> set (db_tokens d)" using assms(2) by (auto simp: TokenByHash_def find_Some_iff)
  have dist: "distinct (map tk_ID (db_tokens d))" using assms(1) by (simp add: ok_simps)
  have "\<And>r. r \<in> set (db_tokens d) \<Longrightarrow> (tk_ID r = tk_ID tok \<and> token_live now r) = (r = tok)"
    using dist mem assms(3) by (auto simp: distinct_map dest: inj_onD)
  then show ?thesis using filter_by_key[OF dist mem, of "token_live now"] assms(3)
    by (simp add: ConsumeToken_def update_where_def)
qed

lemma DeleteGroup_free:
  assumes "keys_ok d" and "GroupRow i d = Some g" and "\<not> unretired_in d i"
    and "\<And>t. t \<in> set (db_tokens d) \<Longrightarrow> tk_GroupID t = i \<Longrightarrow> token_stale now t"
  shows "\<exists>d'. DeleteGroup i now d = (None, d') \<and> GroupRow i d' = None \<and> db_agents d' = db_agents d
    \<and> gr_ID ` set (db_groups d') = gr_ID ` set (db_groups d)"
proof -
  define d1 where "d1 = d\<lparr>db_tokens := filter (\<lambda>t. \<not> (tk_GroupID t = i \<and> token_stale now t)) (db_tokens d)\<rparr>"
  define p where "p = (\<lambda>g :: Group. gr_ID g = i \<and> gr_DeletedAt g = None)"
  define f where "f = (\<lambda>g :: Group. g\<lparr>gr_DeletedAt := Some (ts now)\<rparr>)"
  define d' where "d' = d1\<lparr>db_groups := snd (update_where p f (db_groups d1))\<rparr>"
  have g: "g \<in> set (db_groups d)" "gr_ID g = i" "gr_DeletedAt g = None" using assms(2) by (auto simp: GroupRow_def find_Some_iff)
  have "filter (\<lambda>h. gr_ID h = gr_ID g \<and> gr_DeletedAt h = None) (db_groups d) = [g]"
    using filter_by_key[of gr_ID "db_groups d" g "\<lambda>h. gr_DeletedAt h = None"] assms(1) g(1,3) by (simp add: keys_ok_def)
  then have one: "fst (update_where p f (db_groups d1)) = 1" by (simp add: update_where_def p_def d1_def g(2))
  have "\<not> unretired_in d1 i" "\<not> list_ex (\<lambda>t. tk_GroupID t = i \<and> token_live now t) (db_tokens d1)"
    using assms(3,4) by (auto simp: d1_def unretired_in_def list_ex_iff)
  then have "(\<lambda>g :: Group. gr_ID g = i \<and> gr_DeletedAt g = None \<and> \<not> unretired_in d1 i
      \<and> \<not> list_ex (\<lambda>t. tk_GroupID t = i \<and> token_live now t) (db_tokens d1)) = p" by (simp add: p_def)
  then have "DeleteGroup i now d = (case update_where p f (db_groups d1) of (n, rows) \<Rightarrow>
        if n = 1 then (None, d1\<lparr>db_groups := rows\<rparr>)
        else if GroupRow i d1 = None then (Some ErrNotFound_store, d1) else (Some ErrGroupInUse, d1))"
    unfolding DeleteGroup_def d1_def[symmetric] f_def[symmetric] Let_def by (simp only:)
  with one have "DeleteGroup i now d = (None, d')" by (cases "update_where p f (db_groups d1)") (simp add: d'_def)
  moreover have np: "\<not> p (f h)" for h by (simp add: p_def f_def)
  have "GroupRow i d' = None"
    unfolding GroupRow_def p_def[symmetric] d'_def find_None_iff by (auto simp: update_where_def np)
  moreover have "gr_ID ` set (db_groups d') = gr_ID ` set (db_groups d)"
    unfolding d'_def f_def by (simp add: update_where_column(2) d1_def)
  ultimately show ?thesis by (intro exI[of _ d']) (simp add: d'_def d1_def)
qed

text \<open>
  C39. A device can be enrolled into a deleted group. Between the consumption of the last
  use of a group's only token and the insertion of the agent's row, nothing holds the
  group: a deletion in between succeeds, the row is inserted all the same, and the fleet
  has an agent that is not retired in a group that does not exist.
\<close>

theorem enroll_into_deleted_group:
  assumes "db_ok d" and "er_Token req \<noteq> []" and "er_Hostname req \<noteq> []"
    and "TokenByHash (sha256 (er_Token req)) d = Some tok" and "token_live now tok" and "tk_MaxUses tok = tk_Uses tok + 1" and "0 \<le> tk_Uses tok"
    and "GroupRow (tk_GroupID tok) d = Some g" and "TargetRow (gr_TargetID g) d = Some t"
    and "\<forall>t' \<in> set (db_tokens d). tk_GroupID t' = tk_GroupID tok \<longrightarrow> t' = tok" and "\<not> unretired_in d (tk_GroupID tok)"
    and "\<not> has_agent d aid" and "bh \<notin> ag_BearerHash ` set (db_agents d)"
  shows "\<exists>d1 d2 d3. enroll_begin sha256 now req d = (Inr (g, t), d1) \<and> DeleteGroup (tk_GroupID tok) now2 d1 = (None, d2)
    \<and> CreateAgent (enroll_row now req aid bh g) d2 = Inr d3 \<and> unretired_in d3 (tk_GroupID tok) \<and> GroupRow (tk_GroupID tok) d3 = None"
proof -
  let ?i = "tk_GroupID tok"
  let ?up = "\<lambda>r. if r = tok then r\<lparr>tk_Uses := tk_Uses r + 1\<rparr> else r"
  let ?d1 = "d\<lparr>db_tokens := map ?up (db_tokens d)\<rparr>"
  note c = consume_last_use[OF assms(1,4,5)]
  have "TokenByHash h ?d1 = map_option ?up (TokenByHash h d)" for h
    unfolding TokenByHash_def using find_update[of "\<lambda>r. r = tok" "\<lambda>r. tk_Hash r = h" "\<lambda>r. r\<lparr>tk_Uses := tk_Uses r + 1\<rparr>" "db_tokens d"]
    by (simp add: update_where_def)
  then have b: "enroll_begin sha256 now req d = (Inr (g, t), ?d1)"
    using assms(2-4,8,9) by (simp add: enroll_begin_def Consume_def HashToken_def c GroupRow_def TargetRow_def)
  have k: "keys_ok ?d1" using ConsumeToken_ok[OF c assms(1)] by (simp add: db_ok_def)
  have g1: "GroupRow ?i ?d1 = Some g" "\<not> unretired_in ?d1 ?i" using assms(8,11) by (simp_all add: GroupRow_def unretired_in_def)
  have st: "\<And>r. r \<in> set (db_tokens ?d1) \<Longrightarrow> tk_GroupID r = ?i \<Longrightarrow> token_stale now2 r"
    using assms(6,7,10) by (auto simp: token_stale_def split: if_splits)
  obtain d2 where d2: "DeleteGroup ?i now2 ?d1 = (None, d2)" "GroupRow ?i d2 = None" "db_agents d2 = db_agents ?d1"
    "gr_ID ` set (db_groups d2) = gr_ID ` set (db_groups ?d1)"
    using DeleteGroup_free[OF k g1 st] by blast
  have gid: "gr_ID g = ?i" "g \<in> set (db_groups d)" using assms(8) by (auto simp: GroupRow_def find_Some_iff)
  have "has_group d2 ?i" using imageI[OF gid(2), of gr_ID] gid(1) by (simp add: has_group_def d2(4))
  then obtain d3 where d3: "CreateAgent (enroll_row now req aid bh g) d2 = Inr d3"
    using assms(12,13) gid(1) by (simp add: CreateAgent_def enroll_row_def has_agent_def d2(3))
  then have "unretired_in d3 ?i" "GroupRow ?i d3 = None"
    using d2(2) gid(1) by (auto simp: CreateAgent_def enroll_row_def unretired_in_def GroupRow_def split: if_splits)
  with b d2(1) d3 show ?thesis by (intro exI[of _ ?d1] exI[of _ d2] exI[of _ d3]) simp
qed

definition toy_group :: Group where
  "toy_group = \<lparr>gr_ID = 1, gr_Name = [], gr_TargetID = 1, gr_TemplateID = 1, gr_CreatedAt = 0, gr_DeletedAt = None\<rparr>"

definition toy_token :: Token where
  "toy_token = \<lparr>tk_ID = 1, tk_Hash = ''wh_x'', tk_GroupID = 1, tk_ExpiresAt = hour, tk_MaxUses = 1, tk_Uses = 0, tk_RevokedAt = None,
     tk_CreatedBy = 1, tk_CreatedAt = 0\<rparr>"

definition toy_enroll_db :: db where
  "toy_enroll_db = empty_db\<lparr>db_targets := [toy_target], db_groups := [toy_group], db_tokens := [toy_token],
     db_templates := [\<lparr>te_ID = 1, te_Name = [], te_Sources = [], te_PolicyJSON = ''{}'', te_CreatedAt = 0\<rparr>]\<rparr>"

definition toy_enroll_req :: enroll_req where
  "toy_enroll_req = \<lparr>er_Token = ''wh_x'', er_Hostname = ''box'', er_OS = [], er_Arch = [], er_Version = [], er_Scope = []\<rparr>"

theorem enroll_into_deleted_group_witness:
  "\<exists>d1 d2 d3. enroll_begin (\<lambda>s. s) 0 toy_enroll_req toy_enroll_db = (Inr (toy_group, toy_target), d1) \<and> DeleteGroup 1 second d1 = (None, d2)
    \<and> CreateAgent (enroll_row 0 toy_enroll_req ''ag_b'' ''h'' toy_group) d2 = Inr d3 \<and> unretired_in d3 1 \<and> GroupRow 1 d3 = None"
proof -
  have ok: "db_ok toy_enroll_db" by code_simp
  have tok: "TokenByHash (er_Token toy_enroll_req) toy_enroll_db = Some toy_token" by code_simp
  have live: "token_live 0 toy_token" by code_simp
  have g: "GroupRow (tk_GroupID toy_token) toy_enroll_db = Some toy_group" by code_simp
  have t: "TargetRow (gr_TargetID toy_group) toy_enroll_db = Some toy_target" by code_simp
  have only: "\<forall>t' \<in> set (db_tokens toy_enroll_db). tk_GroupID t' = tk_GroupID toy_token \<longrightarrow> t' = toy_token" by (simp add: toy_enroll_db_def)
  have un: "\<not> unretired_in toy_enroll_db (tk_GroupID toy_token)" by code_simp
  have ag: "\<not> has_agent toy_enroll_db ''ag_b''" "''h'' \<notin> ag_BearerHash ` set (db_agents toy_enroll_db)" by code_simp+
  have id: "tk_GroupID toy_token = 1" by (simp add: toy_token_def)
  show ?thesis
    using enroll_into_deleted_group[where ?sha256.0 = "\<lambda>s. s" and ?now2.0 = second, OF ok _ _ tok live _ _ g t only un ag]
    by (simp add: id toy_enroll_req_def toy_token_def)
qed

end
