(* ===== verification/Fleet_Server.thy ===== *)
theory Fleet_Server
  imports Gateway_Correct Enrollment Reap
begin

section \<open>The gateway inside the fleet server\<close>

text \<open>
  Models how \<^verbatim>\<open>src/fleet/api/gateway_mount.go\<close> resolves a device to a target through the
  database and hands requests to the gateway, and the revocation of a device in
  \<^verbatim>\<open>src/fleet/api/admin_agents.go\<close>, which spans both: it disables the keys, empties the
  gateway's cache, stamps the row and schedules the reap. The state of a server is its
  database and the gateway's state; the gateway reads the device keys of the database.
  Opening a backend is the parameter \<open>opens\<close>: whether the target has a cached handle or one
  can be opened. The lemmas show that a revoked device stays locked out.
\<close>

subsection \<open>From a device to its store\<close>

definition targetStore :: "(Target \<Rightarrow> bool) \<Rightarrow> Target \<Rightarrow> sf_error + nat" where
  "targetStore opens t =
     (if ta_Kind t \<noteq> ''hosted'' \<or> ta_StorageMode t \<noteq> ''disk'' \<and> ta_StorageMode t \<noteq> ''cloud'' then Inl ErrUnsupportedStorageMode
      else if ta_StorageMode t = ''disk'' \<and> ta_Path t = [] then Inl SfOther
      else if \<not> opens t then Inl SfOther
      else Inr (nat (ta_ID t)))"

text \<open>There is no database before activation.\<close>

definition storeForAgent :: "(Target \<Rightarrow> bool) \<Rightarrow> db option \<Rightarrow> string \<Rightarrow> sf_error + nat" where
  "storeForAgent opens st agentID =
     (case st of
        None \<Rightarrow> Inl ErrAccessDenied
      | Some d \<Rightarrow>
          (case AgentRow agentID d of
             None \<Rightarrow> Inl SfOther
           | Some a \<Rightarrow>
               if ag_RevokedAt a \<noteq> None then Inl ErrAccessDenied
               else (case GroupRow (ag_GroupID a) d of
                  None \<Rightarrow> Inl SfOther
                | Some g \<Rightarrow>
                    (case TargetRow (gr_TargetID g) d of
                       None \<Rightarrow> Inl SfOther
                     | Some t \<Rightarrow> targetStore opens t))))"

definition mounted :: "(Target \<Rightarrow> bool) \<Rightarrow> db \<Rightarrow> ('e, 's) Gateway \<Rightarrow> ('e, 's) Gateway" where
  "mounted opens d g = g\<lparr>g_storeFor := storeForAgent opens (Some d)\<rparr>"

definition serveGateway :: "(Target \<Rightarrow> bool) \<Rightarrow> ('e, 's) Gateway \<Rightarrow> request \<times> 'e gw_env \<Rightarrow> db option \<Rightarrow> 's gw_state
    \<Rightarrow> response \<times> 's gw_state" where
  "serveGateway opens g q st w =
     (case st of
        None \<Rightarrow> (NotActivatedHandler (fst q), w)
      | Some d \<Rightarrow>
          (case ServeHTTP (mounted opens d g) q (w\<lparr>gs_db := db_keys d\<rparr>) of (rs, lg, w') \<Rightarrow> (rs, w')))"

subsection \<open>Revocation\<close>

text \<open>
  The deletion of a B2 target's keys before the first statement is best effort and touches
  neither the database nor the gateway. The handler reads the clock three times.
\<close>

definition handleAgentRevoke :: "gotime \<Rightarrow> gotime \<Rightarrow> gotime \<Rightarrow> string \<Rightarrow> db \<Rightarrow> 's gw_state \<Rightarrow> answer \<times> db \<times> 's gw_state" where
  "handleAgentRevoke now1 now2 now3 i d w =
     (case AgentRow i d of
        None \<Rightarrow> (Answer 404 ''agent not found'', d, w)
      | Some a \<Rightarrow>
          (let d1 = d\<lparr>db_keys := snd (DisableDeviceKeysForAgent (ag_ID a) now1 (db_keys d))\<rparr>;
               w1 = InvalidateKeys (ag_ID a) w;
               d2 = RevokeAgent (ag_ID a) now2 d1
           in case ScheduleReap (ag_ID a) (now3 + retentionWindow d2) d2 of
                Inl e \<Rightarrow> (Answer 500 ''internal error'', d2, w1)
              | Inr (j, d3) \<Rightarrow> (Answer 204 [], d3, w1)))"

text \<open>
  A server at work: statements of the store package from any handler or job, requests of
  devices, and whatever else touches the gateway's caches and limiters.
\<close>

inductive server_run :: "(Target \<Rightarrow> bool) \<Rightarrow> ('e, 's) Gateway \<Rightarrow> db \<times> 's gw_state \<Rightarrow> db_event list \<Rightarrow> db \<times> 's gw_state \<Rightarrow> bool"
  for opens g s0 where
  sr_start: "server_run opens g s0 [] s0"
| sr_statement: "server_run opens g s0 es (d, w) \<Longrightarrow> db_step d e d' \<Longrightarrow> server_run opens g s0 (e # es) (d', w)"
| sr_request: "server_run opens g s0 es (d, w) \<Longrightarrow> serveGateway opens g q (Some d) w = (rs, w') \<Longrightarrow> server_run opens g s0 es (d, w')"
| sr_caches: "server_run opens g s0 es (d, w) \<Longrightarrow> gs_stores w' = gs_stores w \<Longrightarrow> server_run opens g s0 es (d, w')"

subsection \<open>A revoked device is locked out\<close>

lemma storeForAgent_locked: "locked_agent i d \<Longrightarrow> storeForAgent opens (Some d) i \<noteq> Inr t"
  by (auto simp: storeForAgent_def locked_agent_def AgentRow_def find_Some_iff set_conv_nth split: option.splits)

lemma requireAgent_locked: "locked_agent i d \<Longrightarrow> requireAgent sha256 authorization d = Inr a \<Longrightarrow> ag_ID a \<noteq> i"
  by (auto simp: requireAgent_def locked_agent_def AgentByBearerHash_def find_Some_iff set_conv_nth Let_def split: option.splits if_splits)

lemma handleAgentRevoke_locks:
  assumes "handleAgentRevoke now1 now2 now3 i d w = (Answer 204 [], d1, w1)"
  shows "locked_agent i d1" "gs_stores w1 = gs_stores w" "\<exists>j \<in> set (db_jobs d1). jo_Kind j = ''reap'' \<and> jo_AgentID j = i
    \<and> jo_Status j = ''pending'' \<and> jo_ScheduledFor j = ts (now3 + retentionWindow d)"
proof -
  obtain a where a: "AgentRow i d = Some a" using assms by (auto simp: handleAgentRevoke_def split: option.splits)
  then have i: "ag_ID a = i" by (auto simp: AgentRow_def find_Some_iff)
  have "retentionWindow (RevokeAgent i now2 (d\<lparr>db_keys := ks\<rparr>)) = retentionWindow d" for ks
    by (simp add: retentionWindow_def RevokedRetentionDays_def RevokeAgent_def Setting_def)
  with assms a i show "locked_agent i d1" "gs_stores w1 = gs_stores w" "\<exists>j \<in> set (db_jobs d1). jo_Kind j = ''reap'' \<and> jo_AgentID j = i
    \<and> jo_Status j = ''pending'' \<and> jo_ScheduledFor j = ts (now3 + retentionWindow d)"
    by (auto simp: handleAgentRevoke_def ScheduleReap_def RevokeAgent_def locked_agent_def update_where_def InvalidateKeys_def Let_def
        split: if_splits)
qed

text \<open>A request that is not refused comes from a device that is not revoked.\<close>

lemma served_not_locked:
  assumes "serveGateway opens g (r, ev) (Some d) w = (rs, w')" and "locked_agent i d"
  shows "refusal rs \<and> gs_stores w' = gs_stores w
    \<or> (\<exists>a readOnly. a \<noteq> i \<and> authentic (mounted opens d g) r ev (w\<lparr>gs_db := db_keys d\<rparr>) a readOnly)"
proof -
  obtain lg where s: "ServeHTTP (mounted opens d g) (r, ev) (w\<lparr>gs_db := db_keys d\<rparr>) = (rs, lg, w')"
    using assms(1) by (auto simp: serveGateway_def split: prod.splits)
  have other: "a \<noteq> i" if "g_storeFor (mounted opens d g) a = Inr t" for a t
    using that storeForAgent_locked[OF assms(2)] by (auto simp: mounted_def)
  from s show ?thesis
    by (cases rule: ServeHTTP_cases) (use other in auto)
qed

lemma disk_mounted: "mounted opens d (disk_gateway md5 roots g) = disk_gateway md5 roots (mounted opens d g)"
  by (simp add: mounted_def disk_gateway_def)

lemma slash_prefix:
  assumes "HasPrefix k (a @ ''/'')" and "HasPrefix k (b @ ''/'')" and "CHR ''/'' \<notin> set a" and "CHR ''/'' \<notin> set b"
  shows "a = b"
proof -
  obtain x where "k = a @ CHR ''/'' # x" using assms(1) by (auto simp: HasPrefix_iff)
  moreover obtain y where "k = b @ CHR ''/'' # y" using assms(2) by (auto simp: HasPrefix_iff)
  ultimately show ?thesis
    using Cut_append[OF assms(3), of x] Cut_append[OF assms(4), of y] by simp
qed

lemma request_frozen:
  assumes "\<And>t. fs_wf (gs_stores w t)" and "serveGateway opens (disk_gateway md5 roots g) q (Some d) w = (rs, w')"
    and "locked_agent i d" and "CHR ''/'' \<notin> set i"
  shows "(\<forall>t. fs_wf (gs_stores w' t)) \<and> (\<forall>t k. HasPrefix k (i @ ''/'') \<longrightarrow> local_objs (gs_stores w' t) k = local_objs (gs_stores w t) k)"
proof -
  let ?g = "mounted opens d g"
  obtain r ev where q: "q = (r, ev)" by (cases q)
  obtain lg where s: "ServeHTTP (disk_gateway md5 roots ?g) (r, ev) (w\<lparr>gs_db := db_keys d\<rparr>) = (rs, lg, w')"
    using assms(2) by (auto simp: serveGateway_def disk_mounted q split: prod.splits)
  have wf: "\<And>t. fs_wf (gs_stores (w\<lparr>gs_db := db_keys d\<rparr>) t)" using assms(1) by simp
  note st = disk.ServeHTTP_step[OF wf s]
  have "local_objs (gs_stores w' t) k = local_objs (gs_stores w t) k" if k: "HasPrefix k (i @ ''/'')" for t k
  proof (cases "gs_stores w' = gs_stores w")
    case False
    with st obtain a ro u where a: "authentic (disk_gateway md5 roots ?g) r ev (w\<lparr>gs_db := db_keys d\<rparr>) a ro"
      "g_storeFor (disk_gateway md5 roots ?g) a = Inr u" "\<forall>v. v \<noteq> u \<longrightarrow> gs_stores w' v = gs_stores w v"
      "device_step a ro (local_objs (gs_stores w u)) (local_objs (gs_stores w' u))" by auto
    have "a \<noteq> i" using a(2) storeForAgent_locked[OF assms(3)] by (auto simp: mounted_def disk_gateway_def)
    moreover have "CHR ''/'' \<notin> set a" using authentic_agent a(1) by blast
    ultimately have "\<not> HasPrefix k (a @ ''/'')" using slash_prefix[OF _ k] assms(4) by blast
    with device_step_frame[OF a(4)] a(3) show ?thesis by (cases "t = u") auto
  qed simp
  with st show ?thesis by blast
qed

lemma run_frozen:
  assumes "server_run opens (disk_gateway md5 roots g) s0 es s" and "\<And>t. fs_wf (gs_stores (snd s0) t)"
    and "locked_agent i (fst s0)" and "AgentCreated i \<notin> set es" and "CHR ''/'' \<notin> set i"
  shows "locked_agent i (fst s) \<and> (\<forall>t. fs_wf (gs_stores (snd s) t))
    \<and> (\<forall>t k. HasPrefix k (i @ ''/'') \<longrightarrow> local_objs (gs_stores (snd s) t) k = local_objs (gs_stores (snd s0) t) k)"
  using assms(1,4)
proof (induction rule: server_run.induct)
  case sr_start
  with assms(2,3) show ?case by simp
next
  case (sr_statement es d w e d')
  then show ?case using locked.lasting_step[of d e d' i] by auto
next
  case (sr_request es d w q rs w')
  then have "locked_agent i d" "\<And>t. fs_wf (gs_stores w t)" by auto
  from request_frozen[OF this(2) sr_request(2) this(1) assms(5)] sr_request show ?case by auto
qed simp


definition toy_fleet :: db where
  "toy_fleet = empty_db\<lparr>db_agents := [\<lparr>ag_ID = ''dev'', ag_Name = [], ag_Hostname = [], ag_OS = [], ag_Arch = [], ag_Version = [],
     ag_Scope = [], ag_GroupID = 1, ag_BearerHash = [], ag_SealedBundle = [], ag_PolicyETag = [], ag_EnrolledAt = 0, ag_LastSeenAt = None,
     ag_RevokedAt = None, ag_RetiredAt = None\<rparr>], db_keys := gs_db toy_state\<rparr>"


end
