(* ===== verification/Login_Limit.thy ===== *)
theory Login_Limit
  imports Prelude "HOL-Library.Multiset"
begin

section \<open>The limiter of sign-in attempts\<close>

text \<open>
  Models \<^verbatim>\<open>limiter\<close> of \<^verbatim>\<open>src/fleet/api/auth.go\<close>: the times of the attempts that were let
  through, per client address, within a sliding window. The map is an association list in
  the order in which Go happens to iterate it; a run may permute it before every call. The
  lemmas bound the attempts per window and the size of the map.
\<close>

record login_limiter =
  ll_max :: nat
  ll_per :: duration
  ll_hits :: "(string \<times> gotime list) list"

definition newLoginLimiter :: "nat \<Rightarrow> duration \<Rightarrow> login_limiter" where
  "newLoginLimiter mx per = \<lparr>ll_max = mx, ll_per = per, ll_hits = []\<rparr>"

definition maxLimiterKeys :: nat where "maxLimiterKeys = 10000"

definition loginMaxAttempts :: nat where "loginMaxAttempts = 6"

definition loginWindow :: duration where "loginWindow = minute"

definition last_hit :: "gotime list \<Rightarrow> gotime" where
  "last_hit hits = (if hits = [] then zero_time else last hits)"

definition expire_hits :: "gotime \<Rightarrow> duration \<Rightarrow> (string \<times> gotime list) list \<Rightarrow> (string \<times> gotime list) list" where
  "expire_hits now per hs = filter (\<lambda>(k, hits). \<not> (hits = [] \<or> time_sub now (last hits) \<ge> per)) hs"

text \<open>The scan for the least recently used key: the first of those with the oldest last hit.\<close>

fun lru_scan :: "(string \<times> gotime) option \<Rightarrow> (string \<times> gotime list) list \<Rightarrow> (string \<times> gotime) option" where
  "lru_scan best [] = best"
| "lru_scan best ((k, hits) # hs) =
     lru_scan (case best of
         None \<Rightarrow> Some (k, last_hit hits)
       | Some (lruKey, lru) \<Rightarrow> if last_hit hits < lru then Some (k, last_hit hits) else best) hs"

lemma lru_scan_key: "lru_scan best hs = Some (k, t) \<Longrightarrow> k \<in> fst ` set hs \<or> best = Some (k, t)"
  by (induction best hs rule: lru_scan.induct) (fastforce split: option.splits if_splits)+

lemma length_delete_less: "k \<in> fst ` set hs \<Longrightarrow> length (AList.delete k hs) < length hs"
  unfolding AList.delete_eq by (auto intro: length_filter_less)

function evict_lru :: "(string \<times> gotime list) list \<Rightarrow> (string \<times> gotime list) list" where
  "evict_lru hs =
     (if length hs > maxLimiterKeys then
        (case lru_scan None hs of None \<Rightarrow> hs | Some (lruKey, lru) \<Rightarrow> evict_lru (AList.delete lruKey hs))
      else hs)"
  by pat_completeness auto
termination by (relation "measure length") (auto dest!: lru_scan_key intro: length_delete_less)

declare evict_lru.simps [simp del]

definition allow_login :: "string \<Rightarrow> gotime \<Rightarrow> login_limiter \<Rightarrow> bool \<times> login_limiter" where
  "allow_login key now l =
     (let hs = (if length (ll_hits l) > maxLimiterKeys then evict_lru (expire_hits now (ll_per l) (ll_hits l)) else ll_hits l);
          keep = filter (\<lambda>t. time_sub now t < ll_per l) (case map_of hs key of None \<Rightarrow> [] | Some hits \<Rightarrow> hits);
          hs' = (if keep = [] then AList.delete key hs else hs)
      in if length keep \<ge> ll_max l then (False, l\<lparr>ll_hits := AList.update key keep hs'\<rparr>)
         else (True, l\<lparr>ll_hits := AList.update key (keep @ [now]) hs'\<rparr>))"

text \<open>A run: the attempts in the order in which the lock was taken, with their outcomes.\<close>

inductive login_run :: "nat \<Rightarrow> duration \<Rightarrow> (string \<times> gotime \<times> bool) list \<Rightarrow> login_limiter \<Rightarrow> bool" for mx per where
  ll_start: "login_run mx per [] (newLoginLimiter mx per)"
| ll_call: "login_run mx per tr l \<Longrightarrow> mset hs = mset (ll_hits l) \<Longrightarrow> allow_login key now (l\<lparr>ll_hits := hs\<rparr>) = (ok, l')
    \<Longrightarrow> login_run mx per (tr @ [(key, now, ok)]) l'"

subsection \<open>The size of the map\<close>

lemma lru_scan_Some: "best \<noteq> None \<or> hs \<noteq> [] \<Longrightarrow> lru_scan best hs \<noteq> None"
  by (induction best hs rule: lru_scan.induct) (auto split: option.splits)

lemma evict_lru_bound: "length (evict_lru hs) \<le> maxLimiterKeys \<and> (distinct (map fst hs) \<longrightarrow> distinct (map fst (evict_lru hs)))"
proof (induction hs rule: evict_lru.induct)
  case (1 hs)
  show ?case
  proof (cases "length hs > maxLimiterKeys")
    case True
    then have "hs \<noteq> []" by auto
    then obtain k t where s: "lru_scan None hs = Some (k, t)" using lru_scan_Some[of None hs] by fastforce
    from 1[OF True s] True s show ?thesis by (simp add: evict_lru.simps[of hs] distinct_delete)
  qed (simp add: evict_lru.simps[of hs])
qed

lemma length_update_Suc: "length (AList.update k v al) \<le> Suc (length al)"
  by (induction al) auto

lemma length_delete_le': "length (AList.delete k al) \<le> length al"
  unfolding AList.delete_eq by simp

lemma allow_login_size:
  assumes "allow_login key now l = (ok, l')"
  shows "ll_max l' = ll_max l" "ll_per l' = ll_per l"
    "length (ll_hits l) \<le> Suc maxLimiterKeys \<Longrightarrow> length (ll_hits l') \<le> Suc maxLimiterKeys"
    "distinct (map fst (ll_hits l)) \<Longrightarrow> distinct (map fst (ll_hits l'))"
proof -
  define hs where "hs = (if length (ll_hits l) > maxLimiterKeys then evict_lru (expire_hits now (ll_per l) (ll_hits l)) else ll_hits l)"
  have b: "length hs \<le> maxLimiterKeys" using evict_lru_bound by (auto simp: hs_def)
  have d: "distinct (map fst (ll_hits l)) \<Longrightarrow> distinct (map fst hs)"
    using evict_lru_bound by (auto simp: hs_def expire_hits_def distinct_map_filter)
  obtain v hs' where l': "ll_max l' = ll_max l" "ll_per l' = ll_per l" "ll_hits l' = AList.update key v hs'" "hs' = hs \<or> hs' = AList.delete key hs"
    using assms unfolding allow_login_def hs_def[symmetric] by (auto simp: Let_def split: if_splits)
  have "length hs' \<le> maxLimiterKeys" using l'(4) b length_delete_le'[of key hs] by auto
  with l' d length_update_Suc[of key v hs'] show "ll_max l' = ll_max l" "ll_per l' = ll_per l"
    "length (ll_hits l) \<le> Suc maxLimiterKeys \<Longrightarrow> length (ll_hits l') \<le> Suc maxLimiterKeys"
    "distinct (map fst (ll_hits l)) \<Longrightarrow> distinct (map fst (ll_hits l'))"
    by (auto intro: distinct_update distinct_delete)
qed

lemma mset_keys: "mset hs = mset hs' \<Longrightarrow> distinct (map fst hs') \<Longrightarrow> distinct (map fst hs) \<and> length hs = length hs' \<and> map_of hs = map_of hs'"
  by (metis map_of_inject_set mset_eq_length mset_map distinct_count_atmost_1 mset_eq_imp_distinct_iff set_mset_mset)

lemma login_run_size:
  "login_run mx per tr l \<Longrightarrow> ll_max l = mx \<and> ll_per l = per \<and> length (ll_hits l) \<le> Suc maxLimiterKeys \<and> distinct (map fst (ll_hits l))"
proof (induction rule: login_run.induct)
  case (ll_call tr l hs key now ok l')
  from mset_keys[OF ll_call(2)] ll_call(4) allow_login_size[OF ll_call(3)] show ?case by simp
qed (simp add: newLoginLimiter_def)

subsection \<open>Attempts per window\<close>

text \<open>The times at which attempts of a key were let through.\<close>

definition admitted :: "string \<Rightarrow> (string \<times> gotime \<times> bool) list \<Rightarrow> gotime list" where
  "admitted key tr = map (\<lambda>(k, n, ok). n) (filter (\<lambda>(k, n, ok). k = key \<and> ok) tr)"

definition recent :: "gotime \<Rightarrow> duration \<Rightarrow> gotime list \<Rightarrow> gotime list" where
  "recent now per ns = filter (\<lambda>t. time_sub now t < per) ns"

lemma time_sub_mono: "now \<le> now' \<Longrightarrow> time_sub now t \<le> time_sub now' t"
  by (auto simp: time_sub_def)

lemma recent_recent: "now \<le> now' \<Longrightarrow> recent now' per (recent now per ns) = recent now' per ns"
  unfolding recent_def filter_filter by (rule filter_cong[OF refl]) (use time_sub_mono in \<open>blast intro: le_less_trans\<close>)

definition hits_of :: "login_limiter \<Rightarrow> string \<Rightarrow> gotime list" where
  "hits_of l key = (case map_of (ll_hits l) key of None \<Rightarrow> [] | Some hits \<Rightarrow> hits)"

lemma allow_login_hits:
  assumes "allow_login key now l = (ok, l')" and "length (ll_hits l) \<le> maxLimiterKeys"
  shows "ok \<longleftrightarrow> length (recent now (ll_per l) (hits_of l key)) < ll_max l"
    "hits_of l' key = recent now (ll_per l) (hits_of l key) @ (if ok then [now] else [])"
    "k \<noteq> key \<Longrightarrow> hits_of l' k = hits_of l k" "fst ` set (ll_hits l') \<subseteq> insert key (fst ` set (ll_hits l))"
proof -
  define keep where "keep = recent now (ll_per l) (hits_of l key)"
  define hs where "hs = (if keep = [] then AList.delete key (ll_hits l) else ll_hits l)"
  have a: "allow_login key now l = (if length keep \<ge> ll_max l then (False, l\<lparr>ll_hits := AList.update key keep hs\<rparr>)
      else (True, l\<lparr>ll_hits := AList.update key (keep @ [now]) hs\<rparr>))"
    using assms(2) by (simp add: allow_login_def keep_def hs_def recent_def hits_of_def Let_def)
  with assms(1) show ok: "ok \<longleftrightarrow> length (recent now (ll_per l) (hits_of l key)) < ll_max l" by (auto simp: keep_def split: if_splits)
  have l': "ll_hits l' = AList.update key (keep @ (if ok then [now] else [])) hs" using a assms(1) by (auto split: if_splits)
  then show "hits_of l' key = recent now (ll_per l) (hits_of l key) @ (if ok then [now] else [])"
    by (simp add: hits_of_def update_conv keep_def)
  show "hits_of l' k = hits_of l k" if "k \<noteq> key" using that by (simp add: l' hits_of_def update_conv hs_def delete_conv)
  show "fst ` set (ll_hits l') \<subseteq> insert key (fst ` set (ll_hits l))"
    unfolding l' hs_def by (auto simp: dom_map_of_conv_image_fst[symmetric] update_conv delete_conv)
qed

lemma admitted_snoc [simp]: "admitted k (tr @ [(key, now, ok)]) = admitted k tr @ (if k = key \<and> ok then [now] else [])"
  by (simp add: admitted_def)

lemma admitted_times: "t \<in> set (admitted k tr) \<Longrightarrow> t \<in> set (map (\<lambda>(k, n, ok). n) tr)"
  by (force simp: admitted_def)

lemma login_run_hits:
  assumes "login_run mx per tr l" and "sorted (map (\<lambda>(k, n, ok). n) tr)" and "card (fst ` set tr) \<le> maxLimiterKeys"
    and "\<forall>t \<in> set (map (\<lambda>(k, n, ok). n) tr). t \<le> now"
  shows "fst ` set (ll_hits l) \<subseteq> fst ` set tr \<and> recent now per (hits_of l k) = recent now per (admitted k tr)"
  using assms
proof (induction arbitrary: now k rule: login_run.induct)
  case ll_start
  then show ?case by (simp add: newLoginLimiter_def hits_of_def admitted_def)
next
  case (ll_call tr l hs key t ok l')
  let ?l = "l\<lparr>ll_hits := hs\<rparr>"
  note sz = login_run_size[OF ll_call(1)]
  have st: "sorted (map (\<lambda>(k, n, ok). n) tr)" "\<forall>u \<in> set (map (\<lambda>(k, n, ok). n) tr). u \<le> t" "t \<le> now"
    using ll_call.prems(1,3) by (auto simp: sorted_append)
  have "card (fst ` set tr) \<le> card (fst ` set (tr @ [(key, t, ok)]))" by (rule card_mono) auto
  with ll_call.prems(2) have few: "card (fst ` set tr) \<le> maxLimiterKeys" by simp
  note ih = ll_call.IH[OF st(1) few]
  have m: "map_of hs = map_of (ll_hits l)" "length hs = length (ll_hits l)" "set hs = set (ll_hits l)"
    using mset_keys[OF ll_call(2)] sz mset_eq_setD[OF ll_call(2)] by auto
  have "length (ll_hits l) = card (fst ` set (ll_hits l))" using sz distinct_card[of "map fst (ll_hits l)"] by simp
  also have "\<dots> \<le> card (fst ` set tr)" using ih[OF st(2)] by (intro card_mono) auto
  finally have len: "length (ll_hits ?l) \<le> maxLimiterKeys" using few m(2) by simp
  note a = allow_login_hits[OF ll_call(3) len]
  have hk: "hits_of ?l k = hits_of l k" for k by (simp add: hits_of_def m(1))
  have per: "ll_per ?l = per" using sz by simp
  have "recent now per (hits_of l' k) = recent now per (admitted k (tr @ [(key, t, ok)]))"
  proof (cases "k = key")
    case True
    have "recent t per (hits_of l key) = recent t per (admitted key tr)" using ih[OF st(2)] by blast
    with recent_recent[OF st(3)] True show ?thesis
      unfolding True a(2) hk per by (simp add: recent_def)
  next
    case False
    have "\<forall>u \<in> set (map (\<lambda>(k, n, ok). n) tr). u \<le> now" using ll_call.prems(3) by auto
    with ih False show ?thesis by (simp add: a(3)[OF False] hk)
  qed
  moreover have "fst ` set (ll_hits l') \<subseteq> fst ` set (tr @ [(key, t, ok)])" using a(4) ih[OF st(2)] m(3) by auto
  ultimately show ?case by blast
qed

lemma window_snoc:
  assumes "\<forall>u \<in> set ns. u \<le> (t :: int)" and "length (filter (\<lambda>u. t - u < per) ns) < mx" and "length (filter (\<lambda>u. u \<le> w \<and> w - u < per) ns) \<le> mx"
  shows "length (filter (\<lambda>u. u \<le> w \<and> w - u < per) (ns @ [t])) \<le> mx"
proof (cases "t \<le> w")
  case True
  have "length (filter (\<lambda>u. u \<le> w \<and> w - u < per) ns) \<le> length (filter (\<lambda>u. t - u < per) ns)"
    using True by (induction ns) auto
  with assms(2) show ?thesis by simp
qed (use assms(3) in simp)

lemma login_window:
  assumes "login_run mx per tr l" and "sorted (map (\<lambda>(k, n, ok). n) tr)" and "card (fst ` set tr) \<le> maxLimiterKeys"
    and "0 \<le> per" and "per \<le> max_duration"
  shows "length (filter (\<lambda>u. u \<le> w \<and> w - u < per) (admitted k tr)) \<le> mx"
  using assms(1-3)
proof (induction rule: login_run.induct)
  case ll_start
  then show ?case by (simp add: admitted_def)
next
  case (ll_call tr l hs key t ok l')
  let ?l = "l\<lparr>ll_hits := hs\<rparr>"
  have st: "sorted (map (\<lambda>(k, n, ok). n) tr)" "\<forall>u \<in> set (map (\<lambda>(k, n, ok). n) tr). u \<le> t"
    using ll_call.prems(1) by (auto simp: sorted_append)
  have "card (fst ` set tr) \<le> card (fst ` set (tr @ [(key, t, ok)]))" by (rule card_mono) auto
  with ll_call.prems(2) have few: "card (fst ` set tr) \<le> maxLimiterKeys" by simp
  note ih = ll_call.IH[OF st(1) few]
  show ?case
  proof (cases "k = key \<and> ok")
    case True
    note sz = login_run_size[OF ll_call(1)] and h = login_run_hits[OF ll_call(1) st(1) few st(2), of key]
    have m: "map_of hs = map_of (ll_hits l)" "length hs = length (ll_hits l)" using mset_keys[OF ll_call(2)] sz by auto
    have "length (ll_hits l) = card (fst ` set (ll_hits l))" using sz distinct_card[of "map fst (ll_hits l)"] by simp
    also have "\<dots> \<le> card (fst ` set tr)" using h by (intro card_mono) auto
    finally have len: "length (ll_hits ?l) \<le> maxLimiterKeys" using few m(2) by simp
    have "length (recent t per (hits_of l key)) < mx"
      using allow_login_hits(1)[OF ll_call(3) len] True sz m(1) by (simp add: hits_of_def)
    with h have "length (recent t per (admitted key tr)) < mx" by simp
    moreover have "recent t per (admitted key tr) = filter (\<lambda>u. t - u < per) (admitted key tr)"
      using assms(4,5) by (auto simp: recent_def time_sub_less_iff min_duration_def intro!: filter_cong)
    ultimately have "length (filter (\<lambda>u. t - u < per) (admitted key tr)) < mx" by simp
    moreover have "\<forall>u \<in> set (admitted key tr). u \<le> t" using st(2) admitted_times by blast
    ultimately show ?thesis using window_snoc[of "admitted key tr" t per mx w] ih True by simp
  qed (use ih in auto)
qed

text \<open>
  C30. Sign-in attempts are bounded. However the calls are interleaved and the map is
  iterated, the limiter never holds more than one key over its cap; and while at most that
  many addresses try, one address is let through at most the allowed number of times in
  every window, at whatever instant the window ends.
\<close>

theorem login_attempts_bounded:
  assumes "login_run mx per tr l" and "sorted (map (\<lambda>(k, n, ok). n) tr)" and "0 \<le> per" and "per \<le> max_duration"
  shows "length (ll_hits l) \<le> maxLimiterKeys + 1
    \<and> (card (fst ` set tr) \<le> maxLimiterKeys \<longrightarrow> length (filter (\<lambda>u. u \<le> w \<and> w - u < per) (admitted key tr)) \<le> mx)"
  using login_run_size[OF assms(1)] login_window[OF assms(1,2) _ assms(3,4)] by auto

lemma login_once: "\<exists>l. login_run loginMaxAttempts loginWindow [(''1.2.3.4'', 0, True)] l"
proof -
  let ?l = "newLoginLimiter loginMaxAttempts loginWindow"
  have "allow_login ''1.2.3.4'' 0 (?l\<lparr>ll_hits := []\<rparr>) = (True, ?l\<lparr>ll_hits := [(''1.2.3.4'', [0])]\<rparr>)"
    by (simp add: allow_login_def newLoginLimiter_def loginMaxAttempts_def)
  from ll_call[OF ll_start _ this] show ?thesis by (auto simp: newLoginLimiter_def)
qed

theorem login_attempts_bounded_witness:
  "\<exists>l. login_run loginMaxAttempts loginWindow [(''1.2.3.4'', 0, True)] l \<and> length (ll_hits l) \<le> 10001
     \<and> length (filter (\<lambda>u. u \<le> 0 \<and> 0 - u < loginWindow) (admitted ''1.2.3.4'' [(''1.2.3.4'', 0, True)])) \<le> 6"
proof -
  obtain l where l: "login_run loginMaxAttempts loginWindow [(''1.2.3.4'', 0, True)] l" using login_once by blast
  have "0 \<le> loginWindow" "loginWindow \<le> max_duration" by (simp_all add: loginWindow_def duration_defs)
  with login_attempts_bounded[OF l, of 0 "''1.2.3.4''"] l show ?thesis
    by (auto simp: maxLimiterKeys_def loginMaxAttempts_def)
qed

end
