(* ===== verification/Admin_Auth.thy ===== *)
theory Admin_Auth
  imports Enrollment Client_IP Login_Limit
begin

section \<open>Signing in and the admin gate\<close>

text \<open>
  Models \<^verbatim>\<open>src/fleet/api/auth.go\<close>, \<^verbatim>\<open>sessions.go\<close>, \<^verbatim>\<open>csrf.go\<close> and \<^verbatim>\<open>admin_admins.go\<close>, the public-URL
  checks of \<^verbatim>\<open>publicurl.go\<close>, and the login and logout handlers of \<^verbatim>\<open>server.go\<close>. Parameters are
  SHA-256, Argon2id, \<^verbatim>\<open>net/url\<close>'s parser and \<^verbatim>\<open>strings.ToLower\<close> on addresses, which needs the
  Unicode tables. A handler takes the decoded body, \<^const>\<open>None\<close> where decoding fails, and
  random bytes as arguments. The state is the database, absent before activation.
\<close>

subsection \<open>Requests and cookies\<close>

text \<open>A request with its cookies as \<^verbatim>\<open>net/http\<close> parses them, and whether it came over TLS.\<close>

record api_request =
  aq_http :: request
  aq_TLS :: bool
  aq_Cookies :: "(string \<times> string) list"

record set_cookie =
  sc_Name :: string
  sc_Value :: string
  sc_HttpOnly :: bool
  sc_Secure :: bool
  sc_MaxAge :: int

definition Cookie :: "api_request \<Rightarrow> string \<Rightarrow> string option" where
  "Cookie r name = map_of (aq_Cookies r) name"

definition sessionCookie :: string where "sessionCookie = ''wh_session''"
definition csrfCookie :: string where "csrfCookie = ''wh_csrf''"
definition csrfHeader :: string where "csrfHeader = ''X-WarpHold-CSRF''"

subsection \<open>The public URL\<close>

text \<open>What \<^verbatim>\<open>url.Parse\<close> returns of a URL, as far as it is read.\<close>

record url =
  u_Scheme :: string
  u_Opaque :: string
  u_User :: bool
  u_Host :: string
  u_Path :: string
  u_RawQuery :: string
  u_Fragment :: string

text \<open>
  \<^verbatim>\<open>strings.EqualFold\<close> against an ASCII string: besides the two cases of a letter, the long s
  and the Kelvin sign fold to s and k, and no other code point folds to ASCII.
\<close>

definition fold_rune :: "nat \<Rightarrow> nat" where
  "fold_rune r = (if 65 \<le> r \<and> r \<le> 90 then r + 32 else if r = 0x17F then 115 else if r = 0x212A then 107 else r)"

definition EqualFold_ascii :: "string \<Rightarrow> string \<Rightarrow> bool" where
  "EqualFold_ascii s t \<longleftrightarrow> map fold_rune (runes s) = map fold_rune (runes t)"

definition IsLoopback :: "IP \<Rightarrow> bool" where
  "IsLoopback ip \<longleftrightarrow> (if take 12 ip = v4InV6Prefix then ip ! 12 = 127 else ip = replicate 15 0 @ [1])"

definition isLoopbackHost :: "string \<Rightarrow> bool" where
  "isLoopbackHost host \<longleftrightarrow> EqualFold_ascii host ''localhost''
     \<or> (case ParseIP (Trim host ''[]'') of None \<Rightarrow> False | Some ip \<Rightarrow> IsLoopback ip)"

definition hostOnly :: "string \<Rightarrow> string" where
  "hostOnly host = (case SplitHostPort host of Some (h, p) \<Rightarrow> h | None \<Rightarrow> Trim host ''[]'')"

text \<open>\<^verbatim>\<open>URL.Hostname\<close> and \<^verbatim>\<open>URL.Port\<close>.\<close>

definition split_url_host :: "string \<Rightarrow> string \<times> string" where
  "split_url_host hp =
     (let (h, p) = (case last_index_byte hp CHR '':'' of
            None \<Rightarrow> (hp, [])
          | Some i \<Rightarrow> if list_all is_digit (drop (i + 1) hp) then (take i hp, drop (i + 1) hp) else (hp, []))
      in (if HasPrefix h ''['' \<and> HasSuffix h '']'' then butlast (tl h) else h, p))"

definition parsePublicURL :: "(string \<Rightarrow> url option) \<Rightarrow> string \<Rightarrow> url option" where
  "parsePublicURL parse raw =
     (case parse (TrimSpace raw) of
        None \<Rightarrow> None
      | Some u \<Rightarrow>
          if u_Host u = [] \<or> u_Opaque u \<noteq> [] then None
          else if u_User u then None
          else if list_ex (\<lambda>r. r > 0x7F) (runes (u_Host u)) then None
          else (let host = ToLower (u_Host u) in
            if \<not> (u_Scheme u = ''https'' \<or> u_Scheme u = ''http'' \<and> isLoopbackHost (hostOnly host)) then None
            else if Trim (u_Path u) ''/'' \<noteq> [] \<or> u_RawQuery u \<noteq> [] \<or> u_Fragment u \<noteq> [] then None
            else (let (name, port) = split_url_host host;
                      host' = (if port = ''443'' \<and> u_Scheme u = ''https'' \<or> port = ''80'' \<and> u_Scheme u = ''http''
                               then (if CHR '':'' \<in> set name then ''['' @ name @ '']'' else name) else host)
                  in Some (u\<lparr>u_Host := host', u_Path := [], u_RawQuery := [], u_Fragment := []\<rparr>))))"

definition PublicURL :: "(string \<Rightarrow> url option) \<Rightarrow> db option \<Rightarrow> url option" where
  "PublicURL parse st = (case st of
     None \<Rightarrow> None
   | Some d \<Rightarrow> (let raw = Setting ''public_url'' d in if raw = [] then None else parsePublicURL parse raw))"

text \<open>The host check wraps every route; \<open>next\<close> is the handler on the server's state.\<close>

definition requireHost :: "(string \<Rightarrow> url option) \<Rightarrow> api_request \<Rightarrow> (db option \<Rightarrow> answer \<times> db option) \<Rightarrow> db option \<Rightarrow> answer \<times> db option" where
  "requireHost parse r next st =
     (case PublicURL parse st of
        None \<Rightarrow> next st
      | Some u \<Rightarrow>
          (let got = hostOnly (rq_Host (aq_http r)) in
           if \<not> EqualFold_ascii got (hostOnly (u_Host u)) \<and> \<not> isLoopbackHost got
           then (Answer 421 (''request Host does not match the configured public URL; expected Host '' @ hostOnly (u_Host u)), st)
           else next st))"

definition requireActivated :: "(db \<Rightarrow> answer \<times> db) \<Rightarrow> db option \<Rightarrow> answer \<times> db option" where
  "requireActivated next st = (case st of
     None \<Rightarrow> (Answer 409 ''fleet is not activated'', None)
   | Some d \<Rightarrow> (case next d of (a, d') \<Rightarrow> (a, Some d')))"

subsection \<open>Cross-site requests\<close>

definition csrfOK :: "api_request \<Rightarrow> bool" where
  "csrfOK r = (case Cookie r csrfCookie of
     None \<Rightarrow> False
   | Some c \<Rightarrow> (let sent = header_Get (aq_http r) csrfHeader in c \<noteq> [] \<and> sent \<noteq> [] \<and> c = sent))"

text \<open>The origin a request claims: \<^const>\<open>None\<close> where the Referer has none, empty where neither header is sent.\<close>

definition claimed_origin :: "(string \<Rightarrow> url option) \<Rightarrow> api_request \<Rightarrow> string option" where
  "claimed_origin parse r =
     (let origin = header_Get (aq_http r) ''Origin''; ref = header_Get (aq_http r) ''Referer'' in
      if origin \<noteq> [] then Some origin
      else if ref = [] then Some []
      else case parse ref of
        None \<Rightarrow> None
      | Some u \<Rightarrow> if u_Host u = [] then None else Some (u_Scheme u @ ''://'' @ u_Host u))"

definition originAllowed :: "(string \<Rightarrow> url option) \<Rightarrow> api_request \<Rightarrow> url option \<Rightarrow> bool" where
  "originAllowed parse r publicURL = (case publicURL of
     None \<Rightarrow> True
   | Some pu \<Rightarrow>
       (case claimed_origin parse r of
          None \<Rightarrow> False
        | Some origin \<Rightarrow>
            if origin = [] then True
            else (case parse origin of
               None \<Rightarrow> False
             | Some u \<Rightarrow> u_Host u \<noteq> [] \<and> EqualFold_ascii (u_Scheme u) (u_Scheme pu) \<and> EqualFold_ascii (u_Host u) (u_Host pu))))"

definition safe_method :: "string \<Rightarrow> bool" where
  "safe_method m \<longleftrightarrow> m \<in> {''GET'', ''HEAD'', ''OPTIONS''}"

definition origin_refused :: answer where
  "origin_refused = Answer 403 ''request origin does not match the configured public URL''"

definition token_refused :: answer where
  "token_refused = Answer 403 (''missing or invalid '' @ csrfHeader @ '' header'')"

definition requireCSRF :: "(string \<Rightarrow> url option) \<Rightarrow> api_request \<Rightarrow> (db \<Rightarrow> answer \<times> db) \<Rightarrow> db \<Rightarrow> answer \<times> db" where
  "requireCSRF parse r next d =
     (if safe_method (rq_Method (aq_http r)) then next d
      else if \<not> originAllowed parse r (PublicURL parse (Some d)) then (origin_refused, d)
      else if \<not> csrfOK r then (token_refused, d)
      else next d)"

subsection \<open>Sessions\<close>

definition sessionTTL :: duration where "sessionTTL = 12 * hour"

definition sessionTokenHash :: "(string \<Rightarrow> string) \<Rightarrow> string \<Rightarrow> string" where "sessionTokenHash sha256 tok = sha256 tok"

definition newSessionToken :: "(string \<Rightarrow> string) \<Rightarrow> string option \<Rightarrow> (string \<times> string) option" where
  "newSessionToken sha256 rnd = (case rnd of
     None \<Rightarrow> None
   | Some b \<Rightarrow> (let tok = ''ws_'' @ RawURLEncoding_EncodeToString b in Some (tok, sessionTokenHash sha256 tok)))"

definition requestIsHTTPS :: "api_request \<Rightarrow> bool" where
  "requestIsHTTPS r \<longleftrightarrow> aq_TLS r \<or> EqualFold_ascii (header_Get (aq_http r) ''X-Forwarded-Proto'') ''https''"

definition cookieSecure :: "(string \<Rightarrow> url option) \<Rightarrow> api_request \<Rightarrow> db option \<Rightarrow> bool" where
  "cookieSecure parse r st = (case PublicURL parse st of Some u \<Rightarrow> u_Scheme u = ''https'' | None \<Rightarrow> requestIsHTTPS r)"

definition startSession :: "(string \<Rightarrow> string) \<Rightarrow> (string \<Rightarrow> url option) \<Rightarrow> api_request \<Rightarrow> string option \<Rightarrow> string option \<Rightarrow> gotime \<Rightarrow> int \<Rightarrow> db
    \<Rightarrow> (set_cookie list \<times> db) option" where
  "startSession sha256 parse r rnd rnd_csrf now adminID d =
     (case (newSessionToken sha256 rnd, rnd_csrf) of
        (Some (tok, hash), Some csrf) \<Rightarrow>
          (case CreateSession hash adminID now (now + sessionTTL) d of
             Inl e \<Rightarrow> None
           | Inr (i, d') \<Rightarrow>
               (let secure = cookieSecure parse r (Some d'); maxAge = sessionTTL div second in
                Some ([\<lparr>sc_Name = sessionCookie, sc_Value = tok, sc_HttpOnly = True, sc_Secure = secure, sc_MaxAge = maxAge\<rparr>,
                       \<lparr>sc_Name = csrfCookie, sc_Value = hex_EncodeToString csrf, sc_HttpOnly = False, sc_Secure = secure, sc_MaxAge = maxAge\<rparr>], d')))
      | _ \<Rightarrow> None)"

definition currentSession :: "(string \<Rightarrow> string) \<Rightarrow> gotime \<Rightarrow> api_request \<Rightarrow> db option \<Rightarrow> Session option" where
  "currentSession sha256 now r st =
     (case Cookie r sessionCookie of
        None \<Rightarrow> None
      | Some tok \<Rightarrow>
          if tok = [] then None
          else (case st of
             None \<Rightarrow> None
           | Some d \<Rightarrow>
               (case SessionByHash (sessionTokenHash sha256 tok) d of
                  None \<Rightarrow> None
                | Some sess \<Rightarrow> if se_RevokedAt sess \<noteq> None \<or> \<not> now < se_ExpiresAt sess then None else Some sess)))"

definition clearAuthCookies :: "(string \<Rightarrow> url option) \<Rightarrow> api_request \<Rightarrow> db option \<Rightarrow> set_cookie list" where
  "clearAuthCookies parse r st = (let secure = cookieSecure parse r st in
     [\<lparr>sc_Name = sessionCookie, sc_Value = [], sc_HttpOnly = True, sc_Secure = secure, sc_MaxAge = - 1\<rparr>,
      \<lparr>sc_Name = csrfCookie, sc_Value = [], sc_HttpOnly = False, sc_Secure = secure, sc_MaxAge = - 1\<rparr>])"

definition requireAdmin :: "(string \<Rightarrow> string) \<Rightarrow> (string \<Rightarrow> url option) \<Rightarrow> gotime \<Rightarrow> api_request \<Rightarrow> (Session \<Rightarrow> db \<Rightarrow> answer \<times> db) \<Rightarrow> db
    \<Rightarrow> answer \<times> db" where
  "requireAdmin sha256 parse now r next d =
     (case currentSession sha256 now r (Some d) of
        None \<Rightarrow> (Answer 401 ''unauthorized'', d)
      | Some sess \<Rightarrow> requireCSRF parse r (next sess) d)"

text \<open>The wrapper of every admin route.\<close>

definition adm :: "(string \<Rightarrow> string) \<Rightarrow> (string \<Rightarrow> url option) \<Rightarrow> gotime \<Rightarrow> api_request \<Rightarrow> (Session \<Rightarrow> db \<Rightarrow> answer \<times> db) \<Rightarrow> db option
    \<Rightarrow> answer \<times> db option" where
  "adm sha256 parse now r h st = requireHost parse r (requireActivated (requireAdmin sha256 parse now r h)) st"

subsection \<open>Passwords\<close>

definition RawStdEncoding_EncodeToString :: "string \<Rightarrow> string" where
  "RawStdEncoding_EncodeToString s = b64_encode_raw std_alphabet s"

definition RawStdEncoding_DecodeString :: "string \<Rightarrow> string option" where
  "RawStdEncoding_DecodeString s = b64_decode_raw std_alphabet (strip_newlines s)"

definition HashPassword :: "(string \<Rightarrow> string \<Rightarrow> nat \<Rightarrow> string) \<Rightarrow> string option \<Rightarrow> string \<Rightarrow> string option" where
  "HashPassword argon rnd pw = (case rnd of
     None \<Rightarrow> None
   | Some salt \<Rightarrow> Some (''$argon2id$v=19$m=65536,t=3,p=4$'' @ RawStdEncoding_EncodeToString salt @ ''$''
                       @ RawStdEncoding_EncodeToString (argon pw salt 32)))"

definition VerifyPassword :: "(string \<Rightarrow> string \<Rightarrow> nat \<Rightarrow> string) \<Rightarrow> string \<Rightarrow> string \<Rightarrow> bool" where
  "VerifyPassword argon pw encoded =
     (let parts = Split encoded CHR ''$'' in
      if length parts \<noteq> 6 \<or> parts ! 1 \<noteq> ''argon2id'' then False
      else case (RawStdEncoding_DecodeString (parts ! 4), RawStdEncoding_DecodeString (parts ! 5)) of
        (Some salt, Some want) \<Rightarrow> argon pw salt (length want mod 2 ^ 32) = want
      | _ \<Rightarrow> False)"

subsection \<open>Signing in and out\<close>

definition normalizeEmail :: "(string \<Rightarrow> string) \<Rightarrow> string \<Rightarrow> string" where
  "normalizeEmail lower e = lower (TrimSpace e)"

text \<open>
  The checks before the limiter; then the limiter, the body, the password and the session.
  \<open>dummy\<close> is the hash that an unknown address is verified against.
\<close>

definition login_refused :: "(string \<Rightarrow> url option) \<Rightarrow> api_request \<Rightarrow> db option \<Rightarrow> answer option" where
  "login_refused parse r st =
     (case PublicURL parse st of
        None \<Rightarrow> None
      | Some pu \<Rightarrow>
          if \<not> originAllowed parse r (Some pu) then Some origin_refused
          else if u_Scheme pu = ''https'' \<and> \<not> requestIsHTTPS r \<and> \<not> isLoopbackHost (hostOnly (rq_Host (aq_http r)))
          then Some (Answer 400 ''reach the fleet over https'')
          else None)"

definition handleLogin :: "(string \<Rightarrow> string) \<Rightarrow> (string \<Rightarrow> string \<Rightarrow> nat \<Rightarrow> string) \<Rightarrow> (string \<Rightarrow> string) \<Rightarrow> (string \<Rightarrow> url option) \<Rightarrow> IPNet list
    \<Rightarrow> string \<Rightarrow> api_request \<Rightarrow> (string \<times> string) option \<Rightarrow> string option \<Rightarrow> string option \<Rightarrow> gotime \<Rightarrow> gotime \<Rightarrow> db option \<Rightarrow> login_limiter
    \<Rightarrow> (answer \<times> set_cookie list) \<times> db option \<times> login_limiter" where
  "handleLogin sha256 argon lower parse trusted dummy r inp rnd rnd_csrf now_limit now st lim =
     (case st of
        None \<Rightarrow> ((Answer 409 ''fleet is not activated'', []), st, lim)
      | Some d \<Rightarrow>
         (case login_refused parse r st of
            Some a \<Rightarrow> ((a, []), st, lim)
          | None \<Rightarrow>
             (case allow_login (ClientIP (aq_http r) trusted) now_limit lim of (admit, lim') \<Rightarrow>
              if \<not> admit then ((Answer 429 ''too many attempts, wait a minute'', []), st, lim')
              else (case inp of
                 None \<Rightarrow> ((Answer 400 ''malformed body'', []), st, lim')
               | Some (email, password) \<Rightarrow>
                  (let row = AdminByEmail (normalizeEmail lower email) d;
                       hash = (case row of None \<Rightarrow> dummy | Some a \<Rightarrow> ad_PWHash a);
                       verified = VerifyPassword argon password hash
                   in case row of
                     None \<Rightarrow> ((Answer 401 ''wrong email or password'', []), st, lim')
                   | Some a \<Rightarrow>
                       if \<not> verified then ((Answer 401 ''wrong email or password'', []), st, lim')
                       else (case startSession sha256 parse r rnd rnd_csrf now (ad_ID a) d of
                          None \<Rightarrow> ((Answer 500 ''internal error'', []), st, lim')
                        | Some (cookies, d') \<Rightarrow> ((Answer 204 [], cookies), Some d', lim')))))))"

definition handleLogout :: "(string \<Rightarrow> string) \<Rightarrow> (string \<Rightarrow> url option) \<Rightarrow> gotime \<Rightarrow> gotime \<Rightarrow> api_request \<Rightarrow> db option
    \<Rightarrow> (answer \<times> set_cookie list) \<times> db option" where
  "handleLogout sha256 parse now now_revoke r st =
     (case (currentSession sha256 now r st, st) of
        (Some sess, Some d) \<Rightarrow>
          if \<not> originAllowed parse r (PublicURL parse st) then ((origin_refused, []), st)
          else if \<not> csrfOK r then ((token_refused, []), st)
          else (let st' = Some (RevokeSession (se_ID sess) now_revoke d) in ((Answer 204 [], clearAuthCookies parse r st'), st'))
      | _ \<Rightarrow> ((Answer 204 [], clearAuthCookies parse r st), st))"

subsection \<open>Admins\<close>

definition minPasswordLen :: nat where "minPasswordLen = 8"

definition handleAdminCreate :: "(string \<Rightarrow> string \<Rightarrow> nat \<Rightarrow> string) \<Rightarrow> (string \<Rightarrow> string) \<Rightarrow> (string \<times> string) option \<Rightarrow> string option \<Rightarrow> gotime \<Rightarrow> db
    \<Rightarrow> answer \<times> db" where
  "handleAdminCreate argon lower inp rnd now d =
     (let bad = (Answer 400 ''email must be valid and password needs 8+ characters'', d) in
      case inp of
        None \<Rightarrow> bad
      | Some (raw, password) \<Rightarrow>
          (let email = normalizeEmail lower raw in
           if \<not> Contains email CHR ''@'' \<or> length password < minPasswordLen then bad
           else if AdminByEmail email d \<noteq> None then (Answer 409 ''an admin with that email already exists'', d)
           else (case HashPassword argon rnd password of
              None \<Rightarrow> (Answer 500 ''internal error'', d)
            | Some hash \<Rightarrow>
                (case CreateAdmin email hash now d of
                   Inl e \<Rightarrow> (Answer 500 ''internal error'', d)
                 | Inr (i, d') \<Rightarrow> (Answer 201 (FormatInt i), d')))))"

text \<open>\<open>pid\<close> is the id of the path, \<^const>\<open>None\<close> where it is no number.\<close>

definition handleAdminDelete :: "int option \<Rightarrow> Session \<Rightarrow> db \<Rightarrow> answer \<times> db" where
  "handleAdminDelete pid sess d =
     (case pid of
        None \<Rightarrow> (Answer 400 ''invalid id'', d)
      | Some i \<Rightarrow>
          if i = se_AdminID sess then (Answer 409 ''cannot delete your own account'', d)
          else (case DeleteAdmin i d of
             (None, d') \<Rightarrow> (Answer 204 [], d')
           | (Some ErrLastAdmin, d') \<Rightarrow> (Answer 409 ''cannot delete the last admin'', d')
           | (Some ErrNotFound_store, d') \<Rightarrow> (Answer 404 ''not found'', d')
           | (Some e, d') \<Rightarrow> (Answer 500 ''internal error'', d')))"

definition handleAdminPassword :: "(string \<Rightarrow> string \<Rightarrow> nat \<Rightarrow> string) \<Rightarrow> (string \<times> string) option \<Rightarrow> string option \<Rightarrow> gotime \<Rightarrow> Session \<Rightarrow> db
    \<Rightarrow> answer \<times> db" where
  "handleAdminPassword argon inp rnd now sess d =
     (case inp of
        None \<Rightarrow> (Answer 400 ''new password needs 8+ characters'', d)
      | Some (current, new) \<Rightarrow>
          if length new < minPasswordLen then (Answer 400 ''new password needs 8+ characters'', d)
          else (case AdminByID (se_AdminID sess) d of
             None \<Rightarrow> (Answer 500 ''internal error'', d)
           | Some a \<Rightarrow>
               if \<not> VerifyPassword argon current (ad_PWHash a) then (Answer 401 ''wrong password'', d)
               else (case HashPassword argon rnd new of
                  None \<Rightarrow> (Answer 500 ''internal error'', d)
                | Some hash \<Rightarrow>
                    (case UpdateAdminPassword (ad_ID a) hash d of
                       (Some e, d') \<Rightarrow> (Answer 500 ''internal error'', d')
                     | (None, d') \<Rightarrow> (Answer 204 [], RevokeSessionsForAdminExcept (ad_ID a) (se_ID sess) now d')))))"

end
