(* ===== verification/Admin_Auth_Correct.thy ===== *)
theory Admin_Auth_Correct
  imports Admin_Auth
begin

section \<open>What signing in and out guarantee\<close>

text \<open>
  A new admin can sign in, and the session answers for exactly the admin it was made for; a
  session that is signed out, whose admin changed the password elsewhere or was deleted is
  dead for good; and a route of the admin API changes nothing for a request that is not a
  signed-in admin's own.
\<close>

subsection \<open>Password hashes\<close>

lemma std_val_char: "n < 64 \<Longrightarrow> b64_val std_alphabet (b64_char std_alphabet n) = Some n"
  by (auto simp: b64_val_def b64_char_def std_alphabet_def byte_in_def byte_def)

lemma std_char_plain:
  "n < 64 \<Longrightarrow> byte (b64_char std_alphabet n) \<noteq> 10 \<and> byte (b64_char std_alphabet n) \<noteq> 13 \<and> byte (b64_char std_alphabet n) \<noteq> 36"
  by (auto simp: b64_char_def std_alphabet_def) (simp_all add: byte_def)

lemma std_raw_round_trip: "b64_decode_raw std_alphabet (b64_encode_raw std_alphabet s) = Some s"
  by (induction std_alphabet s rule: b64_encode_raw.induct)
     (simp_all add: std_val_char b64_group_bounds b64_group_inverse)

lemma std_encode_bytes: "c \<in> set (b64_encode_raw std_alphabet s) \<Longrightarrow> byte c \<noteq> 10 \<and> byte c \<noteq> 13 \<and> byte c \<noteq> 36"
  by (induction std_alphabet s rule: b64_encode_raw.induct) (auto simp: std_char_plain b64_group_bounds)

lemma RawStd_round_trip: "RawStdEncoding_DecodeString (RawStdEncoding_EncodeToString s) = Some s"
proof -
  have "strip_newlines (b64_encode_raw std_alphabet s) = b64_encode_raw std_alphabet s"
    unfolding strip_newlines_def using std_encode_bytes by (simp add: filter_id_conv)
  then show ?thesis by (simp add: RawStdEncoding_DecodeString_def RawStdEncoding_EncodeToString_def std_raw_round_trip)
qed

lemma RawStd_no_dollar: "CHR ''$'' \<notin> set (RawStdEncoding_EncodeToString s)"
  using std_encode_bytes[of "CHR ''$''" s] by (auto simp: RawStdEncoding_EncodeToString_def byte_def)

lemma Split_phc:
  assumes "CHR ''$'' \<notin> set a" and "CHR ''$'' \<notin> set b"
  shows "Split (''$argon2id$v=19$m=65536,t=3,p=4$'' @ a @ ''$'' @ b) CHR ''$'' = [[], ''argon2id'', ''v=19'', ''m=65536,t=3,p=4'', a, b]"
  using Split_append[OF assms(1), of b] Split_notin[OF assms(2)] by simp

lemma VerifyPassword_HashPassword:
  assumes "HashPassword argon rnd pw = Some hash" and "\<And>p s n. length (argon p s n) = n"
  shows "VerifyPassword argon pw' hash \<longleftrightarrow> argon pw' (the rnd) 32 = argon pw (the rnd) 32"
proof -
  obtain salt where r: "rnd = Some salt" "hash = ''$argon2id$v=19$m=65536,t=3,p=4$'' @ RawStdEncoding_EncodeToString salt @ ''$''
      @ RawStdEncoding_EncodeToString (argon pw salt 32)"
    using assms(1) by (auto simp: HashPassword_def split: option.splits)
  have "Split hash CHR ''$'' = [[], ''argon2id'', ''v=19'', ''m=65536,t=3,p=4'', RawStdEncoding_EncodeToString salt,
      RawStdEncoding_EncodeToString (argon pw salt 32)]"
    unfolding r by (rule Split_phc[OF RawStd_no_dollar RawStd_no_dollar])
  with assms(2) r(1) show ?thesis by (simp add: VerifyPassword_def RawStd_round_trip)
qed

subsection \<open>A new admin can sign in\<close>

lemma handleAdminCreate_row:
  assumes "handleAdminCreate argon lower (Some (raw, pw)) rnd now d = (Answer 201 m, d1)"
  shows "\<exists>i hash. HashPassword argon rnd pw = Some hash \<and> CreateAdmin (normalizeEmail lower raw) hash now d = Inr (i, d1)
    \<and> AdminByEmail (normalizeEmail lower raw) d = None"
  using assms by (auto simp: handleAdminCreate_def Let_def split: if_splits option.splits sum.splits prod.splits)

lemma CreateAdmin_row:
  assumes "CreateAdmin email hash now d = Inr (i, d1)" and "AdminByEmail email d = None"
  shows "\<exists>a. AdminByEmail email d1 = Some a \<and> ad_PWHash a = hash \<and> ad_ID a = i" "db_sessions d1 = db_sessions d" "db_settings d1 = db_settings d"
  using assms by (auto simp: CreateAdmin_def AdminByEmail_def find_append Let_def split: if_splits option.splits)

lemma CreateSession_row:
  assumes "CreateSession h a now ex d = Inr (i, d1)"
  shows "SessionByHash h d1 = Some \<lparr>se_ID = i, se_TokenHash = h, se_AdminID = a, se_CreatedAt = ts now, se_ExpiresAt = ts ex, se_RevokedAt = None\<rparr>"
proof -
  have "h \<notin> se_TokenHash ` set (db_sessions d)" using assms by (auto simp: CreateSession_def split: if_splits)
  then have "find (\<lambda>v. se_TokenHash v = h) (db_sessions d) = None" by (auto simp: find_None_iff)
  with assms show ?thesis by (auto simp: CreateSession_def SessionByHash_def find_append Let_def split: if_splits)
qed

text \<open>The session a fresh token gets, seen by a later request that carries its cookie.\<close>

lemma startSession_current:
  assumes "startSession sha256 parse r rnd rnd_csrf now a d = Some (cookies, d1)"
  shows "\<exists>tok i. map_of (map (\<lambda>c. (sc_Name c, sc_Value c)) cookies) sessionCookie = Some tok
    \<and> (\<forall>r' now'. Cookie r' sessionCookie = Some tok \<longrightarrow>
        currentSession sha256 now' r' (Some d1) = (if now' < ts (now + sessionTTL)
          then Some \<lparr>se_ID = i, se_TokenHash = sha256 tok, se_AdminID = a, se_CreatedAt = ts now, se_ExpiresAt = ts (now + sessionTTL),
                     se_RevokedAt = None\<rparr> else None))"
proof -
  obtain tok hash csrf where t: "newSessionToken sha256 rnd = Some (tok, hash)" "rnd_csrf = Some csrf"
    using assms by (auto simp: startSession_def split: option.splits)
  then have h: "hash = sha256 tok" "tok \<noteq> []" by (auto simp: newSessionToken_def sessionTokenHash_def Let_def split: option.splits)
  obtain i where c: "CreateSession hash a now (now + sessionTTL) d = Inr (i, d1)"
    "map_of (map (\<lambda>c. (sc_Name c, sc_Value c)) cookies) sessionCookie = Some tok"
    using assms t by (auto simp: startSession_def Let_def split: sum.splits prod.splits)
  from CreateSession_row[OF c(1)] h have "currentSession sha256 now' r' (Some d1) = (if now' < ts (now + sessionTTL)
      then Some \<lparr>se_ID = i, se_TokenHash = sha256 tok, se_AdminID = a, se_CreatedAt = ts now, se_ExpiresAt = ts (now + sessionTTL),
                 se_RevokedAt = None\<rparr> else None)" if "Cookie r' sessionCookie = Some tok" for r' now'
    using that by (simp add: currentSession_def sessionTokenHash_def)
  with c(2) show ?thesis by blast
qed

lemma startSession_fresh:
  assumes "sha256 (''ws_'' @ RawURLEncoding_EncodeToString b) \<notin> se_TokenHash ` set (db_sessions d)" and "has_admin d a"
  shows "startSession sha256 parse r (Some b) (Some csrf) now a d \<noteq> None"
  using assms by (simp add: startSession_def newSessionToken_def sessionTokenHash_def CreateSession_def Let_def)

text \<open>
  C25. A new admin can sign in. After an admin was created, a sign-in with any spelling of the
  address that normalises to the same one is refused with 401 where the password's Argon2id
  hash differs; where it is the same, and the request passes the origin check and the
  limiter and the random token is new, it is answered 204 with a session cookie that makes
  every later request the admin's own until twelve hours have passed, and no longer.
\<close>

theorem created_admin_signs_in:
  assumes "handleAdminCreate argon lower (Some (raw, pw)) (Some salt) now0 d = (Answer 201 m, d1)"
    and "\<And>p s n. length (argon p s n) = n" and "normalizeEmail lower raw' = normalizeEmail lower raw"
    and "login_refused parse r (Some d1) = None" and "allow_login (ClientIP (aq_http r) trusted) now_limit lim = (True, lim')"
    and "sha256 (''ws_'' @ RawURLEncoding_EncodeToString b) \<notin> se_TokenHash ` set (db_sessions d)"
  shows "if argon pw' salt 32 = argon pw salt 32
    then (\<exists>cookies d2 tok i. handleLogin sha256 argon lower parse trusted dummy r (Some (raw', pw')) (Some b) (Some csrf) now_limit now (Some d1) lim
          = ((Answer 204 [], cookies), Some d2, lim')
        \<and> map_of (map (\<lambda>c. (sc_Name c, sc_Value c)) cookies) sessionCookie = Some tok
        \<and> (\<exists>a. AdminByEmail (normalizeEmail lower raw) d1 = Some a \<and> (\<forall>r' now'. Cookie r' sessionCookie = Some tok \<longrightarrow>
            map_option se_AdminID (currentSession sha256 now' r' (Some d2)) = (if now' < ts (now + 12 * hour) then Some (ad_ID a) else None))))
    else handleLogin sha256 argon lower parse trusted dummy r (Some (raw', pw')) (Some b) (Some csrf) now_limit now (Some d1) lim
          = ((Answer 401 ''wrong email or password'', []), Some d1, lim')"
proof -
  obtain i hash where c: "HashPassword argon (Some salt) pw = Some hash" "CreateAdmin (normalizeEmail lower raw) hash now0 d = Inr (i, d1)"
    "AdminByEmail (normalizeEmail lower raw) d = None"
    using handleAdminCreate_row[OF assms(1)] by blast
  obtain a where a: "AdminByEmail (normalizeEmail lower raw) d1 = Some a" "ad_PWHash a = hash" "db_sessions d1 = db_sessions d"
    using CreateAdmin_row[OF c(2,3)] by blast
  have v: "VerifyPassword argon pw' hash \<longleftrightarrow> argon pw' salt 32 = argon pw salt 32"
    using VerifyPassword_HashPassword[OF c(1) assms(2)] by simp
  note login = handleLogin_def[of sha256 argon lower parse trusted dummy r "Some (raw', pw')" "Some b" "Some csrf" now_limit now "Some d1" lim,
      simplified assms(3-5) a(1,2) option.case prod.case Let_def]
  show ?thesis
  proof (cases "argon pw' salt 32 = argon pw salt 32")
    case True
    have "has_admin d1 (ad_ID a)" using a(1) by (auto simp: AdminByEmail_def has_admin_def find_Some_iff)
    then obtain cookies d2 where s: "startSession sha256 parse r (Some b) (Some csrf) now (ad_ID a) d1 = Some (cookies, d2)"
      using startSession_fresh[of sha256 b d1 "ad_ID a"] assms(6) a(3) by fastforce
    obtain tok j where t: "map_of (map (\<lambda>c. (sc_Name c, sc_Value c)) cookies) sessionCookie = Some tok"
      "\<And>r' now'. Cookie r' sessionCookie = Some tok \<Longrightarrow>
         map_option se_AdminID (currentSession sha256 now' r' (Some d2)) = (if now' < ts (now + 12 * hour) then Some (ad_ID a) else None)"
      using startSession_current[OF s] by (auto simp: sessionTTL_def)
    from True v login s have "handleLogin sha256 argon lower parse trusted dummy r (Some (raw', pw')) (Some b) (Some csrf) now_limit now (Some d1) lim
        = ((Answer 204 [], cookies), Some d2, lim')" by simp
    with True t a(1) show ?thesis by auto
  next
    case False
    with v login show ?thesis by simp
  qed
qed

text \<open>An example: a fleet with one admin, who is signed in with the token \<open>ws_\<close>.\<close>

definition toy_argon :: "string \<Rightarrow> string \<Rightarrow> nat \<Rightarrow> string" where "toy_argon p s n = take n (p @ s @ replicate n CHR ''0'')"

definition toy_api :: api_request where
  "toy_api = \<lparr>aq_http = proxied\<lparr>rq_Method := ''POST'', rq_Header := [(''X-Warphold-Csrf'', [''c''])]\<rparr>, aq_TLS = True,
     aq_Cookies = [(''wh_session'', ''ws_''), (''wh_csrf'', ''c'')]\<rparr>"

definition toy_admins :: db where
  "toy_admins = snd (handleAdminCreate toy_argon (\<lambda>s. s) (Some ('' a@b'', ''password'')) (Some []) 0 empty_db)"

theorem created_admin_signs_in_witness:
  "\<exists>cookies d2 tok. handleLogin (\<lambda>s. s) toy_argon (\<lambda>s. s) (\<lambda>_. None) [] [] toy_api (Some (''a@b '', ''password'')) (Some []) (Some []) 0 0
       (Some toy_admins) (newLoginLimiter loginMaxAttempts loginWindow)
     = ((Answer 204 [], cookies), Some d2, snd (allow_login (ClientIP (aq_http toy_api) []) 0 (newLoginLimiter loginMaxAttempts loginWindow)))
   \<and> map_of (map (\<lambda>c. (sc_Name c, sc_Value c)) cookies) sessionCookie = Some tok"
proof -
  let ?lim = "newLoginLimiter loginMaxAttempts loginWindow"
  have c: "handleAdminCreate toy_argon (\<lambda>s. s) (Some ('' a@b'', ''password'')) (Some []) 0 empty_db = (Answer 201 ''1'', toy_admins)"
    by code_simp
  have len: "\<And>p s n. length (toy_argon p s n) = n" by (simp add: toy_argon_def)
  have e: "normalizeEmail (\<lambda>s. s) ''a@b '' = normalizeEmail (\<lambda>s. s) '' a@b''" by code_simp
  have r: "login_refused (\<lambda>_. None) toy_api (Some toy_admins) = None" by code_simp
  have a: "allow_login (ClientIP (aq_http toy_api) []) 0 ?lim = (True, snd (allow_login (ClientIP (aq_http toy_api) []) 0 ?lim))"
    by (simp add: allow_login_def newLoginLimiter_def loginMaxAttempts_def Let_def)
  have f: "''ws_'' @ RawURLEncoding_EncodeToString [] \<notin> se_TokenHash ` set (db_sessions empty_db)" by (simp add: empty_db_def)
  from created_admin_signs_in[where ?sha256.0 = "\<lambda>s. s" and pw' = "''password''" and dummy = "[]" and csrf = "[]" and now = 0, OF c len e r a f]
  show ?thesis by (simp split: if_splits)
qed

subsection \<open>Sessions that ended\<close>

lemma currentSession_dead: "dead_session (sha256 tok) d \<Longrightarrow> Cookie r sessionCookie = Some tok \<Longrightarrow> currentSession sha256 now r (Some d) = None"
  by (auto simp: currentSession_def sessionTokenHash_def dead_session_def SessionByHash_def find_Some_iff set_conv_nth split: option.splits)

lemma session_unique: "keys_ok d \<Longrightarrow> v \<in> set (db_sessions d) \<Longrightarrow> v' \<in> set (db_sessions d) \<Longrightarrow> se_TokenHash v' = se_TokenHash v \<Longrightarrow> v' = v"
  by (auto simp: keys_ok_def distinct_map dest: inj_onD)

text \<open>The ways a session ends: its own sign-out, a password change from another session, the deletion of its admin.\<close>

inductive session_ended :: "(string \<Rightarrow> string) \<Rightarrow> Session \<Rightarrow> db \<Rightarrow> db \<Rightarrow> bool" for sha256 where
  ended_logout: "handleLogout sha256 parse now now_revoke r (Some d) = ((Answer 204 [], cookies), Some d')
    \<Longrightarrow> currentSession sha256 now r (Some d) = Some v \<Longrightarrow> session_ended sha256 v d d'"
| ended_password: "handleAdminPassword argon inp rnd now sess d = (Answer 204 [], d') \<Longrightarrow> se_AdminID v = se_AdminID sess \<Longrightarrow> se_ID v \<noteq> se_ID sess
    \<Longrightarrow> session_ended sha256 v d d'"
| ended_delete: "handleAdminDelete (Some (se_AdminID v)) sess d = (Answer 204 [], d') \<Longrightarrow> session_ended sha256 v d d'"

lemma revoke_dead:
  assumes "keys_ok d" and "v \<in> set (db_sessions d)"
  shows "dead_session (se_TokenHash v) (RevokeSession (se_ID v) at d)"
    "se_ID v \<noteq> e \<Longrightarrow> dead_session (se_TokenHash v) (RevokeSessionsForAdminExcept (se_AdminID v) e at d)"
  using session_unique[OF assms] by (auto simp: dead_session_def RevokeSession_def RevokeSessionsForAdminExcept_def update_where_def)

lemma session_ended_dead:
  assumes "session_ended sha256 v d d'" and "keys_ok d" and "v \<in> set (db_sessions d)"
  shows "dead_session (se_TokenHash v) d'"
  using assms(1)
proof cases
  case (ended_logout parse now now_revoke r cookies)
  then have "d' = RevokeSession (se_ID v) now_revoke d"
    by (auto simp: handleLogout_def origin_refused_def token_refused_def Let_def split: if_splits)
  with revoke_dead(1)[OF assms(2,3)] show ?thesis by simp
next
  case (ended_password argon inp rnd now sess)
  then obtain i hash d1 where p: "UpdateAdminPassword i hash d = (None, d1)" "i = se_AdminID sess"
    "d' = RevokeSessionsForAdminExcept (se_AdminID v) (se_ID sess) now d1"
    by (auto simp: handleAdminPassword_def AdminByID_def find_Some_iff split: option.splits if_splits prod.splits)
  then have "db_sessions d1 = db_sessions d" by (auto simp: UpdateAdminPassword_def split_def)
  then have "db_sessions d' = db_sessions (RevokeSessionsForAdminExcept (se_AdminID v) (se_ID sess) now d)"
    using p(3) by (simp add: RevokeSessionsForAdminExcept_def)
  with revoke_dead(2)[OF assms(2,3) ended_password(3)] show ?thesis by (simp add: dead_session_def)
next
  case (ended_delete sess)
  then have "DeleteAdmin (se_AdminID v) d = (None, d')"
    by (auto simp: handleAdminDelete_def split: if_splits prod.splits option.splits store_error.splits)
  then have "db_sessions d' = filter (\<lambda>w. se_AdminID w \<noteq> se_AdminID v) (db_sessions d)"
    by (auto simp: DeleteAdmin_def split: if_splits)
  with session_unique[OF assms(2,3)] show ?thesis by (auto simp: dead_session_def)
qed

text \<open>
  C19. A session that ended stays ended. After a sign-out, a password change from another
  session, or the deletion of the admin was answered 204, and whatever statements run from
  then on, short of a new session with the same token, every request with the session's
  cookie is answered 401 by every admin route at any time, and changes nothing.
\<close>

theorem ended_session_dead:
  assumes "session_ended sha256 v d d1" and "db_ok d" and "v \<in> set (db_sessions d)" and "se_TokenHash v = sha256 tok"
    and "db_run d1 es d2" and "SessionCreated (sha256 tok) \<notin> set es"
    and "Cookie r sessionCookie = Some tok"
  shows "\<exists>status m. adm sha256 parse now r h (Some d2) = (Answer status m, Some d2) \<and> status \<in> {401, 421}"
proof -
  have "dead_session (sha256 tok) d1" using session_ended_dead[OF assms(1)] assms(2-4) by (simp add: db_ok_def)
  from currentSession_dead[where ?sha256.0 = sha256 and tok = tok, OF dead.lasting_run[OF assms(5,6) this] assms(7)]
  have "currentSession sha256 now r (Some d2) = None" .
  then have "requireAdmin sha256 parse now r h d2 = (Answer 401 ''unauthorized'', d2)" by (simp add: requireAdmin_def)
  then show ?thesis by (auto simp: adm_def requireHost_def requireActivated_def Let_def split: option.splits)
qed

definition toy_signed_in :: db where
  "toy_signed_in = toy_admins\<lparr>db_sessions := [\<lparr>se_ID = 1, se_TokenHash = ''ws_'', se_AdminID = 1, se_CreatedAt = 0, se_ExpiresAt = hour,
     se_RevokedAt = None\<rparr>]\<rparr>"

lemma toy_signed_in_ok: "db_ok toy_signed_in"
  by code_simp

theorem ended_session_dead_witness:
  "\<exists>d1 status m. handleLogout (\<lambda>s. s) (\<lambda>_. None) 0 0 toy_api (Some toy_signed_in) = ((Answer 204 [], clearAuthCookies (\<lambda>_. None) toy_api (Some d1)), Some d1)
     \<and> adm (\<lambda>s. s) (\<lambda>_. None) 0 toy_api (\<lambda>sess d. (Answer 204 [], empty_db)) (Some d1) = (Answer status m, Some d1) \<and> status \<in> {401, 421}"
proof -
  let ?v = "hd (db_sessions toy_signed_in)"
  let ?d1 = "RevokeSession 1 0 toy_signed_in"
  have out: "handleLogout (\<lambda>s. s) (\<lambda>_. None) 0 0 toy_api (Some toy_signed_in) = ((Answer 204 [], clearAuthCookies (\<lambda>_. None) toy_api (Some ?d1)), Some ?d1)"
    by code_simp
  have cur: "currentSession (\<lambda>s. s) 0 toy_api (Some toy_signed_in) = Some ?v" by code_simp
  have v: "?v \<in> set (db_sessions toy_signed_in)" "se_TokenHash ?v = ''ws_''" by (simp_all add: toy_signed_in_def)
  have c: "Cookie toy_api sessionCookie = Some ''ws_''" by code_simp
  from ended_session_dead[where ?sha256.0 = "\<lambda>s. s", OF ended_logout[where ?sha256.0 = "\<lambda>s. s", OF out cur] toy_signed_in_ok v run_start _ c] out
  show ?thesis by (intro exI[of _ ?d1]) simp
qed

subsection \<open>The gate of the admin routes\<close>

text \<open>
  C14. Only a signed-in admin's own request passes. Where an admin route changes the database,
  the change is that of its handler, run for a session that the request's cookie names, that
  is neither revoked nor expired and whose admin exists; the request came to the public
  URL's host or a loopback one; and unless its method is a safe one, its CSRF header repeats
  the CSRF cookie, and an origin it claims is the public URL's.
\<close>

theorem admin_route_gated:
  assumes "adm sha256 parse now r h (Some d) = (a, st')" and "st' \<noteq> Some d" and "db_ok d"
  shows "\<exists>sess tok. (a, st') = (fst (h sess d), Some (snd (h sess d)))
    \<and> Cookie r sessionCookie = Some tok \<and> sess \<in> set (db_sessions d) \<and> se_TokenHash sess = sha256 tok
    \<and> se_RevokedAt sess = None \<and> now < se_ExpiresAt sess \<and> AdminByID (se_AdminID sess) d \<noteq> None
    \<and> (\<forall>pu. PublicURL parse (Some d) = Some pu \<longrightarrow>
        EqualFold_ascii (hostOnly (rq_Host (aq_http r))) (hostOnly (u_Host pu)) \<or> isLoopbackHost (hostOnly (rq_Host (aq_http r))))
    \<and> (\<not> safe_method (rq_Method (aq_http r)) \<longrightarrow>
        (\<exists>c. c \<noteq> [] \<and> Cookie r csrfCookie = Some c \<and> header_Get (aq_http r) csrfHeader = c)
        \<and> (\<forall>pu origin. PublicURL parse (Some d) = Some pu \<and> origin = header_Get (aq_http r) ''Origin'' \<and> origin \<noteq> [] \<longrightarrow>
            (\<exists>u. parse origin = Some u \<and> EqualFold_ascii (u_Scheme u) (u_Scheme pu) \<and> EqualFold_ascii (u_Host u) (u_Host pu))))"
proof -
  let ?host = "hostOnly (rq_Host (aq_http r))"
  have host: "\<forall>pu. PublicURL parse (Some d) = Some pu \<longrightarrow> EqualFold_ascii ?host (hostOnly (u_Host pu)) \<or> isLoopbackHost ?host"
    and ra: "requireAdmin sha256 parse now r h d = (a, the st')" "st' = Some (the st')"
    using assms(1,2) by (auto simp: adm_def requireHost_def requireActivated_def Let_def split: option.splits if_splits prod.splits)
  obtain sess where cs: "currentSession sha256 now r (Some d) = Some sess" and csrf: "requireCSRF parse r (h sess) d = (a, the st')"
    using ra assms(2) by (auto simp: requireAdmin_def split: option.splits)
  obtain tok where c: "Cookie r sessionCookie = Some tok" "SessionByHash (sha256 tok) d = Some sess" "se_RevokedAt sess = None" "now < se_ExpiresAt sess"
    using cs by (auto simp: currentSession_def sessionTokenHash_def split: option.splits if_splits)
  then have row: "sess \<in> set (db_sessions d)" "se_TokenHash sess = sha256 tok" by (auto simp: SessionByHash_def find_Some_iff)
  have "se_AdminID sess \<in> ad_ID ` set (db_admins d)" using assms(3) row(1) by (auto simp: ok_simps)
  then have admin: "AdminByID (se_AdminID sess) d \<noteq> None" by (auto simp: AdminByID_def find_None_iff)
  have run: "h sess d = (a, the st')" and ok: "safe_method (rq_Method (aq_http r)) \<or> originAllowed parse r (PublicURL parse (Some d)) \<and> csrfOK r"
    using csrf ra(2) assms(2) by (auto simp: requireCSRF_def split: if_splits)
  from ok have "\<not> safe_method (rq_Method (aq_http r)) \<Longrightarrow> (\<exists>c. c \<noteq> [] \<and> Cookie r csrfCookie = Some c \<and> header_Get (aq_http r) csrfHeader = c)
      \<and> (\<forall>pu origin. PublicURL parse (Some d) = Some pu \<and> origin = header_Get (aq_http r) ''Origin'' \<and> origin \<noteq> [] \<longrightarrow>
          (\<exists>u. parse origin = Some u \<and> EqualFold_ascii (u_Scheme u) (u_Scheme pu) \<and> EqualFold_ascii (u_Host u) (u_Host pu)))"
    by (auto simp: csrfOK_def originAllowed_def claimed_origin_def Let_def split: option.splits)
  with run c row admin host ra(2) show ?thesis by (intro exI[of _ sess] exI[of _ tok]) auto
qed

theorem admin_route_gated_witness:
  "\<exists>sess. sess \<in> set (db_sessions toy_signed_in) \<and> se_TokenHash sess = ''ws_'' \<and> AdminByID (se_AdminID sess) toy_signed_in \<noteq> None
     \<and> header_Get (aq_http toy_api) csrfHeader \<noteq> []"
proof -
  let ?h = "\<lambda>(sess :: Session) d. (Answer 204 [], SetSetting ''k'' ''v'' d)"
  have run: "adm (\<lambda>s. s) (\<lambda>_. None) 0 toy_api ?h (Some toy_signed_in) = (Answer 204 [], Some (SetSetting ''k'' ''v'' toy_signed_in))"
    by code_simp
  have "Setting ''k'' (SetSetting ''k'' ''v'' toy_signed_in) \<noteq> Setting ''k'' toy_signed_in" by code_simp
  then have ne: "Some (SetSetting ''k'' ''v'' toy_signed_in) \<noteq> Some toy_signed_in" by auto
  have c: "Cookie toy_api sessionCookie = Some ''ws_''" "\<not> safe_method (rq_Method (aq_http toy_api))" by code_simp+
  from admin_route_gated[OF run ne toy_signed_in_ok] c show ?thesis by auto
qed

end
