(* ===== verification/Mirror.thy ===== *)
theory Mirror
  imports Local_Store Reap
begin

section \<open>The mirror job\<close>

text \<open>
  Models \<^verbatim>\<open>src/fleet/jobs/mirror.go\<close>: for every disk target with a verified mirror, the upload of
  what the bucket does not hold and the hiding of what the device's maintenance removed. The
  bucket is any ObjectStore; opening it, the sealed credentials and the text of an error are
  parameters. The root is the disk backend's, and devices write to it while the job runs: the
  outside world gives every call its own view of the directory tree, by target and by the
  number of calls made before it, with its failures, and says when the job's context ends.
  The two paging loops have a bound on the pages, \<^const>\<open>None\<close> where it is exhausted.
\<close>

subsection \<open>Settings\<close>

definition listPage :: int where "listPage = 1000"

definition hideWindow :: duration where "hideWindow = 7 * 24 * hour"

record IntSetting =
  is_Default :: int
  is_Min :: int
  is_Max :: int

definition MirrorHideMaxPercentSetting :: string where "MirrorHideMaxPercentSetting = ''mirror_hide_max_percent''"
definition MirrorHideMinCountSetting :: string where "MirrorHideMinCountSetting = ''mirror_hide_min_count''"

definition MirrorHideSettings :: "(string \<times> IntSetting) list" where
  "MirrorHideSettings =
     [(MirrorHideMaxPercentSetting, \<lparr>is_Default = 25, is_Min = 1, is_Max = 100\<rparr>),
      (MirrorHideMinCountSetting, \<lparr>is_Default = 50, is_Min = 1, is_Max = 1000000\<rparr>)]"

definition MirrorHideSetting :: "string \<Rightarrow> db \<Rightarrow> int" where
  "MirrorHideSetting key d =
     (let spec = (case map_of MirrorHideSettings key of Some x \<Rightarrow> x | None \<Rightarrow> \<lparr>is_Default = 0, is_Min = 0, is_Max = 0\<rparr>)
      in case ParseInt64 (Setting key d) of
           Some n \<Rightarrow> if is_Min spec \<le> n \<and> n \<le> is_Max spec then n else is_Default spec
         | None \<Rightarrow> is_Default spec)"

subsection \<open>The run\<close>

datatype ci_error = NoBucket | NoRegion | NoCreds | BadKind string

datatype mirror_err =
  CtxErr | NotVerified | UnsealFailed | BadCreds | LocalOpen | BucketErr ci_error | BucketOpen
| ListRoot gw_error | ListMirror gw_error | ReadErr string gw_error | UploadErr string gw_error
| ErrUnversioned | HideGuard nat nat int int | HideErr string gw_error | StatsErr

record mirrorCreds =
  mc_KeyID :: string
  mc_Key :: string

text \<open>The endpoint of a mirror bucket; the rest of the connection info is copied from the row.\<close>

definition mirrorCI :: "Target \<Rightarrow> mirrorCreds \<Rightarrow> ci_error + string" where
  "mirrorCI t c =
     (if ta_MirrorBucket t = [] then Inl NoBucket
      else if ta_MirrorRegion t = [] then Inl NoRegion
      else if mc_KeyID c = [] \<or> mc_Key c = [] then Inl NoCreds
      else if ta_MirrorKind t = ''b2'' then Inr (''s3.'' @ ta_MirrorRegion t @ ''.backblazeb2.com'')
      else if ta_MirrorKind t = ''s3'' then Inr (''s3.'' @ ta_MirrorRegion t @ ''.amazonaws.com'')
      else Inl (BadKind (ta_MirrorKind t)))"

record 'e mirror_world =
  mw_local :: "int \<Rightarrow> nat \<Rightarrow> local_env \<times> fs"
  mw_remote :: "nat \<Rightarrow> 'e"
  mw_ctx :: "nat \<Rightarrow> bool"

text \<open>What a run holds for its target, and its counters. \<open>m_tick\<close> numbers the calls.\<close>

record mirror_target =
  mt_row :: Target
  mt_now :: gotime
  mt_hidePercent :: int
  mt_hideMin :: int
  mt_versioned :: bool
  mt_plain :: bool

record 's mirrorRun =
  m_db :: db
  m_remote :: 's
  m_tick :: nat
  m_objects :: nat
  m_skipped :: nat
  m_hidden :: nat
  m_bytes :: int
  m_errs :: "(string \<times> mirror_err) list"

definition m_fail :: "string \<Rightarrow> mirror_err \<Rightarrow> 's mirrorRun \<Rightarrow> 's mirrorRun" where
  "m_fail what err m = m\<lparr>m_errs := m_errs m @ [(what, err)]\<rparr>"

definition tick :: "'s mirrorRun \<Rightarrow> 's mirrorRun" where
  "tick m = m\<lparr>m_tick := Suc (m_tick m)\<rparr>"

definition m_detail :: "(mirror_err \<Rightarrow> string) \<Rightarrow> 's mirrorRun \<Rightarrow> string" where
  "m_detail text m =
     (let d0 = itoa (m_objects m) @ '' objects, '' @ FormatInt (m_bytes m) @ '' bytes, '' @ itoa (m_skipped m) @ '' skipped'';
          d1 = (if m_hidden m > 0 then d0 @ '', '' @ itoa (m_hidden m) @ '' hidden'' else d0);
          errs = map (\<lambda>(what, err). what @ '': '' @ text err) (m_errs m)
      in if errs = [] then d1
         else let shown = take detailErrors errs;
                  d2 = d1 @ '', errors: '' @ Join shown ''; '';
                  n = length errs - length shown
              in if n > 0 then d2 @ '' (+'' @ itoa n @ '' more)'' else d2)"

subsection \<open>One device\<close>

text \<open>The set of keys the bucket holds for a device, as a list without duplicates.\<close>

fun mirrored :: "nat \<Rightarrow> ('e, 's) ObjectStore \<Rightarrow> 'e mirror_world \<Rightarrow> string \<Rightarrow> string \<Rightarrow> string list \<Rightarrow> 's mirrorRun
    \<Rightarrow> ((mirror_err + string list) \<times> 's mirrorRun) option" where
  "mirrored 0 ops w device after have m = None"
| "mirrored (Suc n) ops w device after have m =
     (case os_List ops (mw_remote w (m_tick m)) (m_remote m) (device @ ''/'') after listPage of
        Inl err \<Rightarrow> Some (Inl (ListMirror err), tick m)
      | Inr (page, truncated) \<Rightarrow>
          if page = [] then Some (Inr have, tick m)
          else (let have' = remdups (have @ map oi_Key page) in
            if \<not> truncated then Some (Inr have', tick m)
            else mirrored n ops w device (oi_Key (last page)) have' (tick m)))"

definition m_upload :: "('e, 's) ObjectStore \<Rightarrow> 'e mirror_world \<Rightarrow> mirror_target \<Rightarrow> ObjectInfo \<Rightarrow> 's mirrorRun
    \<Rightarrow> (mirror_err + int option) \<times> 's mirrorRun" where
  "m_upload ops w c o1 m =
     (case mw_local w (ta_ID (mt_row c)) (m_tick m) of (le, root) \<Rightarrow>
      case local_Get le root (oi_Key o1) 0 (- 1) of
        Inl err \<Rightarrow> (Inl (ReadErr (oi_Key o1) err), tick m)
      | Inr (rc, info) \<Rightarrow>
          (case os_Put ops (mw_remote w (m_tick m)) (m_remote m) (oi_Key o1) rc (oi_Size info) (mt_plain c) of
             (Inr put, eof, s') \<Rightarrow> (Inr (Some (oi_Size put)), (tick m)\<lparr>m_remote := s'\<rparr>)
           | (Inl err, eof, s') \<Rightarrow>
               ((if err = ErrExists then Inr None else Inl (UploadErr (oi_Key o1) err)), (tick m)\<lparr>m_remote := s'\<rparr>)))"

text \<open>The loop over a device's objects: the bytes it has offsite, \<^const>\<open>None\<close> where it gave up.\<close>

fun upload_all :: "('e, 's) ObjectStore \<Rightarrow> 'e mirror_world \<Rightarrow> mirror_target \<Rightarrow> string \<Rightarrow> string list \<Rightarrow> ObjectInfo list \<Rightarrow> int \<Rightarrow> 's mirrorRun
    \<Rightarrow> int option \<times> 's mirrorRun" where
  "upload_all ops w c where1 have [] offsite m = (Some offsite, m)"
| "upload_all ops w c where1 have (o1 # os) offsite m =
     (if mw_ctx w (m_tick m) then (None, m_fail where1 CtxErr m)
      else if oi_Key o1 \<in> set have then
        upload_all ops w c where1 have os (offsite + oi_Size o1) (m\<lparr>m_skipped := Suc (m_skipped m)\<rparr>)
      else (case m_upload ops w c o1 m of
         (Inl err, m') \<Rightarrow> (None, m_fail where1 err m')
       | (Inr None, m') \<Rightarrow> upload_all ops w c where1 have os (offsite + oi_Size o1) (m'\<lparr>m_skipped := Suc (m_skipped m')\<rparr>)
       | (Inr (Some n), m') \<Rightarrow>
           upload_all ops w c where1 have os (offsite + n) (m'\<lparr>m_objects := Suc (m_objects m'), m_bytes := m_bytes m' + n\<rparr>)))"

fun hide_all :: "('e, 's) ObjectStore \<Rightarrow> 'e mirror_world \<Rightarrow> string \<Rightarrow> string list \<Rightarrow> 's mirrorRun \<Rightarrow> 's mirrorRun" where
  "hide_all ops w where1 [] m = m"
| "hide_all ops w where1 (k # ks) m =
     (case os_Delete ops (mw_remote w (m_tick m)) (m_remote m) k of (r, s') \<Rightarrow>
      let m' = (tick m)\<lparr>m_remote := s'\<rparr> in
      case r of
        None \<Rightarrow> hide_all ops w where1 ks (m'\<lparr>m_hidden := Suc (m_hidden m')\<rparr>)
      | Some err \<Rightarrow> if err = ErrNotFound then hide_all ops w where1 ks m' else m_fail where1 (HideErr k err) m')"

definition gone_keys :: "ObjectInfo list \<Rightarrow> string list \<Rightarrow> string list" where
  "gone_keys os have = filter (\<lambda>k. k \<notin> oi_Key ` set os) have"

definition hide_limit :: "mirror_target \<Rightarrow> string list \<Rightarrow> int" where
  "hide_limit c have = max (mt_hideMin c) (int (length have) * mt_hidePercent c div 100)"

definition m_hide :: "('e, 's) ObjectStore \<Rightarrow> 'e mirror_world \<Rightarrow> mirror_target \<Rightarrow> string \<Rightarrow> string \<Rightarrow> ObjectInfo list \<Rightarrow> string list \<Rightarrow> 's mirrorRun
    \<Rightarrow> 's mirrorRun" where
  "m_hide ops w c where1 device os have m =
     (let gone = gone_keys os have in
      if gone = [] then m
      else if ta_MirrorLockVerifiedAt (mt_row c) = None \<or> \<not> mt_versioned c then m_fail where1 ErrUnversioned m
      else (case ReserveMirrorHides (ta_ID (mt_row c)) device (mt_now c) (mt_now c - hideWindow) (int (length gone)) (hide_limit c have) (m_db m) of
         ((earlier, ok), d') \<Rightarrow>
           if \<not> ok then m_fail where1 (HideGuard (length gone) (length have) earlier (hide_limit c have)) (m\<lparr>m_db := d'\<rparr>)
           else hide_all ops w where1 (sort gone) (m\<lparr>m_db := d'\<rparr>)))"

definition m_record :: "mirror_target \<Rightarrow> string \<Rightarrow> string \<Rightarrow> int \<Rightarrow> 's mirrorRun \<Rightarrow> 's mirrorRun" where
  "m_record c where1 device offsite m =
     (case AgentRow device (m_db m) of
        None \<Rightarrow> m
      | Some a \<Rightarrow>
          (case SetMirrored device (mt_now c) offsite (m_db m) of
             Inl e \<Rightarrow> m_fail where1 StatsErr m
           | Inr d' \<Rightarrow> m\<lparr>m_db := d'\<rparr>))"

definition m_device :: "nat \<Rightarrow> ('e, 's) ObjectStore \<Rightarrow> 'e mirror_world \<Rightarrow> mirror_target \<Rightarrow> string \<Rightarrow> ObjectInfo list \<Rightarrow> 's mirrorRun
    \<Rightarrow> 's mirrorRun option" where
  "m_device pages ops w c device os m =
     (if device = [] \<or> os = [] then Some m
      else let where1 = ta_Name (mt_row c) @ ''/'' @ device in
       (case mirrored pages ops w device [] [] m of
          None \<Rightarrow> None
        | Some (Inl err, m1) \<Rightarrow> Some (m_fail where1 err m1)
        | Some (Inr have, m1) \<Rightarrow>
            (case upload_all ops w c where1 have os 0 m1 of
               (None, m2) \<Rightarrow> Some m2
             | (Some offsite, m2) \<Rightarrow> Some (m_record c where1 device offsite (m_hide ops w c where1 device os have m2)))))"

subsection \<open>One target\<close>

text \<open>The objects of a page, with the device that is being collected and its objects so far.\<close>

fun walk_page :: "nat \<Rightarrow> ('e, 's) ObjectStore \<Rightarrow> 'e mirror_world \<Rightarrow> mirror_target \<Rightarrow> ObjectInfo list \<Rightarrow> string \<Rightarrow> ObjectInfo list \<Rightarrow> 's mirrorRun
    \<Rightarrow> (string \<times> ObjectInfo list \<times> 's mirrorRun) option" where
  "walk_page pages ops w c [] device os m = Some (device, os, m)"
| "walk_page pages ops w c (o1 # page) device os m =
     (case Cut (oi_Key o1) CHR ''/'' of (d, n, ok) \<Rightarrow>
      if \<not> ok \<or> d = [] then walk_page pages ops w c page device os m
      else if d \<noteq> device then
        (case m_device pages ops w c device os m of
           None \<Rightarrow> None
         | Some m' \<Rightarrow> walk_page pages ops w c page d [o1] m')
      else walk_page pages ops w c page device (os @ [o1]) m)"

fun m_walk :: "nat \<Rightarrow> nat \<Rightarrow> ('e, 's) ObjectStore \<Rightarrow> 'e mirror_world \<Rightarrow> mirror_target \<Rightarrow> string \<Rightarrow> string \<Rightarrow> ObjectInfo list \<Rightarrow> 's mirrorRun
    \<Rightarrow> 's mirrorRun option" where
  "m_walk 0 pages ops w c after device os m = None"
| "m_walk (Suc n) pages ops w c after device os m =
     (case mw_local w (ta_ID (mt_row c)) (m_tick m) of (le, root) \<Rightarrow>
      case local_List le root [] after listPage of
        Inl err \<Rightarrow> Some (m_fail (ta_Name (mt_row c)) (ListRoot err) (tick m))
      | Inr (page, truncated) \<Rightarrow>
          if page = [] then m_device pages ops w c device os (tick m)
          else (case walk_page pages ops w c page device os (tick m) of
             None \<Rightarrow> None
           | Some (device', os', m') \<Rightarrow>
               if \<not> truncated then m_device pages ops w c device' os' m'
               else m_walk n pages ops w c (oi_Key (last page)) device' os' m'))"

text \<open>
  The bucket of a target, by its kind, region and name; its contents are the state \<open>b\<close>.
  \<open>opens\<close> says whether the root and the bucket's client can be opened.
\<close>

type_synonym 's buckets = "string \<times> string \<times> string \<Rightarrow> 's"

definition bucket_of :: "Target \<Rightarrow> string \<times> string \<times> string" where
  "bucket_of t = (ta_MirrorKind t, ta_MirrorRegion t, ta_MirrorBucket t)"

definition m_target :: "nat \<Rightarrow> ('e, 's) ObjectStore \<Rightarrow> (string \<Rightarrow> string option) \<Rightarrow> (string \<Rightarrow> mirrorCreds option) \<Rightarrow> (Target \<Rightarrow> bool \<times> bool)
    \<Rightarrow> 'e mirror_world \<Rightarrow> mirror_target \<Rightarrow> 's mirrorRun \<times> 's buckets \<Rightarrow> ('s mirrorRun \<times> 's buckets) option" where
  "m_target pages ops open_sealed creds opens w c mb =
     (case mb of (m, b) \<Rightarrow>
      let t = mt_row c; failed = (\<lambda>err. Some (m_fail (ta_Name t) err m, b)) in
      if ta_MirrorLockVerifiedAt t = None then failed NotVerified
      else (case open_sealed (ta_SealedMirrorKey t) of
         None \<Rightarrow> failed UnsealFailed
       | Some sealed_json \<Rightarrow>
          (case creds sealed_json of
             None \<Rightarrow> failed BadCreds
           | Some cr \<Rightarrow>
               if \<not> fst (opens t) then failed LocalOpen
               else (case mirrorCI t cr of
                  Inl e \<Rightarrow> failed (BucketErr e)
                | Inr endpoint \<Rightarrow>
                    if \<not> snd (opens t) then failed BucketOpen
                    else (let m0 = m\<lparr>m_remote := b (bucket_of t)\<rparr>;
                              c' = c\<lparr>mt_plain := (ta_MirrorConditionalPut t = Some False),
                                     mt_versioned := os_Versioned ops (mw_remote w (m_tick m)) (m_remote m0)\<rparr>
                          in map_option (\<lambda>m'. (m', b(bucket_of t := m_remote m'))) (m_walk pages pages ops w c' [] [] [] (tick m0)))))))"

subsection \<open>The job\<close>

fun m_targets :: "nat \<Rightarrow> ('e, 's) ObjectStore \<Rightarrow> (string \<Rightarrow> string option) \<Rightarrow> (string \<Rightarrow> mirrorCreds option) \<Rightarrow> (Target \<Rightarrow> bool \<times> bool)
    \<Rightarrow> 'e mirror_world \<Rightarrow> gotime \<Rightarrow> int \<Rightarrow> int \<Rightarrow> Target list \<Rightarrow> 's mirrorRun \<times> 's buckets \<Rightarrow> ('s mirrorRun \<times> 's buckets) option" where
  "m_targets pages ops open_sealed creds opens w now pct mn [] mb = Some mb"
| "m_targets pages ops open_sealed creds opens w now pct mn (t # rest) mb =
     (if mw_ctx w (m_tick (fst mb)) then Some (m_fail ''mirror'' CtxErr (fst mb), snd mb)
      else if ta_Kind t \<noteq> ''hosted'' \<or> ta_StorageMode t \<noteq> ''disk'' \<or> ta_MirrorKind t = []
      then m_targets pages ops open_sealed creds opens w now pct mn rest mb
      else (case m_target pages ops open_sealed creds opens w
                   \<lparr>mt_row = t, mt_now = now, mt_hidePercent = pct, mt_hideMin = mn, mt_versioned = False, mt_plain = False\<rparr> mb of
         None \<Rightarrow> None
       | Some mb' \<Rightarrow> m_targets pages ops open_sealed creds opens w now pct mn rest mb'))"

definition Mirror :: "nat \<Rightarrow> ('e, 's) ObjectStore \<Rightarrow> (string \<Rightarrow> string option) \<Rightarrow> (string \<Rightarrow> mirrorCreds option) \<Rightarrow> (Target \<Rightarrow> bool \<times> bool)
    \<Rightarrow> (mirror_err \<Rightarrow> string) \<Rightarrow> 'e mirror_world \<Rightarrow> gotime \<Rightarrow> 's \<Rightarrow> 's buckets \<Rightarrow> db \<Rightarrow> (outcome \<times> db \<times> 's buckets) option" where
  "Mirror pages ops open_sealed creds opens text w now nowhere b d =
     map_option (\<lambda>(m, b'). (Returned (m_detail text m) (if m_errs m \<noteq> [] then Some (RunErr ''the mirror did not complete'') else None), m_db m, b'))
       (m_targets pages ops open_sealed creds opens w now (MirrorHideSetting MirrorHideMaxPercentSetting d)
          (MirrorHideSetting MirrorHideMinCountSetting d) (Targets d)
          (\<lparr>m_db = d, m_remote = nowhere, m_tick = 0, m_objects = 0, m_skipped = 0, m_hidden = 0, m_bytes = 0, m_errs = []\<rparr>, b))"

end
