(* ===== verification/Mirror_Correct.thy ===== *)
theory Mirror_Correct
  imports Mirror
begin

section \<open>What the mirror job may do to a bucket\<close>

text \<open>
  The job is a client of the ObjectStore contract of its bucket and of the disk backend's
  listing. An object that the hosted root holds throughout a run is never hidden and its copy
  never changes; a device's hides stay within the guard over seven days; and the listing of
  the bucket ends with exactly the device's keys.
\<close>

subsection \<open>Keys and devices\<close>

definition dev_of :: "string \<Rightarrow> string" where
  "dev_of k = fst (Cut k CHR ''/'')"

definition device_key :: "string \<Rightarrow> bool" where
  "device_key k \<longleftrightarrow> (\<exists>d n. k = d @ CHR ''/'' # n \<and> d \<noteq> [] \<and> CHR ''/'' \<notin> set d)"

lemma device_keyD: "device_key k \<Longrightarrow> \<exists>n. Cut k CHR ''/'' = (dev_of k, n, True) \<and> dev_of k \<noteq> [] \<and> HasPrefix k (dev_of k @ ''/'')"
  by (auto simp: device_key_def dev_of_def HasPrefix_iff)

lemma dev_of_prefix: "HasPrefix k (d @ ''/'') \<Longrightarrow> CHR ''/'' \<notin> set d \<Longrightarrow> dev_of k = d"
  by (auto simp: HasPrefix_iff dev_of_def)

lemma dev_of_no_slash: "CHR ''/'' \<notin> set (dev_of k)"
  by (cases k "CHR ''/''" rule: Cut_cases) (auto simp: dev_of_def)

text \<open>The keys below one prefix are contiguous in the order of keys.\<close>

lemma prefix_contiguous:
  assumes "HasPrefix a p" and "HasPrefix c p" and "a \<le> b" and "b \<le> c"
  shows "HasPrefix b (p :: string)"
  using assms
proof (induction p arbitrary: a b c)
  case (Cons x p)
  obtain a' c' where ac: "a = x # a'" "c = x # c'" "HasPrefix a' p" "HasPrefix c' p" using Cons.prems(1,2) by (auto simp: HasPrefix_iff)
  obtain b' where b: "b = x # b'" "a' \<le> b'" "b' \<le> c'"
    using Cons.prems(3,4) ac by (cases b) auto
  from Cons.IH[OF ac(3,4) b(2,3)] b(1) show ?case by (simp add: HasPrefix_iff)
qed (simp add: HasPrefix_iff)

lemma device_contiguous:
  assumes "device_key a" and "device_key c" and "dev_of a = dev_of c" and "a \<le> b" and "b \<le> c"
  shows "dev_of b = dev_of a"
proof -
  have "HasPrefix a (dev_of a @ ''/'')" using device_keyD[OF assms(1)] by blast
  moreover have "HasPrefix c (dev_of a @ ''/'')" unfolding assms(3) using device_keyD[OF assms(2)] by blast
  ultimately have "HasPrefix b (dev_of a @ ''/'')" using assms(4,5) by (rule prefix_contiguous)
  then show ?thesis by (rule dev_of_prefix) (rule dev_of_no_slash)
qed

subsection \<open>The listing of a whole root\<close>

text \<open>
  The directories of a root sort like the keys below them: no name is another one followed by
  a character before the slash. The ids of devices, of one length, always do.
\<close>

definition ordered_root :: "fs \<Rightarrow> bool" where
  "ordered_root s \<longleftrightarrow> fs_wf s \<and> list_all (\<lambda>d. ValidString d
     \<and> list_all (\<lambda>d'. d' < d \<and> d' \<noteq> tmpDir \<and> d \<noteq> tmpDir \<longrightarrow> d' @ ''/'' < d @ ''/'') (map fst s)) (map fst s)"

lemma less_append: "x < y \<Longrightarrow> \<not> HasPrefix y x \<Longrightarrow> x @ u < (y :: string) @ v"
proof (induction x arbitrary: y)
  case (Cons c x)
  then obtain c' y' where y: "y = c' # y'" by (cases y) auto
  with Cons show ?case by (auto simp: HasPrefix_iff)
qed (auto simp: HasPrefix_iff)

lemma dirs_less:
  assumes "d @ ''/'' < d' @ ''/''" and "CHR ''/'' \<notin> set d" and "CHR ''/'' \<notin> set d'"
  shows "entry_key d n < entry_key d' n'"
proof -
  have "\<not> HasPrefix (d' @ ''/'') (d @ ''/'')"
  proof
    assume "HasPrefix (d' @ ''/'') (d @ ''/'')"
    then have "dev_of (d' @ ''/'') = d" using assms(2) by (rule dev_of_prefix)
    moreover have "dev_of (d' @ ''/'') = d'" using assms(3) by (simp add: dev_of_def)
    ultimately show False using assms(1) by simp
  qed
  from less_append[OF assms(1) this, of n n'] show ?thesis by (simp add: entry_key_def)
qed

lemma sorted_concat_pages:
  assumes "sorted_wrt (\<lambda>d d'. \<forall>x \<in> set (f d). \<forall>y \<in> set (f d'). key x < (key y :: 'k :: linorder)) ds"
    and "\<And>d. sorted_wrt (<) (map key (f d))"
  shows "sorted_wrt (<) (map key (concat (map f ds)))"
  using assms(1) by (induction ds) (auto simp: sorted_wrt_append assms(2))

lemma root_listing:
  assumes "ordered_root s" and "local_List e s [] a mx = Inr (os, tr)"
  shows "\<exists>all. os = take (clamp_max mx) all \<and> tr = (clamp_max mx < length all) \<and> sorted_wrt (<) (map oi_Key all)
    \<and> (\<forall>k v. local_objs s k = Some v \<longrightarrow> a < k \<longrightarrow> \<not> le_gone e k \<longrightarrow> k \<in> oi_Key ` set all)"
proof -
  let ?ds = "map fst (filter (\<lambda>(d, r). (case r of Dir _ \<Rightarrow> True | NotDir \<Rightarrow> False) \<and> d \<noteq> tmpDir) (sort_key fst s))"
  let ?all = "concat (map (dir_page e s [] a) ?ds)"
  have wf: "fs_wf s" using assms(1) by (simp add: ordered_root_def)
  have "listDirs e s [] = Inr (?ds, []) " "list_dirs e s [] a (clamp_max mx) [] ?ds = Inr (os, tr)"
    using assms(2) by (auto simp: local_List_def listDirs_def HasPrefix_def split: if_splits)
  from list_dirs_Inr[OF this(2)] have os: "os = take (clamp_max mx) ?all" "tr = (clamp_max mx < length ?all)" by (simp_all add: Let_def)
  have "distinct (map fst (sort_key fst s))" using wf by (simp add: fs_wf_def distinct_map)
  then have "sorted_wrt (<) (map fst (sort_key fst s))" by (simp add: strict_sorted_iff)
  then have ds: "sorted_wrt (<) ?ds" by (rule sorted_wrt_map_filter_mono) simp
  have keys: "entry_key d n < entry_key d' n'" if "d \<in> set ?ds" "d' \<in> set ?ds" "d < d'" for d d' n n'
  proof (rule dirs_less)
    have "d \<in> set (map fst s)" "d' \<in> set (map fst s)" "d \<noteq> tmpDir" "d' \<noteq> tmpDir" using that(1,2) by auto
    with assms(1) that(3) wf show "d @ ''/'' < d' @ ''/''" "CHR ''/'' \<notin> set d" "CHR ''/'' \<notin> set d'"
      by (auto simp: ordered_root_def list_all_iff fs_wf_def proper_name_def)
  qed
  have pages: "oi_Key x < oi_Key y"
    if d: "d \<in> set ?ds" "d' \<in> set ?ds" "d < d'" and x: "x \<in> set (dir_page e s [] a d)" and y: "y \<in> set (dir_page e s [] a d')" for d d' x y
  proof -
    obtain n where n: "oi_Key x = entry_key d n" using dir_page_mem[OF wf x] by blast
    obtain n' where n': "oi_Key y = entry_key d' n'" using dir_page_mem[OF wf y] by blast
    show ?thesis unfolding n n' by (rule keys[OF d])
  qed
  have "sorted_wrt (\<lambda>d d'. \<forall>x \<in> set (dir_page e s [] a d). \<forall>y \<in> set (dir_page e s [] a d'). oi_Key x < oi_Key y) ?ds"
    by (rule sorted_wrt_mono_rel[OF _ ds], intro ballI, rule pages)
  from sorted_concat_pages[OF this dir_page_sorted[OF wf]] have sorted: "sorted_wrt (<) (map oi_Key ?all)" .
  have "k \<in> oi_Key ` set ?all" if k: "local_objs s k = Some v" "a < k" "\<not> le_gone e k" for k v
  proof -
    obtain d n where dn: "k = d @ CHR ''/'' # n" "CHR ''/'' \<notin> set d" "d \<noteq> tmpDir"
      using k(1) by (cases k "CHR ''/''" rule: Cut_cases) (auto simp: local_objs_def split: if_splits)
    with k(1) obtain i where i: "fs_node s d n = Some i" "ino_kind i = Regular"
      by (auto simp: local_objs_key split: option.splits if_splits)
    then obtain es where "map_of s d = Some (Dir es)" by (auto simp: fs_node_def fs_dir_def split: option.splits rootent.splits)
    then have es: "(d, Dir es) \<in> set s" by (rule map_of_SomeD)
    then have "ValidString d" using assms(1) by (force simp: ordered_root_def list_all_iff)
    with dir_page_complete[OF i, of "[]" a e] k(2,3) dn(1) have "entry_info d (n, i) \<in> set (dir_page e s [] a d)"
      by (simp add: entry_key_def HasPrefix_def)
    moreover have "d \<in> set ?ds" using es dn(3) by force
    ultimately have "entry_info d (n, i) \<in> set ?all" unfolding set_concat set_map by blast
    then show ?thesis using dn(1) by (force simp: entry_info_def entry_key_def)
  qed
  with os sorted show ?thesis by blast
qed

text \<open>A page of the root, as the walk sees it.\<close>

lemma root_page:
  assumes "ordered_root s" and "local_List e s [] a mx = Inr (os, tr)"
  shows "sorted_wrt (<) (map oi_Key os)" "\<And>o1. o1 \<in> set os \<Longrightarrow> a < oi_Key o1 \<and> device_key (oi_Key o1)"
    "local_objs s k = Some v \<Longrightarrow> a < k \<Longrightarrow> \<not> le_gone e k \<Longrightarrow> k \<in> oi_Key ` set os \<or> tr \<and> (\<forall>o1 \<in> set os. oi_Key o1 < k)"
    "tr \<Longrightarrow> os \<noteq> []"
proof -
  obtain all where all: "os = take (clamp_max mx) all" "tr = (clamp_max mx < length all)" "sorted_wrt (<) (map oi_Key all)"
    "\<And>k v. local_objs s k = Some v \<Longrightarrow> a < k \<Longrightarrow> \<not> le_gone e k \<Longrightarrow> k \<in> oi_Key ` set all"
    using root_listing[OF assms] by auto
  show "sorted_wrt (<) (map oi_Key os)" using all(1,3) by (simp add: take_map[symmetric] sorted_wrt_take)
  show "a < oi_Key o1 \<and> device_key (oi_Key o1)" if "o1 \<in> set os" for o1
  proof -
    have wf: "fs_wf s" using assms(1) by (simp add: ordered_root_def)
    from wf assms(2) that obtain d n where "oi_Key o1 = entry_key d n" "a < entry_key d n" "proper_name d" by (rule local_List_mem)
    then show ?thesis by (auto simp: entry_key_def device_key_def proper_name_def relative_segment_def)
  qed
  show "k \<in> oi_Key ` set os \<or> tr \<and> (\<forall>o1 \<in> set os. oi_Key o1 < k)" if "local_objs s k = Some v" "a < k" "\<not> le_gone e k"
  proof (cases "k \<in> oi_Key ` set os")
    case False
    from all(4)[OF that] have "k \<in> oi_Key ` set (take (clamp_max mx) all @ drop (clamp_max mx) all)" by simp
    with False all(1) have k: "k \<in> set (map oi_Key (drop (clamp_max mx) all))" by (auto simp del: append_take_drop_id)
    have "sorted_wrt (<) (map oi_Key (take (clamp_max mx) all) @ map oi_Key (drop (clamp_max mx) all))"
      using all(3) by (metis append_take_drop_id map_append)
    with k have "\<forall>o1 \<in> set os. oi_Key o1 < k" unfolding sorted_wrt_append all(1) by auto
    moreover have "tr" using k all(2) by (cases "clamp_max mx < length all") auto
    ultimately show ?thesis by blast
  qed simp
  show "os \<noteq> []" if tr using that all(1,2) clamp_max_bounds(1)[of mx] by (cases all) simp_all
qed

lemma root_key:
  assumes "ordered_root s" and "local_objs s k = Some v"
  shows "device_key k"
proof -
  obtain d n where dn: "k = d @ CHR ''/'' # n" "CHR ''/'' \<notin> set d"
    using assms(2) by (cases k "CHR ''/''" rule: Cut_cases) (auto simp: local_objs_def split: if_splits)
  with assms(2) obtain i where "fs_node s d n = Some i"
    by (auto simp: local_objs_key split: option.splits if_splits)
  then obtain es where "map_of s d = Some (Dir es)" by (auto simp: fs_node_def fs_dir_def split: option.splits rootent.splits)
  then have "(d, Dir es) \<in> set s" by (rule map_of_SomeD)
  with assms(1) have "d \<noteq> []" by (force simp: ordered_root_def fs_wf_def proper_name_def relative_segment_def)
  with dn show ?thesis by (auto simp: device_key_def)
qed

subsection \<open>One device\<close>

lemma tick_simps [simp]: "m_remote (tick m) = m_remote m" "m_db (tick m) = m_db m" "m_errs (tick m) = m_errs m"
  by (simp_all add: tick_def)

lemma m_fail_simps [simp]: "m_remote (m_fail x err m) = m_remote m" "m_db (m_fail x err m) = m_db m"
  by (simp_all add: m_fail_def)

lemma m_record_remote [simp]: "m_remote (m_record c x d n m) = m_remote m"
  by (simp add: m_record_def split: option.splits sum.splits)

lemma m_fail_errs [simp]: "m_errs (m_fail x err m) \<noteq> []"
  by (simp add: m_fail_def)

lemma m_device_cases:
  fixes m :: "'s mirrorRun"
  assumes "m_device pages ops w c device os m = Some m'"
  defines "x \<equiv> ta_Name (mt_row c) @ ''/'' @ device"
  obtains "m' = m" "device = [] \<or> os = []"
  | err m1 where "mirrored pages ops w device [] [] m = Some (Inl err, m1)" "m' = m_fail x err m1"
  | held m1 where "mirrored pages ops w device [] [] m = Some (Inr held, m1)" "upload_all ops w c x held os 0 m1 = (None, m')"
  | held m1 n m2 where "mirrored pages ops w device [] [] m = Some (Inr held, m1)" "upload_all ops w c x held os 0 m1 = (Some n, m2)"
      "m' = m_record c x device n (m_hide ops w c x device os held m2)"
proof (cases "device = [] \<or> os = []")
  case True
  with assms(1) that(1) show ?thesis by (simp add: m_device_def)
next
  case False
  then obtain r m1 where l: "mirrored pages ops w device [] [] m = Some (r, m1)"
    using assms(1) by (auto simp: m_device_def Let_def split: option.splits)
  show ?thesis
  proof (cases r)
    case (Inl err)
    with that(2)[of err m1] assms(1) False l show ?thesis by (simp add: m_device_def Let_def x_def)
  next
    case (Inr held)
    obtain r2 m2 where u: "upload_all ops w c x held os 0 m1 = (r2, m2)" by (rule prod.exhaust)
    note u' = u[unfolded x_def]
    show ?thesis
    proof (cases r2)
      case None
      with that(3)[of held m1] assms(1) False l Inr u u' show ?thesis by (simp add: m_device_def Let_def x_def)
    next
      case (Some n)
      with that(4)[of held m1 n m2] assms(1) False l Inr u u' show ?thesis by (simp add: m_device_def Let_def x_def)
    qed
  qed
qed

lemma hide_all_db: "m_db (hide_all ops w x ks m) = m_db m"
  by (induction ks arbitrary: m) (auto simp: Let_def split: prod.splits option.splits)

lemma hideWindow_nonneg: "0 \<le> hideWindow"
  by (simp add: hideWindow_def hour_def minute_def second_def)

lemma ts_mono: "t \<le> t' \<Longrightarrow> ts t \<le> ts t'"
  by (simp add: ts_def second_def zdiv_mono1)

text \<open>A failure stays on the record of the run.\<close>

lemma mirrored_errs: "mirrored n ops w device after held m = Some (r, m') \<Longrightarrow> m_errs m' = m_errs m"
  by (induction n arbitrary: after held m) (auto simp: Let_def split: sum.splits prod.splits if_splits)

lemma m_upload_errs: "m_upload ops w c o1 m = (r, m') \<Longrightarrow> m_errs m' = m_errs m"
  by (auto simp: m_upload_def split: prod.splits sum.splits)

lemma upload_all_errs:
  "upload_all ops w c x held os offsite m = (r, m') \<Longrightarrow> m_errs m \<noteq> [] \<or> r = None \<Longrightarrow> m_errs m' \<noteq> []"
proof (induction os arbitrary: offsite m)
  case (Cons o1 os)
  obtain r1 m1 where u: "m_upload ops w c o1 m = (r1, m1)" by (rule prod.exhaust)
  note e = m_upload_errs[OF u]
  from Cons.prems consider "r = None" "\<exists>y err. m' = m_fail x err y"
    | off m2 where "upload_all ops w c x held os off m2 = (r, m')" "m_errs m2 = m_errs m"
    using u e by (auto split: if_splits sum.splits option.splits)
  then show ?case
  proof cases
    case 1
    then show ?thesis by auto
  next
    case (2 off m2)
    with Cons.IH Cons.prems(2) show ?thesis by simp
  qed
qed auto

lemma hide_all_errs: "m_errs m \<noteq> [] \<Longrightarrow> m_errs (hide_all ops w x ks m) \<noteq> []"
  by (induction ks arbitrary: m) (auto simp: Let_def split: prod.splits option.splits)

lemma m_hide_errs: "m_errs m \<noteq> [] \<Longrightarrow> m_errs (m_hide ops w c x device os held m) \<noteq> []"
  by (auto simp: m_hide_def Let_def hide_all_errs split: prod.splits)

lemma m_record_errs: "m_errs m \<noteq> [] \<Longrightarrow> m_errs (m_record c x device n m) \<noteq> []"
  by (auto simp: m_record_def split: option.splits sum.splits)

lemma m_device_errs:
  assumes "m_device pages ops w c device os m = Some m'" and "m_errs m \<noteq> []"
  shows "m_errs m' \<noteq> []"
  using assms(1)
proof (cases rule: m_device_cases)
  case (3 held m1)
  from upload_all_errs[OF 3(2)] show ?thesis by simp
next
  case (4 held m1 n m2)
  from upload_all_errs[OF 4(2)] mirrored_errs[OF 4(1)] assms(2) have "m_errs m2 \<noteq> []" by simp
  with 4(3) show ?thesis by (simp add: m_hide_errs m_record_errs)
qed (use assms(2) in simp_all)

text \<open>
  The root of a target holds an object throughout a run, with bytes in \<open>V\<close>, and no listing of
  it misses the object.
\<close>

definition held_throughout :: "'e mirror_world \<Rightarrow> int \<Rightarrow> string \<Rightarrow> string set \<Rightarrow> bool" where
  "held_throughout w t k V \<longleftrightarrow>
     (\<forall>n. case mw_local w t n of (le, root) \<Rightarrow> ordered_root root \<and> \<not> le_gone le k \<and> (\<exists>v \<in> V. local_objs root k = Some v))"

lemma held_throughoutD:
  assumes "held_throughout w t k V" and "mw_local w t n = (le, root)"
  obtains v where "ordered_root root" "\<not> le_gone le k" "local_objs root k = Some v" "v \<in> V"
  using spec[OF assms(1)[unfolded held_throughout_def], of n] assms(2) by auto

lemma held_throughout_key:
  assumes "held_throughout w t k V"
  shows "device_key k"
proof -
  obtain le root where "mw_local w t 0 = (le, root)" by (rule prod.exhaust)
  with assms obtain v where "ordered_root root" "local_objs root k = Some v" by (rule held_throughoutD)
  then show ?thesis by (rule root_key)
qed

text \<open>Every view of a root is well-formed and holds keys of one set only.\<close>

definition roots_within :: "'e mirror_world \<Rightarrow> string set \<Rightarrow> bool" where
  "roots_within w K \<longleftrightarrow> (\<forall>t n. fs_wf (snd (mw_local w t n)) \<and> dom (local_objs (snd (mw_local w t n))) \<subseteq> K)"

lemma card_after_less:
  assumes "finite K" and "(q :: string) \<in> K" and "p < q"
  shows "card {k \<in> K. q < k} < card {k \<in> K. p < k}"
  using assms by (intro psubset_card_mono) auto

text \<open>ErrExists is documented as the answer for a key that is already present.\<close>

definition exists_means_held :: "('e, 's) ObjectStore \<Rightarrow> ('s \<Rightarrow> bool) \<Rightarrow> ('s \<Rightarrow> string \<Rightarrow> string option) \<Rightarrow> bool" where
  "exists_means_held ops I objs \<longleftrightarrow>
     (\<forall>e s k b sz ow eof s'. I s \<longrightarrow> os_Put ops e s k b sz ow = (Inl ErrExists, eof, s') \<longrightarrow> objs s k \<noteq> None)"

context object_store_contract
begin

text \<open>What the listing of the bucket returns: keys of the device the bucket holds, and every one of them.\<close>

lemma mirrored_keys:
  assumes "mirrored n ops w device after held m = Some (r, m')" and "inv (m_remote m)"
  shows "m_remote m' = m_remote m \<and> m_db m' = m_db m \<and> (\<forall>held'. r = Inr held' \<longrightarrow> set held \<subseteq> set held'
    \<and> (\<forall>k \<in> set held'. k \<in> set held \<or> HasPrefix k (device @ ''/'') \<and> objs (m_remote m) k \<noteq> None)
    \<and> (\<forall>k v. objs (m_remote m) k = Some v \<and> HasPrefix k (device @ ''/'') \<and> after < k \<and> (\<forall>e. \<not> raced e k) \<longrightarrow> k \<in> set held')
    \<and> (distinct held \<longrightarrow> distinct held'))"
  using assms
proof (induction n arbitrary: after held m)
  case (Suc n)
  let ?e = "mw_remote w (m_tick m)"
  show ?case
  proof (cases "os_List ops ?e (m_remote m) (device @ ''/'') after listPage")
    case (Inl err)
    with Suc.prems show ?thesis by auto
  next
    case (Inr x)
    then obtain page tr where l: "os_List ops ?e (m_remote m) (device @ ''/'') after listPage = Inr (page, tr)" by (cases x) auto
    note sound = list_sound[OF Suc.prems(2) l] and comp = list_complete[OF Suc.prems(2) _ l]
    let ?held = "remdups (held @ map oi_Key page)"
    have all: "k \<in> set ?held" if "objs (m_remote m) k = Some v" "HasPrefix k (device @ ''/'')" "after < k" "\<forall>e. \<not> raced e k"
        "\<not> tr \<or> k \<le> oi_Key (last page)" for k v
      using comp[OF _ that(1-3) _ that(5)] that(4) by auto
    have old: "k \<in> set held \<or> HasPrefix k (device @ ''/'') \<and> objs (m_remote m) k \<noteq> None" if "k \<in> set ?held" for k
      using that sound by auto
    show ?thesis
    proof (cases "page \<noteq> [] \<and> tr")
      case True
      with Suc.prems(1) l have rec: "mirrored n ops w device (oi_Key (last page)) ?held (tick m) = Some (r, m')" by simp
      have inv': "inv (m_remote (tick m))" using Suc.prems(2) by simp
      note ih = Suc.IH[OF rec inv', simplified tick_simps]
      show ?thesis
      proof (intro conjI allI impI)
        fix held' assume r: "r = Inr held'"
        show "set held \<subseteq> set held'" using ih r by auto
        show "\<forall>k \<in> set held'. k \<in> set held \<or> HasPrefix k (device @ ''/'') \<and> objs (m_remote m) k \<noteq> None" using ih r old by blast
        show "distinct held \<Longrightarrow> distinct held'" using ih r by simp
        fix k v assume k: "objs (m_remote m) k = Some v \<and> HasPrefix k (device @ ''/'') \<and> after < k \<and> (\<forall>e. \<not> raced e k)"
        show "k \<in> set held'"
        proof (cases "k \<le> oi_Key (last page)")
          case True
          with all[of k v] k ih r show ?thesis by blast
        next
          case False
          with k ih r show ?thesis by (metis not_le)
        qed
      qed (use ih in auto)
    next
      case False
      define H where "H = (if page = [] then held else ?held)"
      from False Suc.prems(1) l have r: "r = Inr H" "m' = tick m" by (auto simp: H_def split: if_splits)
      have tr: "\<not> tr" using False list_sorted[OF Suc.prems(2) _ l] by auto
      have set_H: "set held \<subseteq> set H" "set H = set ?held" "distinct held \<Longrightarrow> distinct H" by (auto simp: H_def)
      have "\<forall>k v. objs (m_remote m) k = Some v \<and> HasPrefix k (device @ ''/'') \<and> after < k \<and> (\<forall>e. \<not> raced e k) \<longrightarrow> k \<in> set H"
        unfolding set_H(2) using all tr by blast
      moreover have "\<forall>k \<in> set H. k \<in> set held \<or> HasPrefix k (device @ ''/'') \<and> objs (m_remote m) k \<noteq> None"
        unfolding set_H(2) using old by blast
      ultimately show ?thesis using r set_H(1,3) by simp
    qed
  qed
qed simp

lemma m_upload_effect:
  assumes "m_upload ops w c o1 m = (r, m')" and "inv (m_remote m)"
  shows "inv (m_remote m') \<and> (\<forall>k. k \<noteq> oi_Key o1 \<longrightarrow> objs (m_remote m') k = objs (m_remote m) k) \<and> m_db m' = m_db m"
  using assms put_cases[OF assms(2)] put_other[OF assms(2)]
  by (auto simp: m_upload_def split: prod.splits sum.splits if_splits)

lemma upload_all_effect:
  assumes "upload_all ops w c x held os offsite m = (r, m')" and "inv (m_remote m)"
  shows "inv (m_remote m') \<and> (\<forall>k. k \<in> set held \<or> k \<notin> oi_Key ` set os \<longrightarrow> objs (m_remote m') k = objs (m_remote m) k) \<and> m_db m' = m_db m"
  using assms
proof (induction os arbitrary: offsite m)
  case (Cons o1 os)
  obtain r1 m1 where u: "m_upload ops w c o1 m = (r1, m1)" by (rule prod.exhaust)
  note e = m_upload_effect[OF u Cons.prems(2)]
  show ?case
  proof (cases "mw_ctx w (m_tick m) \<or> oi_Key o1 \<in> set held")
    case True
    with Cons.prems Cons.IH[of "offsite + oi_Size o1" "m\<lparr>m_skipped := Suc (m_skipped m)\<rparr>"] show ?thesis
      by (auto split: if_splits)
  next
    case False
    note p = Cons.prems(1)[simplified, unfolded u prod.case] and f = False
    show ?thesis
    proof (cases r1)
      case (Inl err)
      with p f have "m' = m_fail x err m1" by auto
      moreover have "k \<noteq> oi_Key o1" if "k \<in> set held \<or> k \<notin> oi_Key ` set (o1 # os)" for k using that f by auto
      ultimately show ?thesis using e by (simp only: m_fail_simps) blast
    next
      case (Inr q)
      with p f obtain off m2 where m2: "upload_all ops w c x held os off m2 = (r, m')" "m_remote m2 = m_remote m1" "m_db m2 = m_db m1"
        by (cases q) auto
      have "inv (m_remote m2)" using e m2(2) by simp
      note ih = Cons.IH[OF m2(1) this]
      show ?thesis
      proof (intro conjI allI impI)
        fix k assume k: "k \<in> set held \<or> k \<notin> oi_Key ` set (o1 # os)"
        then have "k \<noteq> oi_Key o1" "k \<in> set held \<or> k \<notin> oi_Key ` set os" using f by auto
        with ih e m2(2) show "objs (m_remote m') k = objs (m_remote m) k" by metis
      qed (use ih e m2(3) in simp_all)
    qed
  qed
qed simp

lemma hide_all_effect:
  assumes "inv (m_remote m)"
  shows "inv (m_remote (hide_all ops w x ks m)) \<and> (\<forall>k. k \<notin> set ks \<longrightarrow> objs (m_remote (hide_all ops w x ks m)) k = objs (m_remote m) k)
    \<and> m_db (hide_all ops w x ks m) = m_db m"
  using assms
proof (induction ks arbitrary: m)
  case (Cons k ks)
  obtain r s' where d: "os_Delete ops (mw_remote w (m_tick m)) (m_remote m) k = (r, s')" by (rule prod.exhaust)
  have e: "inv s'" "\<And>k'. k' \<noteq> k \<Longrightarrow> objs s' k' = objs (m_remote m) k'"
    using delete_cases[OF Cons.prems d] delete_other[OF Cons.prems d] by auto
  have "inv (m_remote ((tick m)\<lparr>m_remote := s', m_hidden := n\<rparr>))" "inv (m_remote ((tick m)\<lparr>m_remote := s'\<rparr>))" for n using e(1) by simp_all
  note ih = Cons.IH[OF this(1)] Cons.IH[OF this(2)]
  show ?case using ih e by (cases r) (auto simp: d Let_def)
qed simp

lemma m_hide_effect:
  assumes "inv (m_remote m)"
  shows "inv (m_remote (m_hide ops w c x device os held m))
    \<and> (\<forall>k. k \<notin> set (gone_keys os held) \<longrightarrow> objs (m_remote (m_hide ops w c x device os held m)) k = objs (m_remote m) k)"
  using assms hide_all_effect by (auto simp: m_hide_def Let_def split: prod.splits)

text \<open>A visit keeps the invariant, and everything but the device's own keys.\<close>

lemma m_device_inv:
  assumes "m_device pages ops w c device os m = Some m'" and "inv (m_remote m)"
  shows "inv (m_remote m')"
  using assms(1)
proof (cases rule: m_device_cases)
  case (2 err m1)
  with mirrored_keys[OF 2(1) assms(2)] assms(2) show ?thesis by simp
next
  case (3 held m1)
  from mirrored_keys[OF 3(1) assms(2)] assms(2) have "inv (m_remote m1)" by simp
  from upload_all_effect[OF 3(2) this] show ?thesis by simp
next
  case (4 held m1 n m2)
  from mirrored_keys[OF 4(1) assms(2)] assms(2) have "inv (m_remote m1)" by simp
  from upload_all_effect[OF 4(2) this] have "inv (m_remote m2)" by simp
  from m_hide_effect[OF this] 4(3) show ?thesis by simp
qed (use assms(2) in simp)

lemma m_device_keeps:
  assumes "m_device pages ops w c device os m = Some m'" and "inv (m_remote m)" and "objs (m_remote m) k = Some v" and "\<forall>e. \<not> raced e k"
    and "CHR ''/'' \<notin> set device" and "k \<noteq> []" and "dev_of k = device \<longrightarrow> k \<in> oi_Key ` set os"
    and "\<forall>o1 \<in> set os. device_key (oi_Key o1) \<and> dev_of (oi_Key o1) = device"
  shows "objs (m_remote m') k = Some v"
proof -
  have kin: "k \<in> set held \<or> k \<notin> oi_Key ` set os" and kout: "k \<notin> set (gone_keys os held)" and m1: "m_remote m1 = m_remote m"
    if l: "mirrored pages ops w device [] [] m = Some (Inr held, m1)" for held m1
  proof -
    note h = mirrored_keys[OF l assms(2)]
    show "m_remote m1 = m_remote m" using h by (rule conjunct1)
    have held: "\<And>k. k \<in> set held \<Longrightarrow> HasPrefix k (device @ ''/'')"
      "\<And>k v. objs (m_remote m) k = Some v \<Longrightarrow> HasPrefix k (device @ ''/'') \<Longrightarrow> [] < k \<Longrightarrow> \<forall>e. \<not> raced e k \<Longrightarrow> k \<in> set held"
      using h[THEN conjunct2, THEN conjunct2, rule_format, OF refl] by (simp_all only: list.set empty_iff simp_thms)
    show "k \<in> set held \<or> k \<notin> oi_Key ` set os"
    proof (cases "k \<in> oi_Key ` set os")
      case True
      then obtain o1 where "o1 \<in> set os" "k = oi_Key o1" by blast
      with assms(8) have d: "device_key k" "dev_of k = device" by simp_all
      from device_keyD[OF d(1)] d(2) have "HasPrefix k (device @ ''/'')" by blast
      moreover have "[] < k" using assms(6) by (cases k) simp_all
      ultimately have "k \<in> set held" using held(2)[OF assms(3)] assms(4) by blast
      then show ?thesis ..
    qed simp
    show "k \<notin> set (gone_keys os held)"
    proof
      assume "k \<in> set (gone_keys os held)"
      then have g: "k \<in> set held" "k \<notin> oi_Key ` set os" by (simp_all add: gone_keys_def)
      from dev_of_prefix[OF held(1)[OF g(1)] assms(5)] assms(7) g(2) show False by simp
    qed
  qed
  have up: "objs (m_remote m2) k = Some v" "inv (m_remote m2)"
    if l: "mirrored pages ops w device [] [] m = Some (Inr held, m1)" and u: "upload_all ops w c x held os n m1 = (r, m2)" for held m1 x n r m2
  proof -
    have "inv (m_remote m1)" using m1[OF l] assms(2) by simp
    note e = upload_all_effect[OF u this]
    show "objs (m_remote m2) k = Some v" "inv (m_remote m2)"
      using e[THEN conjunct1] e[THEN conjunct2, THEN conjunct1, rule_format, OF kin[OF l]] m1[OF l] assms(3) by simp_all
  qed
  from assms(1) show ?thesis
  proof (cases rule: m_device_cases)
    case (2 err m1)
    with mirrored_keys[OF 2(1) assms(2)] assms(3) show ?thesis by simp
  next
    case (3 held m1)
    from up(1)[OF 3] show ?thesis .
  next
    case (4 held m1 n m2)
    from m_hide_effect[OF up(2)[OF 4(1,2)]] kout[OF 4(1)] up(1)[OF 4(1,2)] 4(3) show ?thesis by simp
  qed (use assms(3) in simp)
qed

lemma m_device_other:
  assumes "m_device pages ops w c device os m = Some m'" and "inv (m_remote m)" and "CHR ''/'' \<notin> set device" and "dev_of k \<noteq> device"
    and "\<forall>o1 \<in> set os. dev_of (oi_Key o1) = device"
  shows "objs (m_remote m') k = objs (m_remote m) k"
proof -
  have kos: "k \<notin> oi_Key ` set os" using assms(4,5) by auto
  have up: "inv (m_remote m2)" "objs (m_remote m2) k = objs (m_remote m) k" "k \<notin> set held"
    if l: "mirrored pages ops w device [] [] m = Some (Inr held, m1)" and u: "upload_all ops w c x held os n m1 = (r, m2)" for held m1 x n r m2
  proof -
    note h = mirrored_keys[OF l assms(2)]
    have m1: "m_remote m1 = m_remote m" using h by (rule conjunct1)
    have "\<forall>k \<in> set held. k \<in> set [] \<or> HasPrefix k (device @ ''/'') \<and> objs (m_remote m) k \<noteq> None"
      using h[THEN conjunct2, THEN conjunct2, rule_format, OF refl] by (elim conjE)
    then show "k \<notin> set held" using dev_of_prefix[OF _ assms(3)] assms(4) by auto
    have "inv (m_remote m1)" using m1 assms(2) by simp
    note e = upload_all_effect[OF u this]
    show "inv (m_remote m2)" using e by (rule conjunct1)
    show "objs (m_remote m2) k = objs (m_remote m) k"
      using e[THEN conjunct2, THEN conjunct1, rule_format, OF disjI2, OF kos] m1 by simp
  qed
  from assms(1) show ?thesis
  proof (cases rule: m_device_cases)
    case (2 err m1)
    with mirrored_keys[OF 2(1) assms(2), THEN conjunct1] show ?thesis by simp
  next
    case (3 held m1)
    from up(2)[OF 3] show ?thesis .
  next
    case (4 held m1 n m2)
    have "k \<notin> set (gone_keys os held)" using up(3)[OF 4(1,2)] by (simp add: gone_keys_def)
    with m_hide_effect[OF up(1)[OF 4(1,2)], THEN conjunct2, rule_format] up(2)[OF 4(1,2)] 4(3) show ?thesis by simp
  qed simp
qed

text \<open>What a visit uploads are the bytes of the root.\<close>

lemma m_upload_bytes:
  assumes "m_upload ops w c o1 m = (r, m')" and "inv (m_remote m)" and "held_throughout w (ta_ID (mt_row c)) k V"
    and "objs (m_remote m) k = Some x \<Longrightarrow> x \<in> V" and "objs (m_remote m') k = Some x"
  shows "x \<in> V"
proof (cases "k = oi_Key o1")
  case True
  obtain le root where l: "mw_local w (ta_ID (mt_row c)) (m_tick m) = (le, root)" by (rule prod.exhaust)
  with assms(3) obtain v where v: "ordered_root root" "local_objs root k = Some v" "v \<in> V" by (rule held_throughoutD)
  show ?thesis
  proof (cases "local_Get le root (oi_Key o1) 0 (- 1)")
    case (Inl err)
    with assms(1) l have "m_remote m' = m_remote m" by (auto simp: m_upload_def)
    with assms(4,5) show ?thesis by simp
  next
    case (Inr g)
    then obtain rc info where g: "local_Get le root k 0 (- 1) = Inr (rc, info)" using True by (cases g) auto
    have wf: "fs_wf root" using v(1) by (simp add: ordered_root_def)
    have rc: "bd_data rc = v" if "bd_end rc = None"
      using lo.get_Inr[OF wf, of undefined undefined le k 0 "- 1" rc info] g v(2) that by (auto simp: local_ops_def byte_range_def)
    obtain r' eof s' where p: "os_Put ops (mw_remote w (m_tick m)) (m_remote m) k rc (oi_Size info) (mt_plain c) = (r', eof, s')"
      by (rule prod_cases3)
    have "m_remote m' = s'" using assms(1) l g p True by (auto simp: m_upload_def split: sum.splits)
    with put_cases[OF assms(2) p] rc v(3) assms(4,5) show ?thesis by auto
  qed
next
  case False
  with m_upload_effect[OF assms(1,2)] assms(4,5) show ?thesis by simp
qed

lemma upload_all_bytes:
  assumes "upload_all ops w c y held os offsite m = (r, m')" and "inv (m_remote m)" and "held_throughout w (ta_ID (mt_row c)) k V"
    and "objs (m_remote m) k = Some x \<Longrightarrow> x \<in> V" and "objs (m_remote m') k = Some x"
  shows "x \<in> V"
  using assms(1,2,4)
proof (induction os arbitrary: offsite m)
  case Nil
  then show ?case using assms(5) by simp
next
  case (Cons o1 os)
  obtain r1 m1 where u: "m_upload ops w c o1 m = (r1, m1)" by (rule prod.exhaust)
  have inv1: "inv (m_remote m1)" using m_upload_effect[OF u Cons.prems(2)] by (rule conjunct1)
  have b1: "objs (m_remote m1) k = Some x \<Longrightarrow> x \<in> V" using m_upload_bytes[OF u Cons.prems(2) assms(3) Cons.prems(3)] by blast
  from Cons.prems(1) u consider "m_remote m' = m_remote m" | "m_remote m' = m_remote m1"
    | off m2 where "upload_all ops w c y held os off m2 = (r, m')" "m_remote m2 = m_remote m \<or> m_remote m2 = m_remote m1"
    by (auto split: if_splits sum.splits option.splits)
  then show ?case
  proof cases
    case (3 off m2)
    show ?thesis
    proof (rule Cons.IH[OF 3(1)])
      show "inv (m_remote m2)" using 3(2) inv1 Cons.prems(2) by auto
      show "x \<in> V" if "objs (m_remote m2) k = Some x" using that 3(2) b1 Cons.prems(3) by auto
    qed
  qed (use assms(5) b1 Cons.prems(3) in simp_all)
qed

lemma m_device_bytes:
  assumes "m_device pages ops w c device os m = Some m'" and "inv (m_remote m)" and "held_throughout w (ta_ID (mt_row c)) k V"
    and "objs (m_remote m) k = Some x \<Longrightarrow> x \<in> V" and "objs (m_remote m') k = Some x" and "k \<in> oi_Key ` set os"
  shows "x \<in> V"
proof -
  have up: "inv (m_remote m2) \<and> (objs (m_remote m2) k = Some x \<longrightarrow> x \<in> V)"
    if l: "mirrored pages ops w device [] [] m = Some (Inr held, m1)" and u: "upload_all ops w c y held os n m1 = (r, m2)" for held m1 y n r m2
  proof -
    have m1: "m_remote m1 = m_remote m" using mirrored_keys[OF l assms(2)] by (rule conjunct1)
    then have inv1: "inv (m_remote m1)" using assms(2) by simp
    have "objs (m_remote m1) k = Some x \<Longrightarrow> x \<in> V" using assms(4) m1 by simp
    from upload_all_bytes[OF u inv1 assms(3) this] upload_all_effect[OF u inv1, THEN conjunct1] show ?thesis by blast
  qed
  from assms(1) show ?thesis
  proof (cases rule: m_device_cases)
    case (2 err m1)
    with mirrored_keys[OF 2(1) assms(2), THEN conjunct1] assms(4,5) show ?thesis by simp
  next
    case (3 held m1)
    from up[OF 3] assms(5) show ?thesis by blast
  next
    case (4 held m1 n m2)
    have "k \<notin> set (gone_keys os held)" using assms(6) by (simp add: gone_keys_def)
    with m_hide_effect[OF up[OF 4(1,2), THEN conjunct1], THEN conjunct2, rule_format] 4(3) assms(5) have "objs (m_remote m2) k = Some x" by simp
    with up[OF 4(1,2)] show ?thesis by blast
  qed (use assms(4,5) in simp)
qed

text \<open>
  A completed visit leaves every object of the device in the bucket. The provider answers a
  conditional write with ErrExists only where the key is there.
\<close>

lemma m_upload_holds:
  assumes "m_upload ops w c o1 m = (Inr q, m')" and "inv (m_remote m)" and "exists_means_held ops inv objs"
  shows "objs (m_remote m') (oi_Key o1) \<noteq> None"
proof -
  obtain le root where l: "mw_local w (ta_ID (mt_row c)) (m_tick m) = (le, root)" by (rule prod.exhaust)
  obtain rc info where g: "local_Get le root (oi_Key o1) 0 (- 1) = Inr (rc, info)"
    using assms(1) l by (auto simp: m_upload_def split: sum.splits)
  obtain r eof s' where p: "os_Put ops (mw_remote w (m_tick m)) (m_remote m) (oi_Key o1) rc (oi_Size info) (mt_plain c) = (r, eof, s')"
    by (rule prod_cases3)
  show ?thesis
  proof (cases r)
    case (Inl err)
    with assms(1) l g p have "err = ErrExists" "m_remote m' = s'" by (auto simp: m_upload_def split: if_splits)
    moreover have "objs (m_remote m) (oi_Key o1) \<noteq> None"
      using assms(3)[unfolded exists_means_held_def, rule_format, OF assms(2)] p Inl \<open>err = ErrExists\<close> by blast
    ultimately show ?thesis using put_Inl[OF assms(2) p[unfolded Inl]] by auto
  next
    case (Inr i)
    with assms(1) l g p have "m_remote m' = s'" by (auto simp: m_upload_def)
    with put_Inr[OF assms(2) p[unfolded Inr]] show ?thesis by simp
  qed
qed

lemma upload_all_holds:
  assumes "upload_all ops w c x held os offsite m = (Some n, m')" and "inv (m_remote m)" and "exists_means_held ops inv objs"
    and "k \<in> oi_Key ` set os" and "k \<notin> set held"
  shows "objs (m_remote m') k \<noteq> None"
  using assms(1,2,4)
proof (induction os arbitrary: offsite m)
  case (Cons o1 os)
  have nctx: "\<not> mw_ctx w (m_tick m)" using Cons.prems(1) by auto
  show ?case
  proof (cases "oi_Key o1 \<in> set held")
    case True
    with nctx Cons.prems(1) have u: "upload_all ops w c x held os (offsite + oi_Size o1) (m\<lparr>m_skipped := Suc (m_skipped m)\<rparr>) = (Some n, m')" by simp
    have "k \<in> oi_Key ` set os" using Cons.prems(3) True assms(5) by auto
    with Cons.IH[OF u] Cons.prems(2) show ?thesis by simp
  next
    case False
    obtain r1 m1 where u1: "m_upload ops w c o1 m = (r1, m1)" by (rule prod.exhaust)
    with False nctx Cons.prems(1) obtain q where q: "r1 = Inr q" by (cases r1) auto
    from False nctx Cons.prems(1) u1 q obtain off m2 where u2: "upload_all ops w c x held os off m2 = (Some n, m')" "m_remote m2 = m_remote m1"
      by (cases q) auto
    have inv2: "inv (m_remote m2)" using m_upload_effect[OF u1 Cons.prems(2)] u2(2) by simp
    have k1: "objs (m_remote m2) (oi_Key o1) \<noteq> None" using m_upload_holds[OF u1[unfolded q] Cons.prems(2) assms(3)] u2(2) by simp
    show ?thesis
    proof (cases "k \<in> oi_Key ` set os")
      case True
      from Cons.IH[OF u2(1) inv2 this] show ?thesis .
    next
      case False
      with Cons.prems(3) have "k = oi_Key o1" by auto
      with k1 False upload_all_effect[OF u2(1) inv2] show ?thesis by simp
    qed
  qed
qed simp

lemma m_device_holds:
  assumes "m_device pages ops w c device os m = Some m'" and "inv (m_remote m)" and "exists_means_held ops inv objs"
    and "k \<in> oi_Key ` set os" and "device \<noteq> []"
  shows "objs (m_remote m') k \<noteq> None \<or> m_errs m' \<noteq> []"
  using assms(1)
proof (cases rule: m_device_cases)
  case (3 held m1)
  from upload_all_errs[OF 3(2)] show ?thesis by simp
next
  case (4 held m1 n m2)
  note h = mirrored_keys[OF 4(1) assms(2)]
  have m1: "m_remote m1 = m_remote m" using h by (rule conjunct1)
  have inv1: "inv (m_remote m1)" using m1 assms(2) by simp
  note e = upload_all_effect[OF 4(2) inv1]
  have "objs (m_remote m2) k \<noteq> None"
  proof (cases "k \<in> set held")
    case True
    have "\<forall>k \<in> set held. k \<in> set [] \<or> HasPrefix k (device @ ''/'') \<and> objs (m_remote m) k \<noteq> None"
      using h[THEN conjunct2, THEN conjunct2, rule_format, OF refl] by (elim conjE)
    with True have "objs (m_remote m) k \<noteq> None" by simp
    with e[THEN conjunct2, THEN conjunct1, rule_format, OF disjI1, OF True] m1 show ?thesis by simp
  next
    case False
    from upload_all_holds[OF 4(2) inv1 assms(3,4) False] show ?thesis .
  qed
  moreover have "k \<notin> set (gone_keys os held)" using assms(4) by (simp add: gone_keys_def)
  ultimately have "objs (m_remote m') k \<noteq> None"
    using m_hide_effect[OF e[THEN conjunct1], THEN conjunct2, rule_format] 4(3) by simp
  then show ?thesis ..
next
  case 1
  then show ?thesis using assms(4,5) by auto
next
  case (2 err m1)
  then show ?thesis by simp
qed

end

subsection \<open>The walk\<close>

text \<open>
  The walk has read the keys up to \<open>p\<close> and is collecting the objects of \<open>device\<close>. It visits
  the device of a key \<open>k\<close> exactly once, with \<open>k\<close> among its objects; \<open>A\<close> holds before that
  visit and \<open>B\<close> after it.
\<close>

definition visit_ok :: "string \<Rightarrow> ObjectInfo list \<Rightarrow> bool" where
  "visit_ok device os \<longleftrightarrow> CHR ''/'' \<notin> set device \<and> (\<forall>o1 \<in> set os. device_key (oi_Key o1) \<and> dev_of (oi_Key o1) = device)"

definition walk_at :: "string \<Rightarrow> string \<Rightarrow> string \<Rightarrow> ObjectInfo list \<Rightarrow> bool" where
  "walk_at k p device os \<longleftrightarrow> (device = [] \<and> p = [] \<and> os = [] \<or> device_key p \<and> dev_of p = device) \<and> visit_ok device os
     \<and> (dev_of k = device \<and> k \<le> p \<longrightarrow> k \<in> oi_Key ` set os)"

definition passed :: "string \<Rightarrow> string \<Rightarrow> string \<Rightarrow> bool" where
  "passed k p device \<longleftrightarrow> k \<le> p \<and> dev_of k \<noteq> device"

definition walked :: "('s mirrorRun \<Rightarrow> bool) \<Rightarrow> ('s mirrorRun \<Rightarrow> bool) \<Rightarrow> string \<Rightarrow> string \<Rightarrow> string \<Rightarrow> ObjectInfo list \<Rightarrow> 's mirrorRun \<Rightarrow> bool" where
  "walked A B k p device os m \<longleftrightarrow> walk_at k p device os \<and> (if passed k p device then B m else A m)"

lemma device_key_pos: "device_key k \<Longrightarrow> k \<noteq> []" "device_key k \<Longrightarrow> \<not> k \<le> []" "device_key k \<Longrightarrow> dev_of k \<noteq> []"
  by (auto simp: device_key_def dev_of_def)

locale device_walk =
  fixes pages :: nat and ops :: "('e, 's) ObjectStore" and w :: "'e mirror_world" and c :: mirror_target and k :: string
    and A B :: "'s mirrorRun \<Rightarrow> bool"
  assumes other_A: "m_device pages ops w c device os m = Some m' \<Longrightarrow> visit_ok device os \<Longrightarrow> dev_of k \<noteq> device \<Longrightarrow> A m \<Longrightarrow> A m'"
    and other_B: "m_device pages ops w c device os m = Some m' \<Longrightarrow> visit_ok device os \<Longrightarrow> dev_of k \<noteq> device \<Longrightarrow> B m \<Longrightarrow> B m'"
    and own: "m_device pages ops w c device os m = Some m' \<Longrightarrow> visit_ok device os \<Longrightarrow> dev_of k = device \<Longrightarrow> k \<in> oi_Key ` set os \<Longrightarrow> A m \<Longrightarrow> B m'"
    and fail: "A m \<or> B m \<Longrightarrow> B (m_fail x err m)"
    and ticks: "A m \<Longrightarrow> A (tick m)" "B m \<Longrightarrow> B (tick m)"
begin

text \<open>A new device begins: the old one is complete.\<close>

lemma next_device:
  assumes key: "device_key k" and "walked A B k p device os m" and "device_key q" and "p < q" and "dev_of q \<noteq> device" and "p < k \<longrightarrow> q \<le> k"
    and "m_device pages ops w c device os m = Some m'" and "oi_Key o1 = q"
  shows "walked A B k q (dev_of q) [o1] m'"
proof -
  have p: "device = [] \<and> p = [] \<and> os = [] \<or> device_key p \<and> dev_of p = device" and v: "visit_ok device os"
    and seen: "dev_of k = device \<Longrightarrow> k \<le> p \<Longrightarrow> k \<in> oi_Key ` set os" and AB: "if passed k p device then B m else A m"
    using assms(2) by (auto simp: walked_def walk_at_def)
  have le: "k \<le> p" if "dev_of k = device"
  proof (rule ccontr)
    assume "\<not> k \<le> p"
    then have "p < k" by simp
    with assms(6) have "q \<le> k" by simp
    from p that device_key_pos(3)[OF key] have "device_key p" "dev_of p = dev_of k" by auto
    from device_contiguous[OF this(1) key this(2) less_imp_le[OF assms(4)] \<open>q \<le> k\<close>] this(2) that assms(5) show False by simp
  qed
  have q: "k = q" if "dev_of k = dev_of q" "k \<le> q"
  proof (rule ccontr)
    assume "k \<noteq> q"
    with that(2) assms(6) have kp: "k \<le> p" by (cases "p < k") auto
    with p device_key_pos(2)[OF key] have "device_key p" "dev_of p = device" by auto
    with device_contiguous[OF key assms(3) that(1) kp less_imp_le[OF assms(4)]] that(1) assms(5) show False by simp
  qed
  have "walk_at k q (dev_of q) [o1]" using assms(3,8) q dev_of_no_slash by (auto simp: walk_at_def visit_ok_def)
  moreover have "if passed k q (dev_of q) then B m' else A m'"
  proof (cases "dev_of k = device")
    case True
    with le seen AB have "k \<in> oi_Key ` set os" "A m" by (auto simp: passed_def)
    from own[OF assms(7) v True this] have "B m'" .
    moreover have "passed k q (dev_of q)" using le[OF True] True assms(4,5) by (auto simp: passed_def)
    ultimately show ?thesis by simp
  next
    case False
    show ?thesis
    proof (cases "k \<le> p")
      case True
      with AB False have "B m" by (simp add: passed_def)
      from other_B[OF assms(7) v False this] have "B m'" .
      moreover have "passed k q (dev_of q)" using le_less_trans[OF True assms(4)] q[OF _ less_imp_le] by (auto simp: passed_def)
      ultimately show ?thesis by simp
    next
      case beyond: False
      from beyond AB have "A m" by (simp add: passed_def)
      from other_A[OF assms(7) v False this] have "A m'" .
      moreover have "\<not> passed k q (dev_of q)" using beyond assms(6) by (auto simp: passed_def)
      ultimately show ?thesis by simp
    qed
  qed
  ultimately show ?thesis by (simp add: walked_def)
qed

lemma same_device:
  assumes "walked A B k p device os m" and "device_key (oi_Key o1)" and "dev_of (oi_Key o1) = device" and "p < oi_Key o1" and "p < k \<longrightarrow> oi_Key o1 \<le> k"
  shows "walked A B k (oi_Key o1) device (os @ [o1]) m"
proof -
  have "k \<le> p \<or> k = oi_Key o1" if "k \<le> oi_Key o1" using that assms(5) by (cases "p < k") auto
  moreover have "k \<le> oi_Key o1" if "k \<le> p" using that assms(4) by simp
  ultimately show ?thesis using assms(1-3) dev_of_no_slash[of "oi_Key o1"]
    by (auto simp: walked_def walk_at_def visit_ok_def passed_def split: if_splits)
qed

lemma walk_page_visits:
  assumes "device_key k" and "walk_page pages ops w c page device os m = Some (device', os', m')" and "walked A B k p device os m"
    and "sorted_wrt (<) (p # map oi_Key page)" and "\<forall>o1 \<in> set page. device_key (oi_Key o1)"
    and "p < k \<longrightarrow> k \<in> oi_Key ` set page \<or> (\<forall>o1 \<in> set page. oi_Key o1 < k)"
  shows "walked A B k (last (p # map oi_Key page)) device' os' m'"
  using assms(2-)
proof (induction page arbitrary: p device os m)
  case (Cons o1 page)
  have key: "device_key (oi_Key o1)" "p < oi_Key o1" using Cons.prems(3,4) by simp_all
  have cov: "p < k \<longrightarrow> oi_Key o1 \<le> k" using Cons.prems(3,5) by auto
  obtain n where cut: "Cut (oi_Key o1) CHR ''/'' = (dev_of (oi_Key o1), n, True)" "dev_of (oi_Key o1) \<noteq> []"
    using device_keyD[OF key(1)] by blast
  have rest: "sorted_wrt (<) (oi_Key o1 # map oi_Key page)" "\<forall>o1 \<in> set page. device_key (oi_Key o1)"
    "oi_Key o1 < k \<longrightarrow> k \<in> oi_Key ` set page \<or> (\<forall>o1 \<in> set page. oi_Key o1 < k)"
    using Cons.prems(3,4,5) by auto
  show ?case
  proof (cases "dev_of (oi_Key o1) = device")
    case True
    with Cons.prems(1) cut have "walk_page pages ops w c page device (os @ [o1]) m = Some (device', os', m')" by simp
    from Cons.IH[OF this same_device[OF Cons.prems(2) key(1) True key(2) cov] rest] show ?thesis by simp
  next
    case False
    with Cons.prems(1) cut obtain m1 where m1: "m_device pages ops w c device os m = Some m1"
      "walk_page pages ops w c page (dev_of (oi_Key o1)) [o1] m1 = Some (device', os', m')"
      by (auto split: option.splits)
    from Cons.IH[OF m1(2) next_device[OF assms(1) Cons.prems(2) key False cov m1(1) refl] rest] show ?thesis by simp
  qed
qed simp

text \<open>The last device of the walk.\<close>

lemma last_device:
  assumes "walked A B k p device os m" and "k \<le> p" and "m_device pages ops w c device os m = Some m'"
  shows "B m'"
  using assms own[OF assms(3)] other_B[OF assms(3)] by (auto simp: walked_def walk_at_def passed_def split: if_splits)

lemma m_walk_visits:
  assumes "device_key k" and "held_throughout w (ta_ID (mt_row c)) k V"
    and "m_walk fuel pages ops w c p device os m = Some m'" and "walked A B k p device os m"
  shows "B m'"
  using assms(3,4)
proof (induction fuel arbitrary: p device os m)
  case (Suc fuel)
  obtain le root where l: "mw_local w (ta_ID (mt_row c)) (m_tick m) = (le, root)" by (rule prod.exhaust)
  obtain v where root: "ordered_root root" "local_objs root k = Some v" "\<not> le_gone le k"
    using assms(2) l by (rule held_throughoutD)
  have t: "walked A B k p device os (tick m)" using Suc.prems(2) ticks by (simp add: walked_def)
  show ?case
  proof (cases "local_List le root [] p listPage")
    case (Inl err)
    with Suc.prems(1) l have "m' = m_fail (ta_Name (mt_row c)) (ListRoot err) (tick m)" by simp
    moreover have "A (tick m) \<or> B (tick m)" using t by (simp add: walked_def split: if_splits)
    ultimately show ?thesis using fail by blast
  next
    case (Inr x)
    then obtain page tr where page: "local_List le root [] p listPage = Inr (page, tr)" by (cases x) auto
    note rp = root_page[OF root(1) page]
    note cov = rp(3)[OF root(2) _ root(3)]
    have srt: "sorted_wrt (<) (p # map oi_Key page)" "\<forall>o1 \<in> set page. device_key (oi_Key o1)"
      using rp(1,2) by auto
    show ?thesis
    proof (cases "page = []")
      case True
      then have "\<not> tr" using rp(4) by blast
      with True cov have "\<not> p < k" by auto
      then have "k \<le> p" by simp
      moreover have "m_device pages ops w c device os (tick m) = Some m'" using True Suc.prems(1) l page by simp
      ultimately show ?thesis by (rule last_device[OF t])
    next
      case False
      then obtain d' os' m1 where m1: "walk_page pages ops w c page device os (tick m) = Some (d', os', m1)"
        using Suc.prems(1) l page by (cases "walk_page pages ops w c page device os (tick m)") auto
      let ?q = "oi_Key (last page)"
      have q: "last (p # map oi_Key page) = ?q" using False by (simp add: last_map)
      have "p < k \<longrightarrow> k \<in> oi_Key ` set page \<or> (\<forall>o1 \<in> set page. oi_Key o1 < k)" using cov by blast
      from walk_page_visits[OF assms(1) m1 t srt this] have w1: "walked A B k ?q d' os' m1" unfolding q .
      show ?thesis
      proof (cases tr)
        case True
        with Suc.prems(1) l page False m1 have "m_walk fuel pages ops w c ?q d' os' m1 = Some m'" by simp
        from Suc.IH[OF this w1] show ?thesis .
      next
        case ntr: False
        have last: "oi_Key o1 \<le> ?q" if "o1 \<in> set page" for o1
          using srt(1) that False by (cases page rule: rev_cases) (auto simp: sorted_wrt_append less_imp_le)
        have "p < ?q" using rp(2)[of "last page"] False by simp
        have "k \<le> ?q"
        proof (cases "p < k")
          case True
          from cov[OF this] ntr have "k \<in> oi_Key ` set page" by blast
          then show ?thesis using last by blast
        qed (use \<open>p < ?q\<close> in simp)
        moreover have "m_device pages ops w c d' os' m1 = Some m'" using Suc.prems(1) l page False m1 ntr by simp
        ultimately show ?thesis by (rule last_device[OF w1])
      qed
    qed
  qed
qed simp

end

subsection \<open>The job\<close>

lemma walk_start: "device_key k \<Longrightarrow> walked A B k [] [] [] m \<longleftrightarrow> A m"
  using device_key_pos by (simp add: walked_def walk_at_def visit_ok_def passed_def)

text \<open>The walk over a key that the bucket holds, and over one it may lack.\<close>

sublocale object_store_contract < keeping: device_walk pages ops w c k
  "\<lambda>m. k \<noteq> [] \<and> (\<forall>e. \<not> raced e k) \<and> inv (m_remote m) \<and> objs (m_remote m) k = Some v"
  "\<lambda>m. k \<noteq> [] \<and> (\<forall>e. \<not> raced e k) \<and> inv (m_remote m) \<and> objs (m_remote m) k = Some v" for pages w c k v
  by unfold_locales (auto simp: visit_ok_def m_device_inv intro: m_device_keeps)

sublocale object_store_contract < filling: device_walk pages ops w c k
  "\<lambda>m. exists_means_held ops inv objs \<and> held_throughout w (ta_ID (mt_row c)) k V \<and> inv (m_remote m) \<and> (\<forall>x. objs (m_remote m) k = Some x \<longrightarrow> x \<in> V)"
  "\<lambda>m. inv (m_remote m) \<and> (\<forall>x. objs (m_remote m) k = Some x \<longrightarrow> x \<in> V) \<and> (m_errs m = [] \<longrightarrow> objs (m_remote m) k \<noteq> None)"
  for pages w c k V
proof (unfold_locales, goal_cases)
  case (1 device os m m')
  then show ?case using m_device_inv[OF 1(1)] m_device_other[OF 1(1)] by (auto simp: visit_ok_def)
next
  case (2 device os m m')
  then show ?case using m_device_inv[OF 2(1)] m_device_errs[OF 2(1)] m_device_other[OF 2(1)] by (auto simp: visit_ok_def)
next
  case (3 device os m m')
  then have "device \<noteq> []" by (auto simp: visit_ok_def dest: device_key_pos(3))
  with 3 m_device_inv[OF 3(1)] m_device_holds[OF 3(1)] m_device_bytes[OF 3(1)] show ?case by blast
qed auto

lemma walk_page_errs:
  "walk_page pages ops w c page device os m = Some (device', os', m') \<Longrightarrow> m_errs m \<noteq> [] \<Longrightarrow> m_errs m' \<noteq> []"
proof (induction page arbitrary: device os m)
  case (Cons o1 page)
  obtain d n ok where "Cut (oi_Key o1) CHR ''/'' = (d, n, ok)" by (rule prod_cases3)
  with Cons.prems(1) consider os1 where "walk_page pages ops w c page device os1 m = Some (device', os', m')"
    | m1 where "m_device pages ops w c device os m = Some m1" "walk_page pages ops w c page d [o1] m1 = Some (device', os', m')"
    by (auto split: if_splits option.splits)
  then show ?case
  proof cases
    case (1 os1)
    from Cons.IH[OF 1 Cons.prems(2)] show ?thesis .
  next
    case (2 m1)
    from Cons.IH[OF 2(2) m_device_errs[OF 2(1) Cons.prems(2)]] show ?thesis .
  qed
qed simp

lemma m_walk_errs:
  "m_walk n pages ops w c p device os m = Some m' \<Longrightarrow> m_errs m \<noteq> [] \<Longrightarrow> m_errs m' \<noteq> []"
proof (induction n arbitrary: p device os m)
  case (Suc n)
  have t: "m_errs (tick m) \<noteq> []" using Suc.prems(2) by simp
  from Suc.prems(1) consider err where "m' = m_fail (ta_Name (mt_row c)) (ListRoot err) (tick m)"
    | "m_device pages ops w c device os (tick m) = Some m'"
    | page d' os' m1 where "walk_page pages ops w c page device os (tick m) = Some (d', os', m1)"
        "m_device pages ops w c d' os' m1 = Some m' \<or> m_walk n pages ops w c (oi_Key (last page)) d' os' m1 = Some m'"
    by (auto split: prod.splits sum.splits if_splits option.splits)
  then show ?case
  proof cases
    case 2
    from m_device_errs[OF this t] show ?thesis .
  next
    case (3 page d' os' m1)
    note m1 = walk_page_errs[OF 3(1) t]
    from 3(2) show ?thesis using m_device_errs[OF _ m1] Suc.IH[OF _ m1] by blast
  qed simp
qed simp

text \<open>A target is either given up before its bucket is touched, or walked.\<close>

lemma m_target_cases:
  assumes "m_target pages ops open_sealed creds opens w c (m, b) = Some (m', b')"
  obtains err where "m' = m_fail (ta_Name (mt_row c)) err m" "b' = b"
  | c' where "m_walk pages pages ops w c' [] [] [] (tick (m\<lparr>m_remote := b (bucket_of (mt_row c))\<rparr>)) = Some m'"
      "b' = b(bucket_of (mt_row c) := m_remote m')" "mt_row c' = mt_row c" "mt_now c' = mt_now c"
      "mt_hidePercent c' = mt_hidePercent c" "mt_hideMin c' = mt_hideMin c"
proof -
  define m0 where "m0 = m\<lparr>m_remote := b (bucket_of (mt_row c))\<rparr>"
  define c' where "c' = c\<lparr>mt_plain := (ta_MirrorConditionalPut (mt_row c) = Some False),
     mt_versioned := os_Versioned ops (mw_remote w (m_tick m)) (m_remote m0)\<rparr>"
  from assms consider err where "m' = m_fail (ta_Name (mt_row c)) err m" "b' = b"
    | "map_option (\<lambda>m'. (m', b(bucket_of (mt_row c) := m_remote m'))) (m_walk pages pages ops w c' [] [] [] (tick m0)) = Some (m', b')"
    by (auto simp: m_target_def Let_def m0_def c'_def split: if_splits option.splits sum.splits)
  then show thesis
  proof cases
    case 1
    with that(1) show thesis .
  next
    case 2
    then have "m_walk pages pages ops w c' [] [] [] (tick m0) = Some m'" "b' = b(bucket_of (mt_row c) := m_remote m')" by auto
    then show thesis using that(2)[of c'] by (simp add: m0_def c'_def)
  qed
qed

lemma m_target_errs:
  assumes "m_target pages ops open_sealed creds opens w c (m, b) = Some (m', b')" and "m_errs m \<noteq> []"
  shows "m_errs m' \<noteq> []"
  using assms(1)
proof (cases rule: m_target_cases)
  case (2 c')
  from m_walk_errs[OF 2(1)] assms(2) show ?thesis by simp
qed simp

text \<open>The targets the job mirrors, and what it does with the first of a list of rows.\<close>

definition mirrors :: "Target \<Rightarrow> string \<times> string \<times> string \<Rightarrow> bool" where
  "mirrors t B \<longleftrightarrow> ta_Kind t = ''hosted'' \<and> ta_StorageMode t = ''disk'' \<and> ta_MirrorKind t \<noteq> [] \<and> bucket_of t = B"

definition target_start :: "gotime \<Rightarrow> int \<Rightarrow> int \<Rightarrow> Target \<Rightarrow> mirror_target" where
  "target_start now pct mn t = \<lparr>mt_row = t, mt_now = now, mt_hidePercent = pct, mt_hideMin = mn, mt_versioned = False, mt_plain = False\<rparr>"

lemma target_start_simps [simp]: "mt_row (target_start now pct mn t) = t" "mt_now (target_start now pct mn t) = now"
  "mt_hidePercent (target_start now pct mn t) = pct" "mt_hideMin (target_start now pct mn t) = mn"
  by (simp_all add: target_start_def)

lemma m_targets_cases:
  assumes "m_targets pages ops open_sealed creds opens w now pct mn (t # rows) (m, b) = Some (m', b')"
  obtains "m' = m_fail ''mirror'' CtxErr m" "b' = b"
  | "m_targets pages ops open_sealed creds opens w now pct mn rows (m, b) = Some (m', b')" "\<not> mirrors t (bucket_of t)"
  | m1 b1 where "mirrors t (bucket_of t)" "m_target pages ops open_sealed creds opens w (target_start now pct mn t) (m, b) = Some (m1, b1)"
      "m_targets pages ops open_sealed creds opens w now pct mn rows (m1, b1) = Some (m', b')"
  using assms by (auto simp: mirrors_def target_start_def split: if_splits option.splits)

lemma m_targets_errs:
  "m_targets pages ops open_sealed creds opens w now pct mn rows (m, b) = Some (m', b') \<Longrightarrow> m_errs m \<noteq> [] \<Longrightarrow> m_errs m' \<noteq> []"
proof (induction rows arbitrary: m b)
  case (Cons t rows)
  from Cons.prems(1) show ?case
  proof (cases rule: m_targets_cases)
    case 2
    from Cons.IH[OF 2(1) Cons.prems(2)] show ?thesis .
  next
    case (3 m1 b1)
    from Cons.IH[OF 3(3) m_target_errs[OF 3(2) Cons.prems(2)]] show ?thesis .
  qed simp
qed simp

context object_store_contract
begin

lemma m_target_keeps:
  assumes "m_target pages ops open_sealed creds opens w c (m, b) = Some (m', b')" and "inv (b B)" and "objs (b B) k = Some v" and "\<forall>e. \<not> raced e k"
    and "bucket_of (mt_row c) = B \<Longrightarrow> held_throughout w (ta_ID (mt_row c)) k V"
  shows "inv (b' B) \<and> objs (b' B) k = Some v"
  using assms(1)
proof (cases rule: m_target_cases)
  case (2 c')
  show ?thesis
  proof (cases "bucket_of (mt_row c) = B")
    case True
    then have h: "held_throughout w (ta_ID (mt_row c')) k V" using assms(5) 2(3) by simp
    note key = held_throughout_key[OF h]
    from keeping.m_walk_visits[OF key h 2(1), of v] assms(2-4) device_key_pos(1)[OF key] True 2(2)
    show ?thesis by (simp add: walk_start[OF key])
  qed (use 2(2) assms(2,3) in simp)
qed (use assms(2,3) in simp)

lemma m_target_fills:
  assumes "m_target pages ops open_sealed creds opens w c (m, b) = Some (m', b')" and "inv (b B)" and "exists_means_held ops inv objs"
    and "bucket_of (mt_row c) = B \<Longrightarrow> held_throughout w (ta_ID (mt_row c)) k V" and "\<forall>x. objs (b B) k = Some x \<longrightarrow> x \<in> V"
  shows "inv (b' B) \<and> (\<forall>x. objs (b' B) k = Some x \<longrightarrow> x \<in> V) \<and> (bucket_of (mt_row c) = B \<and> m_errs m' = [] \<longrightarrow> objs (b' B) k \<noteq> None)"
  using assms(1)
proof (cases rule: m_target_cases)
  case (2 c')
  show ?thesis
  proof (cases "bucket_of (mt_row c) = B")
    case True
    then have h: "held_throughout w (ta_ID (mt_row c')) k V" using assms(4) 2(3) by simp
    note key = held_throughout_key[OF h]
    from filling.m_walk_visits[OF key h 2(1), of V] assms(2,3,5) h True 2(2)
    show ?thesis by (simp add: walk_start[OF key])
  qed (use 2(2) assms(2,5) in simp)
qed (use assms(2,5) in simp)

lemma m_targets_keeps:
  assumes "m_targets pages ops open_sealed creds opens w now pct mn rows (m, b) = Some (m', b')" and "inv (b B)" and "objs (b B) k = Some v"
    and "\<forall>e. \<not> raced e k" and "\<forall>t \<in> set rows. mirrors t B \<longrightarrow> held_throughout w (ta_ID t) k V"
  shows "inv (b' B) \<and> objs (b' B) k = Some v"
  using assms(1,2,3,5)
proof (induction rows arbitrary: m b)
  case (Cons t rows)
  from Cons.prems(1) show ?case
  proof (cases rule: m_targets_cases)
    case 1
    with Cons.prems(2,3) show ?thesis by simp
  next
    case 2
    with Cons.IH[OF 2(1) Cons.prems(2,3)] Cons.prems(4) show ?thesis by simp
  next
    case (3 m1 b1)
    have "inv (b1 B) \<and> objs (b1 B) k = Some v"
      by (rule m_target_keeps[OF 3(2) Cons.prems(2,3) assms(4), where V = V]) (use Cons.prems(4) 3(1) in \<open>simp add: mirrors_def\<close>)
    with Cons.IH[OF 3(3)] Cons.prems(4) show ?thesis by simp
  qed
qed simp

lemma m_targets_fills:
  assumes "m_targets pages ops open_sealed creds opens w now pct mn rows (m, b) = Some (m', b')" and "inv (b B)" and "exists_means_held ops inv objs"
    and "\<forall>e. \<not> raced e k" and "\<forall>t \<in> set rows. mirrors t B \<longrightarrow> held_throughout w (ta_ID t) k V"
    and "\<forall>x. objs (b B) k = Some x \<longrightarrow> x \<in> V" and "m_errs m' = []" and "\<exists>t \<in> set rows. mirrors t B"
  shows "\<exists>x \<in> V. objs (b' B) k = Some x"
  using assms(1,2,5,6,8)
proof (induction rows arbitrary: m b)
  case (Cons t rows)
  have rest: "\<forall>t \<in> set rows. mirrors t B \<longrightarrow> held_throughout w (ta_ID t) k V" using Cons.prems(3) by simp
  from Cons.prems(1) show ?case
  proof (cases rule: m_targets_cases)
    case 1
    with assms(7) show ?thesis by simp
  next
    case 2
    have "\<exists>t \<in> set rows. mirrors t B" using Cons.prems(5) 2(2) by (auto simp: mirrors_def)
    from Cons.IH[OF 2(1) Cons.prems(2) rest Cons.prems(4) this] show ?thesis .
  next
    case (3 m1 b1)
    have f: "inv (b1 B)" "\<forall>x. objs (b1 B) k = Some x \<longrightarrow> x \<in> V" "bucket_of t = B \<Longrightarrow> objs (b1 B) k \<noteq> None"
    proof -
      have "m_errs m1 = []" using m_targets_errs[OF 3(3)] assms(7) by blast
      moreover have "bucket_of t = B \<Longrightarrow> held_throughout w (ta_ID t) k V" using Cons.prems(3) 3(1) by (simp add: mirrors_def)
      ultimately show "inv (b1 B)" "\<forall>x. objs (b1 B) k = Some x \<longrightarrow> x \<in> V" "bucket_of t = B \<Longrightarrow> objs (b1 B) k \<noteq> None"
        using m_target_fills[OF 3(2) Cons.prems(2) assms(3) _ Cons.prems(4)] by simp_all
    qed
    show ?thesis
    proof (cases "bucket_of t = B")
      case True
      with f(3) obtain x where x: "objs (b1 B) k = Some x" by blast
      from m_targets_keeps[OF 3(3) f(1) x assms(4) rest] x f(2) show ?thesis by blast
    next
      case False
      then have "\<exists>t \<in> set rows. mirrors t B" using Cons.prems(5) by (auto simp: mirrors_def)
      from Cons.IH[OF 3(3) f(1) rest f(2) this] show ?thesis .
    qed
  qed
qed simp

subsection \<open>The hide guard\<close>

lemma hide_all_dom:
  assumes "inv (m_remote m)"
  shows "objs (m_remote (hide_all ops w x ks m)) k = objs (m_remote m) k \<or> objs (m_remote (hide_all ops w x ks m)) k = None"
  using assms
proof (induction ks arbitrary: m)
  case (Cons k1 ks)
  obtain r s' where d: "os_Delete ops (mw_remote w (m_tick m)) (m_remote m) k1 = (r, s')" by (rule prod.exhaust)
  have e: "inv s'" "objs s' k = objs (m_remote m) k \<or> objs s' k = None" using delete_cases[OF Cons.prems d] by (auto split: if_splits)
  consider m1 where "hide_all ops w x (k1 # ks) m = hide_all ops w x ks m1" "m1 = (tick m)\<lparr>m_remote := s'\<rparr> \<or> (\<exists>n. m1 = (tick m)\<lparr>m_remote := s', m_hidden := n\<rparr>)"
    | err where "hide_all ops w x (k1 # ks) m = m_fail x err ((tick m)\<lparr>m_remote := s'\<rparr>)"
    by (cases r; cases "r = Some ErrNotFound") (auto simp: d Let_def)
  then show ?case
  proof cases
    case (1 m1)
    then have "m_remote m1 = s'" by auto
    with Cons.IH[of m1] e 1(1) show ?thesis by auto
  qed (use e(2) in simp)
qed simp

lemma m_hide_dom:
  assumes "inv (m_remote m)"
  shows "objs (m_remote (m_hide ops w c x device os held m)) k = objs (m_remote m) k \<or> objs (m_remote (m_hide ops w c x device os held m)) k = None"
proof -
  have "inv (m_remote (m\<lparr>m_db := d\<rparr>))" for d using assms by simp
  from hide_all_dom[OF this, of w x] show ?thesis by (auto simp: m_hide_def Let_def split: prod.splits)
qed

text \<open>A key leaves the bucket only after the guard has reserved the hides of the run.\<close>

lemma m_hide_guard:
  assumes "m' = m_hide ops w c x device os held m" and "m_remote m' \<noteq> m_remote m"
  defines "since \<equiv> mt_now c - hideWindow" and "hs \<equiv> db_mirror_hides (m_db m)" and "n \<equiv> int (length (gone_keys os held))"
  shows "ta_MirrorLockVerifiedAt (mt_row c) \<noteq> None \<and> mt_versioned c
    \<and> hides_since since (ta_ID (mt_row c)) device hs + n \<le> hide_limit c held
    \<and> hides_since since (ta_ID (mt_row c)) device (db_mirror_hides (m_db m')) = hides_since since (ta_ID (mt_row c)) device hs + n"
proof -
  let ?kept = "filter (\<lambda>h. \<not> mh_At h < ts since) hs"
  let ?row = "\<lparr>mh_TargetID = ta_ID (mt_row c), mh_Device = device, mh_At = ts (mt_now c), mh_N = n\<rparr>"
  have kept: "hides_since since t device ?kept = hides_since since t device hs" for t
    unfolding hides_since_def by (auto intro!: arg_cong[where f = "\<lambda>xs. sum_list (map mh_N xs)"] filter_cong simp: not_less)
  have row: "ts since \<le> ts (mt_now c)" by (simp add: since_def ts_mono hideWindow_nonneg)
  obtain e ok d' where r: "ReserveMirrorHides (ta_ID (mt_row c)) device (mt_now c) since n (hide_limit c held) (m_db m) = ((e, ok), d')"
    by (metis prod.exhaust)
  from assms(1,2) r have v: "ta_MirrorLockVerifiedAt (mt_row c) \<noteq> None" "mt_versioned c" "ok"
    "m' = hide_all ops w x (sort (gone_keys os held)) (m\<lparr>m_db := d'\<rparr>)"
    by (auto simp: m_hide_def Let_def since_def n_def split: if_splits)
  from r v(3) have "e = hides_since since (ta_ID (mt_row c)) device ?kept" "e + n \<le> hide_limit c held" "db_mirror_hides d' = ?kept @ [?row]"
    by (auto simp: ReserveMirrorHides_def Let_def hs_def split: if_splits)
  moreover have "m_db m' = d'" unfolding v(4) by (simp add: hide_all_db)
  ultimately show ?thesis using v(1,2) row kept by (simp add: hides_since_def)
qed

lemma put_grows:
  assumes "inv s" and "os_Put ops e s k b sz ow = (r, eof, s')" and "objs s k' \<noteq> None"
  shows "objs s' k' \<noteq> None"
  using put_cases[OF assms(1,2)] assms(3) by auto

lemma m_upload_grows:
  "m_upload ops w c o1 m = (r, m') \<Longrightarrow> inv (m_remote m) \<Longrightarrow> objs (m_remote m) k \<noteq> None \<Longrightarrow> objs (m_remote m') k \<noteq> None"
  by (auto simp: m_upload_def dest: put_grows split: prod.splits sum.splits if_splits)

lemma upload_all_grows:
  assumes "upload_all ops w c x held os offsite m = (r, m')" and "inv (m_remote m)" and "objs (m_remote m) k \<noteq> None"
  shows "objs (m_remote m') k \<noteq> None"
  using assms
proof (induction os arbitrary: offsite m)
  case (Cons o1 os)
  obtain r1 m1 where u: "m_upload ops w c o1 m = (r1, m1)" by (rule prod.exhaust)
  have m1: "inv (m_remote m1)" "objs (m_remote m1) k \<noteq> None"
    using m_upload_effect[OF u Cons.prems(2)] m_upload_grows[OF u Cons.prems(2,3)] by blast+
  from Cons.prems(1) u consider "m_remote m' = m_remote m" | "m_remote m' = m_remote m1"
    | off m2 where "upload_all ops w c x held os off m2 = (r, m')" "m_remote m2 = m_remote m \<or> m_remote m2 = m_remote m1"
    by (auto split: if_splits sum.splits option.splits)
  then show ?case
  proof cases
    case (3 off m2)
    then have "inv (m_remote m2)" "objs (m_remote m2) k \<noteq> None" using m1 Cons.prems(2,3) by auto
    from Cons.IH[OF 3(1) this] show ?thesis .
  qed (use m1 Cons.prems(3) in simp_all)
qed simp

lemma m_record_hides: "db_mirror_hides (m_db (m_record c x device n m)) = db_mirror_hides (m_db m)"
  by (auto simp: m_record_def SetMirrored_def upsert_stat_def split: option.splits sum.splits if_splits)

lemma m_device_guard:
  assumes "inv (m_remote m)" and "m_device pages ops w c device os m = Some m'"
  defines "R \<equiv> {k. objs (m_remote m) k \<noteq> None \<and> objs (m_remote m') k = None}"
    and "hidden \<equiv> hides_since (mt_now c - hideWindow) (ta_ID (mt_row c)) device"
  shows "R = {} \<or> (\<exists>held. distinct held \<and> set held \<subseteq> {k. objs (m_remote m) k \<noteq> None \<and> HasPrefix k (device @ ''/'')}
    \<and> R \<subseteq> set held - oi_Key ` set os \<and> ta_MirrorLockVerifiedAt (mt_row c) \<noteq> None \<and> mt_versioned c
    \<and> hidden (db_mirror_hides (m_db m)) + int (card R) \<le> max (mt_hideMin c) (int (length held) * mt_hidePercent c div 100)
    \<and> hidden (db_mirror_hides (m_db m)) + int (card R) \<le> hidden (db_mirror_hides (m_db m')))"
  using assms(2)
proof (cases rule: m_device_cases)
  case (2 err m1)
  with mirrored_keys[OF 2(1) assms(1), THEN conjunct1] have "R = {}" unfolding R_def by auto
  then show ?thesis ..
next
  case (3 held m1)
  have "m_remote m1 = m_remote m" using mirrored_keys[OF 3(1) assms(1)] by (rule conjunct1)
  then have "objs (m_remote m') k \<noteq> None" if "objs (m_remote m) k \<noteq> None" for k
    using upload_all_grows[OF 3(2)] assms(1) that by simp
  then have "R = {}" unfolding R_def by blast
  then show ?thesis ..
next
  case (4 held m1 n m2)
  define x where "x = ta_Name (mt_row c) @ ''/'' @ device"
  define m3 where "m3 = m_hide ops w c x device os held m2"
  note h = mirrored_keys[OF 4(1) assms(1)]
  have m1: "m_remote m1 = m_remote m" "m_db m1 = m_db m" using h by (rule conjunct1, rule conjunct2[THEN conjunct1])
  note h' = h[THEN conjunct2, THEN conjunct2, rule_format, OF refl, THEN conjunct2]
  have "\<forall>k \<in> set held. k \<in> set [] \<or> HasPrefix k (device @ ''/'') \<and> objs (m_remote m) k \<noteq> None" using h' by (rule conjunct1)
  then have held: "set held \<subseteq> {k. objs (m_remote m) k \<noteq> None \<and> HasPrefix k (device @ ''/'')}" by auto
  have dist: "distinct held" using h'[THEN conjunct2, THEN conjunct2] by simp
  have "inv (m_remote m1)" using m1(1) assms(1) by simp
  note e = upload_all_effect[OF 4(2) this] and g = upload_all_grows[OF 4(2) this]
  have m2: "inv (m_remote m2)" "m_db m2 = m_db m" using e m1(2) by simp_all
  have m': "m_remote m' = m_remote m3" "db_mirror_hides (m_db m') = db_mirror_hides (m_db m3)"
    unfolding 4(3) m3_def x_def by (simp_all add: m_record_hides)
  have R: "R \<subseteq> set (gone_keys os held)"
  proof
    fix k assume "k \<in> R"
    then have "objs (m_remote m2) k \<noteq> None" "objs (m_remote m3) k = None" using g[of k] m1(1) m'(1) by (simp_all add: R_def)
    then show "k \<in> set (gone_keys os held)" using m_hide_effect[OF m2(1), THEN conjunct2, rule_format, of k] unfolding m3_def by metis
  qed
  have "card R \<le> card (set (gone_keys os held))" using R by (intro card_mono) simp_all
  also have "\<dots> \<le> length (gone_keys os held)" by (rule card_length)
  finally have n: "card R \<le> length (gone_keys os held)" .
  show ?thesis
  proof (cases "R = {}")
    case False
    then obtain k where "objs (m_remote m) k \<noteq> None" "objs (m_remote m3) k = None" unfolding R_def m'(1) by blast
    with g[of k] m1(1) have "m_remote m3 \<noteq> m_remote m2" by auto
    note g' = m_hide_guard[OF m3_def this, folded hidden_def, unfolded m2(2) hide_limit_def]
    have "R \<subseteq> set held - oi_Key ` set os" using R by (auto simp: gone_keys_def)
    with g' n m'(2) held dist show ?thesis by (intro disjI2 exI[of _ held] conjI) simp_all
  qed simp
next
  case 1
  then have "R = {}" unfolding R_def by auto
  then show ?thesis ..
qed

subsection \<open>The job returns\<close>

lemma mirrored_returns:
  assumes "inv (m_remote m)" and "finite K" and "dom (objs (m_remote m)) \<subseteq> K" and "card {k \<in> K. after < k} < n"
  shows "mirrored n ops w device after held m \<noteq> None"
  using assms(1,3,4)
proof (induction n arbitrary: after held m)
  case (Suc n)
  let ?l = "os_List ops (mw_remote w (m_tick m)) (m_remote m) (device @ ''/'') after listPage"
  have step: "mirrored n ops w device (oi_Key (last page)) h (tick m) \<noteq> None" if l: "?l = Inr (page, tr)" and "page \<noteq> []" for page tr h
  proof (rule Suc.IH)
    from that(2) have "last page \<in> set page" by simp
    from list_sound[OF Suc.prems(1) l this] Suc.prems(2) have q: "oi_Key (last page) \<in> K" "after < oi_Key (last page)" by auto
    from card_after_less[OF assms(2) q] Suc.prems(3) show "card {k \<in> K. oi_Key (last page) < k} < n" by simp
  qed (use Suc.prems in simp_all)
  show ?case using step by (cases ?l) (auto simp: Let_def split: if_splits)
qed simp

lemma m_device_dom:
  assumes "m_device pages ops w c device os m = Some m'" and "inv (m_remote m)"
  shows "dom (objs (m_remote m')) \<subseteq> dom (objs (m_remote m)) \<union> oi_Key ` set os"
proof
  fix k assume k: "k \<in> dom (objs (m_remote m'))"
  show "k \<in> dom (objs (m_remote m)) \<union> oi_Key ` set os"
  proof (cases "k \<in> oi_Key ` set os")
    case kos: False
    have up: "inv (m_remote m2)" "objs (m_remote m2) k = objs (m_remote m) k"
      if l: "mirrored pages ops w device [] [] m = Some (Inr held, m1)" and u: "upload_all ops w c x held os n m1 = (r, m2)" for held m1 x n r m2
    proof -
      have m1: "m_remote m1 = m_remote m" using mirrored_keys[OF l assms(2)] by (rule conjunct1)
      then have "inv (m_remote m1)" using assms(2) by simp
      note e = upload_all_effect[OF u this]
      show "inv (m_remote m2)" using e by (rule conjunct1)
      show "objs (m_remote m2) k = objs (m_remote m) k"
        using e[THEN conjunct2, THEN conjunct1, rule_format, OF disjI2, OF kos] m1 by simp
    qed
    from assms(1) have "objs (m_remote m') k = objs (m_remote m) k \<or> objs (m_remote m') k = None"
    proof (cases rule: m_device_cases)
      case (2 err m1)
      with mirrored_keys[OF 2(1) assms(2), THEN conjunct1] show ?thesis by simp
    next
      case (3 held m1)
      from up(2)[OF 3] show ?thesis ..
    next
      case (4 held m1 n m2)
      from m_hide_dom[OF up(1)[OF 4(1,2)]] up(2)[OF 4(1,2)] show ?thesis unfolding 4(3) m_record_remote by metis
    qed simp
    with k show ?thesis by auto
  qed simp
qed

text \<open>The state between two visits, over a finite set of keys that the pages do not outnumber.\<close>

lemma m_device_returns:
  assumes "inv (m_remote m)" and "finite K" and "card K < pages" and "dom (objs (m_remote m)) \<subseteq> K" and "oi_Key ` set os \<subseteq> K"
  obtains m' where "m_device pages ops w c device os m = Some m'" "inv (m_remote m')" "dom (objs (m_remote m')) \<subseteq> K"
proof -
  have "card {k \<in> K. [] < k} \<le> card K" using assms(2) by (intro card_mono) auto
  with assms(3) have "card {k \<in> K. [] < k} < pages" by simp
  from mirrored_returns[OF assms(1,2,4) this] obtain r m1 where l: "mirrored pages ops w device [] [] m = Some (r, m1)" by fastforce
  then have "m_device pages ops w c device os m \<noteq> None" by (cases r) (auto simp: m_device_def Let_def split: prod.splits option.splits)
  then obtain m' where "m_device pages ops w c device os m = Some m'" by blast
  with that m_device_inv[OF this assms(1)] m_device_dom[OF this assms(1)] assms(4,5) show thesis by blast
qed

lemma walk_page_returns:
  assumes "inv (m_remote m)" and "finite K" and "card K < pages" and "dom (objs (m_remote m)) \<subseteq> K" and "oi_Key ` set os \<subseteq> K"
    and "oi_Key ` set page \<subseteq> K"
  shows "\<exists>device' os' m'. walk_page pages ops w c page device os m = Some (device', os', m') \<and> inv (m_remote m') \<and> dom (objs (m_remote m')) \<subseteq> K
    \<and> oi_Key ` set os' \<subseteq> K"
  using assms(1,4,5,6)
proof (induction page arbitrary: device os m)
  case (Cons o1 page)
  obtain d n ok where cut: "Cut (oi_Key o1) CHR ''/'' = (d, n, ok)" by (rule prod_cases3)
  have page: "oi_Key ` set page \<subseteq> K" "oi_Key ` set [o1] \<subseteq> K" "oi_Key ` set (os @ [o1]) \<subseteq> K" using Cons.prems(3,4) by auto
  obtain m1 where m1: "m_device pages ops w c device os m = Some m1" "inv (m_remote m1)" "dom (objs (m_remote m1)) \<subseteq> K"
    using Cons.prems(1) assms(2,3) Cons.prems(2,3) by (rule m_device_returns)
  show ?case using cut m1(1) Cons.IH[OF Cons.prems(1,2,3) page(1)] Cons.IH[OF m1(2,3) page(2,1)] Cons.IH[OF Cons.prems(1,2) page(3,1)]
    by simp
qed simp

lemma m_walk_returns:
  assumes "roots_within w K" and "inv (m_remote m)" and "finite K" and "card K < pages" and "dom (objs (m_remote m)) \<subseteq> K"
    and "oi_Key ` set os \<subseteq> K" and "card {k \<in> K. p < k} < n"
  shows "\<exists>m'. m_walk n pages ops w c p device os m = Some m' \<and> inv (m_remote m') \<and> dom (objs (m_remote m')) \<subseteq> K"
  using assms(2,5,6,7)
proof (induction n arbitrary: p device os m)
  case (Suc n)
  obtain le root where l: "mw_local w (ta_ID (mt_row c)) (m_tick m) = (le, root)" by (rule prod.exhaust)
  have root: "fs_wf root" "dom (local_objs root) \<subseteq> K" using assms(1) l unfolding roots_within_def by (metis prod.sel(2))+
  have t: "inv (m_remote (tick m))" "dom (objs (m_remote (tick m))) \<subseteq> K" using Suc.prems(1,2) by simp_all
  show ?case
  proof (cases "local_List le root [] p listPage")
    case (Inl err)
    with l t show ?thesis by simp
  next
    case (Inr x)
    then obtain page tr where page: "local_List le root [] p listPage = Inr (page, tr)" by (cases x) auto
    have mem: "oi_Key o1 \<in> K \<and> p < oi_Key o1" if "o1 \<in> set page" for o1
      using lo.list_sound[OF root(1), of undefined undefined le "[]" p listPage page tr o1] page that root(2) by (auto simp: local_ops_def)
    obtain m1 where m1: "m_device pages ops w c device os (tick m) = Some m1" "inv (m_remote m1)" "dom (objs (m_remote m1)) \<subseteq> K"
      using t(1) assms(3,4) t(2) Suc.prems(3) by (rule m_device_returns)
    from mem have "oi_Key ` set page \<subseteq> K" by auto
    from walk_page_returns[OF t(1) assms(3,4) t(2) Suc.prems(3) this] obtain d' os' m2 where
      m2: "walk_page pages ops w c page device os (tick m) = Some (d', os', m2)" "inv (m_remote m2)" "dom (objs (m_remote m2)) \<subseteq> K" "oi_Key ` set os' \<subseteq> K"
      by blast
    obtain m3 where m3: "m_device pages ops w c d' os' m2 = Some m3" "inv (m_remote m3)" "dom (objs (m_remote m3)) \<subseteq> K"
      using m2(2) assms(3,4) m2(3,4) by (rule m_device_returns)
    show ?thesis
    proof (cases "page = []")
      case False
      from mem[OF last_in_set[OF False]] card_after_less[OF assms(3), of "oi_Key (last page)" p] Suc.prems(4)
      have "card {k \<in> K. oi_Key (last page) < k} < n" by simp
      from Suc.IH[OF m2(2-4) this] l page m2(1) m3 False show ?thesis by (cases tr) simp_all
    qed (use l page m1 in simp)
  qed
qed simp

lemma m_targets_returns:
  assumes "roots_within w K" and "finite K" and "card K < pages" and "\<forall>B. inv (b B) \<and> dom (objs (b B)) \<subseteq> K"
  shows "m_targets pages ops open_sealed creds opens w now pct mn rows (m, b) \<noteq> None"
  using assms(4)
proof (induction rows arbitrary: m b)
  case (Cons t rows)
  let ?c = "target_start now pct mn t"
  define m0 where "m0 = tick (m\<lparr>m_remote := b (bucket_of t)\<rparr>)"
  have "card {k \<in> K. [] < k} \<le> card K" using assms(2) by (intro card_mono) auto
  with assms(3) have "card {k \<in> K. [] < k} < pages" by simp
  then have w: "\<exists>m'. m_walk pages pages ops w c' [] [] [] m0 = Some m' \<and> inv (m_remote m') \<and> dom (objs (m_remote m')) \<subseteq> K" for c'
    using m_walk_returns[OF assms(1) _ assms(2,3), of m0 "[]" "[]" pages c' "[]"] Cons.prems by (simp add: m0_def)
  have "\<exists>m1 b1. m_target pages ops open_sealed creds opens w ?c (m, b) = Some (m1, b1)"
    using w by (auto simp: m_target_def Let_def m0_def split: option.splits sum.splits) (metis option.distinct(1))+
  then obtain m1 b1 where m1: "m_target pages ops open_sealed creds opens w ?c (m, b) = Some (m1, b1)" by blast
  have "\<forall>B. inv (b1 B) \<and> dom (objs (b1 B)) \<subseteq> K"
    using m1
  proof (cases rule: m_target_cases)
    case (2 c')
    with w[of c'] Cons.prems show ?thesis by (auto simp: m0_def)
  qed (use Cons.prems in simp)
  from Cons.IH[OF this] Cons.IH[OF Cons.prems] m1 show ?case by (simp add: target_start_def)
qed simp

end

end
