(* ===== verification/Mirror_Offsite.thy ===== *)
theory Mirror_Offsite
  imports Local_Correct Mirror_Correct
begin

section \<open>What the mirror job guarantees\<close>

text \<open>
  The properties of the mirror job as a whole, over any bucket that keeps the contract of
  ObjectStore. The bucket of the witnesses is a versioned bucket in memory.
\<close>

subsection \<open>A bucket in memory\<close>

definition bucket_info :: "(string \<times> string) list \<Rightarrow> string \<Rightarrow> ObjectInfo" where
  "bucket_info s k = \<lparr>oi_Key = k, oi_Size = int (length (the (map_of s k))), oi_ETag = [], oi_LastModified = 0\<rparr>"

definition bucket_Put :: "unit \<Rightarrow> (string \<times> string) list \<Rightarrow> string \<Rightarrow> body \<Rightarrow> int \<Rightarrow> bool
    \<Rightarrow> (gw_error + ObjectInfo) \<times> bool \<times> (string \<times> string) list" where
  "bucket_Put e s k b sz ow =
     (if checkKey k \<noteq> None then (Inl ErrBadKey, False, s)
      else if bd_end b \<noteq> None \<or> 0 \<le> sz \<and> int (length (bd_data b)) \<noteq> sz then (Inl ErrIncompleteBody, False, s)
      else if \<not> ow \<and> map_of s k \<noteq> None then (Inl ErrExists, True, s)
      else let s' = AList.update k (bd_data b) s in (Inr (bucket_info s' k), True, s'))"

definition bucket_Get :: "unit \<Rightarrow> (string \<times> string) list \<Rightarrow> string \<Rightarrow> int \<Rightarrow> int \<Rightarrow> gw_error + (body \<times> ObjectInfo)" where
  "bucket_Get e s k offset len =
     (case map_of s k of
        None \<Rightarrow> Inl ErrNotFound
      | Some v \<Rightarrow>
          if offset < 0 \<or> offset > 0 \<and> offset \<ge> int (length v) then Inl ErrRange
          else Inr (\<lparr>bd_data = byte_range v offset len, bd_end = None\<rparr>, bucket_info s k))"

definition bucket_List :: "unit \<Rightarrow> (string \<times> string) list \<Rightarrow> string \<Rightarrow> string \<Rightarrow> int \<Rightarrow> gw_error + (ObjectInfo list \<times> bool)" where
  "bucket_List e s p a mx =
     (let ks = filter (\<lambda>k. HasPrefix k p \<and> a < k) (sort (map fst s))
      in Inr (map (bucket_info s) (take (clamp_max mx) ks), clamp_max mx < length ks))"

definition bucket_Delete :: "unit \<Rightarrow> (string \<times> string) list \<Rightarrow> string \<Rightarrow> gw_error option \<times> (string \<times> string) list" where
  "bucket_Delete e s k = (if map_of s k = None then (Some ErrNotFound, s) else (None, AList.delete k s))"

definition bucket_ops :: "(unit, (string \<times> string) list) ObjectStore" where
  "bucket_ops = \<lparr>os_Put = bucket_Put, os_Get = bucket_Get,
     os_Head = (\<lambda>e s k. if map_of s k = None then Inl ErrNotFound else Inr (bucket_info s k)),
     os_List = bucket_List, os_Delete = bucket_Delete, os_Versioned = (\<lambda>e s. True)\<rparr>"

lemma bucket_listing:
  assumes "distinct (map fst s)" and "bucket_List e s p a mx = Inr (os, tr)"
  defines "ks \<equiv> filter (\<lambda>k. HasPrefix k p \<and> a < k) (sort (map fst s))"
  shows "map oi_Key os = take (clamp_max mx) ks" "tr = (clamp_max mx < length ks)" "sorted_wrt (<) ks"
    "os = map (bucket_info s) (take (clamp_max mx) ks)"
proof -
  show os: "os = map (bucket_info s) (take (clamp_max mx) ks)" and "tr = (clamp_max mx < length ks)"
    using assms(2) by (auto simp: bucket_List_def Let_def ks_def)
  show "map oi_Key os = take (clamp_max mx) ks" by (simp add: os bucket_info_def comp_def)
  have "sorted_wrt (<) (sort (map fst s))" using assms(1) by (simp add: strict_sorted_iff)
  then show "sorted_wrt (<) ks" unfolding ks_def by (rule sorted_wrt_filter)
qed

lemma bucket_list_complete:
  assumes "distinct (map fst s)" and "bucket_List e s p a mx = Inr (os, tr)" and "map_of s k = Some v" and "HasPrefix k p" and "a < k"
    and "\<not> tr \<or> k \<le> oi_Key (last os)"
  shows "k \<in> oi_Key ` set os"
proof -
  define ks where "ks = filter (\<lambda>k. HasPrefix k p \<and> a < k) (sort (map fst s))"
  note l = bucket_listing[OF assms(1,2), folded ks_def]
  have "k \<in> fst ` set s" using map_of_SomeD[OF assms(3)] by force
  then have k: "k \<in> set ks" using assms(4,5) by (simp add: ks_def)
  have "k \<in> set (take (clamp_max mx) ks)"
  proof (cases tr)
    case True
    with l(2) have ne: "take (clamp_max mx) ks \<noteq> []" using clamp_max_bounds(1)[of mx] by auto
    with l(1) have "os \<noteq> []" by auto
    then have "k \<le> last (take (clamp_max mx) ks)" using assms(6) True l(1) by (metis last_map)
    with sorted_take_complete[OF l(3) k] clamp_max_bounds(1) True l(2) show ?thesis by blast
  next
    case False
    with l(2) k show ?thesis by simp
  qed
  then have "k \<in> set (map oi_Key os)" unfolding l(1) .
  then show ?thesis by simp
qed

interpretation bucket: object_store_contract bucket_ops "\<lambda>s. distinct (map fst s)" map_of "\<lambda>_ _. False"
proof (unfold_locales, goal_cases)
  case (1 s e k b sz ow i eof s')
  then show ?case by (auto simp: bucket_ops_def bucket_Put_def bucket_info_def Let_def distinct_update update_conv' split: if_splits)
next
  case (2 s e k b sz ow err eof s')
  then show ?case by (auto simp: bucket_ops_def bucket_Put_def Let_def split: if_splits)
next
  case (3 s e k off len b i)
  then obtain v where v: "map_of s k = Some v" "0 \<le> off" "off = 0 \<or> off < int (length v)" "b = \<lparr>bd_data = byte_range v off len, bd_end = None\<rparr>"
    "i = bucket_info s k"
    by (auto simp: bucket_ops_def bucket_Get_def split: option.splits if_splits)
  moreover have "bd_data b = take (length (bd_data b)) (byte_range v off len)" using v(4) by simp
  ultimately show ?case by (intro exI[of _ v] conjI exI[of _ "length (bd_data b)"]) (simp_all add: bucket_info_def)
next
  case (4 s k e off len)
  then show ?case by (simp add: bucket_ops_def bucket_Get_def)
next
  case (5 s e k i)
  then show ?case by (auto simp: bucket_ops_def bucket_info_def split: if_splits)
next
  case (6 s e p a mx os tr o1)
  then have "bucket_List e s p a mx = Inr (os, tr)" by (simp add: bucket_ops_def)
  from bucket_listing[OF 6(1) this] 6(3) obtain k where k: "o1 = bucket_info s k" "k \<in> fst ` set s" "HasPrefix k p" "a < k"
    by (auto dest!: in_set_takeD)
  from k(2) obtain v where "map_of s k = Some v" by (metis map_of_eq_None_iff option.exhaust)
  with k show ?case by (simp add: bucket_info_def)
next
  case (7 s p e a mx os tr)
  then have "bucket_List e s p a mx = Inr (os, tr)" by (simp add: bucket_ops_def)
  note l = bucket_listing[OF 7(1) this]
  have "sorted_wrt (<) (map oi_Key os)" unfolding l(1) using l(3) by (rule sorted_wrt_take)
  moreover have "length os \<le> clamp_max mx" unfolding l(4) by simp
  moreover have "tr \<Longrightarrow> os \<noteq> []" unfolding l(2,4) using clamp_max_bounds(1)[of mx] by auto
  ultimately show ?case using clamp_max_bounds(2)[of mx] by auto
next
  case (8 s p e a mx os tr k v)
  show ?case by (rule bucket_list_complete[OF 8(1) _ 8(4,5,6,8)]) (use 8(3) in \<open>simp add: bucket_ops_def\<close>)
next
  case (9 s e k s')
  then show ?case by (auto simp: bucket_ops_def bucket_Delete_def distinct_delete delete_conv' split: if_splits)
next
  case (10 s e k err s')
  then show ?case by (auto simp: bucket_ops_def bucket_Delete_def split: if_splits)
qed

lemma bucket_exists: "exists_means_held bucket_ops (\<lambda>s. distinct (map fst s)) map_of"
  by (auto simp: exists_means_held_def bucket_ops_def bucket_Put_def Let_def split: if_splits)

subsection \<open>The job\<close>

lemma Mirror_run:
  assumes "Mirror pages ops open_sealed creds opens text w now nowhere b d = Some (out, d', b')"
  obtains m' where "m_targets pages ops open_sealed creds opens w now (MirrorHideSetting MirrorHideMaxPercentSetting d)
      (MirrorHideSetting MirrorHideMinCountSetting d) (Targets d)
      (\<lparr>m_db = d, m_remote = nowhere, m_tick = 0, m_objects = 0, m_skipped = 0, m_hidden = 0, m_bytes = 0, m_errs = []\<rparr>, b) = Some (m', b')"
    "d' = m_db m'" "out = Returned (m_detail text m') (if m_errs m' \<noteq> [] then Some (RunErr ''the mirror did not complete'') else None)"
  using assms unfolding Mirror_def by auto

text \<open>
  C8. The mirror job never takes a live object offsite away. Whatever fails and wherever the
  run stops: an object of a bucket whose key the hosted roots that mirror into the bucket hold
  throughout the run is still in the bucket afterwards, with the same bytes. The job is the
  bucket's only writer, and no concurrent deletion hides the key from a listing.
\<close>

theorem mirror_keeps_live:
  assumes "object_store_contract ops I objs raced" and "I (b B)" and "objs (b B) k = Some v" and "\<forall>e. \<not> raced e k"
    and "\<forall>t \<in> set (Targets d). mirrors t B \<longrightarrow> held_throughout w (ta_ID t) k V"
    and "Mirror pages ops open_sealed creds opens text w now nowhere b d = Some (out, d', b')"
  shows "objs (b' B) k = Some v"
  using assms(6)
proof (rule Mirror_run)
  fix m' assume "m_targets pages ops open_sealed creds opens w now (MirrorHideSetting MirrorHideMaxPercentSetting d)
      (MirrorHideSetting MirrorHideMinCountSetting d) (Targets d)
      (\<lparr>m_db = d, m_remote = nowhere, m_tick = 0, m_objects = 0, m_skipped = 0, m_hidden = 0, m_bytes = 0, m_errs = []\<rparr>, b) = Some (m', b')"
  from object_store_contract.m_targets_keeps[OF assms(1) this assms(2-5)] show ?thesis by blast
qed


text \<open>
  C26. The job returns: its two paging loops end whatever the devices write meanwhile, as long
  as the keys that ever appear in the roots and the buckets are finitely many; a number of
  pages above the number of keys is enough.
\<close>

theorem mirror_returns:
  assumes "object_store_contract ops I objs raced" and "finite K" and "roots_within w K" and "\<forall>B. I (b B) \<and> dom (objs (b B)) \<subseteq> K" and "card K < pages"
  shows "\<exists>out d' b'. Mirror pages ops open_sealed creds opens text w now nowhere b d = Some (out, d', b')"
  using object_store_contract.m_targets_returns[OF assms(1,3,2,5,4)] unfolding Mirror_def by (fastforce simp: not_None_eq)

text \<open>
  C23. The hide guard. If the visit of a device takes keys out of the bucket, they are keys of
  that device that its root no longer lists, the bucket is lock-verified and versioned, and
  the keys together with everything reserved for the device in the seven days before stay
  within the larger of the minimum count and the percentage of the keys the bucket listed; the
  reservation is on record afterwards.
\<close>

theorem mirror_hides_guarded:
  assumes "object_store_contract ops I objs raced" and "I (m_remote m)" and "m_device pages ops w c device os m = Some m'"
  defines "R \<equiv> {k. objs (m_remote m) k \<noteq> None \<and> objs (m_remote m') k = None}"
    and "hidden \<equiv> hides_since (mt_now c - hideWindow) (ta_ID (mt_row c)) device"
  assumes "R \<noteq> {}"
  shows "\<exists>held. distinct held \<and> set held \<subseteq> {k. objs (m_remote m) k \<noteq> None \<and> HasPrefix k (device @ ''/'')}
    \<and> R \<subseteq> set held - oi_Key ` set os \<and> ta_MirrorLockVerifiedAt (mt_row c) \<noteq> None \<and> mt_versioned c
    \<and> hidden (db_mirror_hides (m_db m)) + int (card R) \<le> max (mt_hideMin c) (int (length held) * mt_hidePercent c div 100)
    \<and> hidden (db_mirror_hides (m_db m)) + int (card R) \<le> hidden (db_mirror_hides (m_db m'))"
  using object_store_contract.m_device_guard[OF assms(1-3)] assms(6) unfolding R_def hidden_def by blast

subsection \<open>A run\<close>

text \<open>
  A root with two objects of one device, and a bucket that has the first of them and one the
  device's maintenance removed. The run uploads the second and hides the removed one.
\<close>

definition run_root :: fs where
  "run_root = [(''dev'', Dir [(''p1'', \<lparr>ino_kind = Regular, ino_data = ''abc'', ino_mtime = 0, ino_etag = None\<rparr>),
                             (''p2'', \<lparr>ino_kind = Regular, ino_data = ''de'', ino_mtime = 0, ino_etag = None\<rparr>)])]"

definition run_target :: Target where
  "run_target = \<lparr>ta_ID = 1, ta_Name = ''disk'', ta_Kind = ''hosted'', ta_Bucket = [], ta_Region = [], ta_Path = ''/data'', ta_SealedAdminKey = [],
     ta_ObjectLockVerifiedAt = None, ta_CreatedAt = 0, ta_StorageMode = ''disk'', ta_Endpoint = [], ta_MirrorKind = ''b2'',
     ta_MirrorBucket = ''copies'', ta_MirrorRegion = ''eu'', ta_SealedMirrorKey = ''sealed'', ta_MirrorLockVerifiedAt = Some 0,
     ta_MirrorConditionalPut = Some False\<rparr>"

definition run_db :: db where "run_db = empty_db\<lparr>db_targets := [run_target]\<rparr>"

definition run_world :: "unit mirror_world" where
  "run_world = \<lparr>mw_local = (\<lambda>t n. (calm, run_root)), mw_remote = (\<lambda>n. ()), mw_ctx = (\<lambda>n. False)\<rparr>"

definition run_bucket :: "(string \<times> string) list" where "run_bucket = [(''dev/p1'', ''abc''), (''dev/p0'', ''old'')]"

definition run_mirror :: "(outcome \<times> db \<times> (string \<times> string) list buckets) option" where
  "run_mirror = Mirror 4 bucket_ops (\<lambda>_. Some ''json'') (\<lambda>_. Some \<lparr>mc_KeyID = ''id'', mc_Key = ''key''\<rparr>) (\<lambda>_. (True, True)) (\<lambda>_. ''failed'')
     run_world (10 * hideWindow) [] (\<lambda>_. run_bucket) run_db"

lemma run_mirror_result:
  "map_option (\<lambda>(out, d', b'). (out, db_mirror_hides d', b' (bucket_of run_target))) run_mirror =
     Some (Returned ''1 objects, 2 bytes, 1 skipped, 1 hidden'' None,
           [\<lparr>mh_TargetID = 1, mh_Device = ''dev'', mh_At = 10 * hideWindow, mh_N = 1\<rparr>],
           [(''dev/p1'', ''abc''), (''dev/p2'', ''de'')])"
  by code_simp

lemma run_root_objs: "local_objs run_root ''dev/p1'' = Some ''abc''" "local_objs run_root ''dev/p2'' = Some ''de''"
  by code_simp+

lemma run_root_dom: "dom (local_objs run_root) \<subseteq> {''dev/p1'', ''dev/p2''}"
proof
  fix k assume "k \<in> dom (local_objs run_root)"
  then obtain d n i where c: "Cut k CHR ''/'' = (d, n, True)" "d \<noteq> tmpDir" and i: "fs_node run_root d n = Some i"
    by (auto simp: local_objs_def split: prod.splits option.splits if_splits)
  then have "d = ''dev'' \<and> (n = ''p1'' \<or> n = ''p2'')"
    by (simp add: fs_node_def fs_dir_def run_root_def split: if_splits)
  with c(1)[unfolded Cut_True] show "k \<in> {''dev/p1'', ''dev/p2''}" by auto
qed

lemma run_root_ordered: "ordered_root run_root"
proof -
  have "fs_wf run_root" by (simp add: fs_wf_def run_root_def dir_wf_def proper_name_def relative_segment_def tmpDir_def)
  moreover have "ValidString ''dev''" by code_simp
  ultimately show ?thesis by (simp add: ordered_root_def run_root_def)
qed

lemma run_held: "local_objs run_root k = Some v \<Longrightarrow> held_throughout run_world t k {v}"
  by (simp add: held_throughout_def run_world_def run_root_ordered calm_def)

lemma run_mirrored: "\<exists>t \<in> set (Targets run_db). mirrors t (bucket_of run_target)"
  by code_simp

lemma run_bucket_distinct: "distinct (map fst run_bucket)"
  by code_simp

lemma run_mirror_returned:
  obtains d' b' where "run_mirror = Some (Returned ''1 objects, 2 bytes, 1 skipped, 1 hidden'' None, d', b')"
    "b' (bucket_of run_target) = [(''dev/p1'', ''abc''), (''dev/p2'', ''de'')]"
  using run_mirror_result by (cases run_mirror) auto

theorem mirror_keeps_live_witness:
  "\<exists>out d' b'. run_mirror = Some (out, d', b') \<and> map_of run_bucket ''dev/p1'' = Some ''abc''
     \<and> map_of (b' (bucket_of run_target)) ''dev/p1'' = Some ''abc''"
proof -
  obtain d' b' where r: "run_mirror = Some (Returned ''1 objects, 2 bytes, 1 skipped, 1 hidden'' None, d', b')" by (rule run_mirror_returned)
  have h: "held_throughout run_world t ''dev/p1'' {''abc''}" for t by (rule run_held) (simp add: run_root_objs)
  have v: "map_of run_bucket ''dev/p1'' = Some ''abc''" by code_simp
  have "map_of (b' (bucket_of run_target)) ''dev/p1'' = Some ''abc''"
    by (rule mirror_keeps_live[OF bucket.object_store_contract_axioms run_bucket_distinct v _ _ r[unfolded run_mirror_def], where V = "{''abc''}"]) (use h in simp_all)
  with r v show ?thesis by blast
qed


theorem mirror_returns_witness: "\<exists>out d' b'. run_mirror = Some (out, d', b')"
  unfolding run_mirror_def
proof (rule mirror_returns[OF bucket.object_store_contract_axioms, where K = "{''dev/p0'', ''dev/p1'', ''dev/p2''}"])
  show "roots_within run_world {''dev/p0'', ''dev/p1'', ''dev/p2''}"
    using run_root_ordered run_root_dom by (auto simp: roots_within_def run_world_def ordered_root_def)
  show "\<forall>B. distinct (map fst run_bucket) \<and> dom (map_of run_bucket) \<subseteq> {''dev/p0'', ''dev/p1'', ''dev/p2''}"
    using run_bucket_distinct by (auto simp: run_bucket_def)
qed simp_all

text \<open>The visit of that device: its listing, and the state of the run at its begin.\<close>

definition run_visit :: mirror_target where
  "run_visit = (target_start (10 * hideWindow) 25 50 run_target)\<lparr>mt_versioned := True, mt_plain := True\<rparr>"

definition run_objects :: "ObjectInfo list" where
  "run_objects = [\<lparr>oi_Key = ''dev/p1'', oi_Size = 3, oi_ETag = [], oi_LastModified = 0\<rparr>, \<lparr>oi_Key = ''dev/p2'', oi_Size = 2, oi_ETag = [], oi_LastModified = 0\<rparr>]"

definition run_begin :: "(string \<times> string) list mirrorRun" where
  "run_begin = \<lparr>m_db = run_db, m_remote = run_bucket, m_tick = 0, m_objects = 0, m_skipped = 0, m_hidden = 0, m_bytes = 0, m_errs = []\<rparr>"

theorem mirror_hides_guarded_witness:
  "\<exists>m'. m_device 4 bucket_ops run_world run_visit ''dev'' run_objects run_begin = Some m'
     \<and> map_of run_bucket ''dev/p0'' \<noteq> None \<and> map_of (m_remote m') ''dev/p0'' = None
     \<and> 0 < hides_since (9 * hideWindow) 1 ''dev'' (db_mirror_hides (m_db m'))"
proof -
  have "map_option m_remote (m_device 4 bucket_ops run_world run_visit ''dev'' run_objects run_begin) = Some [(''dev/p1'', ''abc''), (''dev/p2'', ''de'')]"
    by code_simp
  then obtain m' where m': "m_device 4 bucket_ops run_world run_visit ''dev'' run_objects run_begin = Some m'"
    "m_remote m' = [(''dev/p1'', ''abc''), (''dev/p2'', ''de'')]" by auto
  have inv: "distinct (map fst (m_remote run_begin))" by code_simp
  have p0: "map_of (m_remote run_begin) ''dev/p0'' \<noteq> None" "map_of run_bucket ''dev/p0'' \<noteq> None" by code_simp+
  let ?R = "{k. map_of (m_remote run_begin) k \<noteq> None \<and> map_of (m_remote m') k = None}"
  have R: "''dev/p0'' \<in> ?R" using p0 m'(2) by simp
  have "finite ?R" by (rule finite_subset[OF _ finite_dom_map_of[of "m_remote run_begin"]]) auto
  with R have "0 < card ?R" by (auto simp: card_gt_0_iff)
  moreover have "hides_since (9 * hideWindow) 1 ''dev'' (db_mirror_hides (m_db run_begin)) = 0"
    "mt_now run_visit - hideWindow = 9 * hideWindow" "ta_ID (mt_row run_visit) = 1" by code_simp+
  moreover have "?R \<noteq> {}" using R by blast
  note mirror_hides_guarded[OF bucket.object_store_contract_axioms inv m'(1) this]
  ultimately have "0 < hides_since (9 * hideWindow) 1 ''dev'' (db_mirror_hides (m_db m'))" by auto
  with m' p0(2) show ?thesis by auto
qed

end
