(* ===== verification/Spec2Isabelle.thy ===== *)
theory Spec2Isabelle
  imports Key_Revocation Seal SigV4_Canonical SigV4_Complete Gateway_Protocol
    Scheduler_Correct Passphrase_Rotation Enrollment_Correct
    Fleet_Server Admin_Auth_Correct Mirror_Offsite
begin

text \<open>
  Verification of the WarpHold fleet server, the part of the repository under
  \<^verbatim>\<open>src/fleet\<close> that devices back up to.

  \<^bold>\<open>The program.\<close> A fleet server keeps an SQLite database (\<^verbatim>\<open>fleet/store\<close>) with its admins,
  groups, storage targets, enrolled devices, their access keys and reports, and a queue of
  jobs. Devices enroll with a one-time token (\<^verbatim>\<open>fleet/enroll\<close>, \<^verbatim>\<open>fleet/api/agent_endpoints.go\<close>)
  and then talk to an S3-compatible gateway (\<^verbatim>\<open>fleet/gateway\<close>), which checks their signatures,
  resolves each to the target of its group and stores objects there under rules that a
  stolen device cannot bend: nothing is overwritten, next to nothing deleted, nothing read
  outside the device's own prefix. A scheduler (\<^verbatim>\<open>fleet/jobs\<close>) runs periodic jobs, mirrors
  disk targets to a bucket and removes the repositories of revoked devices. Admins sign in to an HTTP API (\<^verbatim>\<open>fleet/api\<close>). Secrets in
  the database are sealed under a key derived from a passphrase (\<^verbatim>\<open>fleet/seal\<close>), which can be
  rotated while the server runs.

  \<^bold>\<open>Conventions.\<close> A Go string is a list of bytes. A \<^verbatim>\<open>time.Time\<close> is an integer of nanoseconds, a
  duration likewise; where the code saturates (\<^verbatim>\<open>Time.Sub\<close>) or wraps at 64 bits, so do the
  definitions (\<^const>\<open>time_sub\<close>, \<^const>\<open>wrap64\<close>, \<open>mul64\<close>). An operation with effects takes the
  state and returns it; an error is a value. What the outside world contributes to a call is
  an argument: the readings of the clock, random bytes, which system calls fail. SHA-256,
  HMAC, MD5, Argon2id, the secret box, minio's path encoding, Go's URL parser for origins and
  the engine's jobs are parameters, with what is relied on as hypotheses of the theorems.

  \<^bold>\<open>Foundations.\<close> \<open>Prelude\<close> (time, machine integers, results), \<open>Go_Strings\<close>, \<open>Go_Encoding\<close>,
  \<open>Go_Time\<close>, \<open>Net_IP\<close> and \<open>Http\<close> model what the sources use of Go's library: strings and UTF-8,
  numbers, hexadecimal, base64, URL queries, calendar and layouts, addresses, requests.

  \<^bold>\<open>The gateway.\<close>
  \<^item> \<open>Object_Keys\<close> and \<open>Object_Store\<close>: \<^verbatim>\<open>object.go\<close>, the validators of keys (\<^const>\<open>NormalizeKey\<close>,
    \<^const>\<open>checkKey\<close>) and the ObjectStore interface, whose contract is the locale
    \<open>object_store_contract\<close>. An accepted key is one directory and one file name.
  \<^item> \<open>File_System\<close>, \<open>Local_Store\<close>, \<open>Local_Correct\<close>: \<^verbatim>\<open>local.go\<close> over a directory tree in which
    any system call may fail. The contract is interpreted for it (\<open>lo\<close>); uploads are atomic,
    never replace an object, and read back with their MD5.
  \<^item> \<open>Device_Keys\<close>, \<open>Key_Revocation\<close>: \<^verbatim>\<open>keys.go\<close> and the table behind it. Lookups are sequences of
    phases between which anything else may run; a revocation takes effect at once, and
    within the cache's five minutes even if the invalidation is missed.
  \<^item> \<open>Rate_Limit\<close>, \<open>Client_IP\<close>: \<^verbatim>\<open>limit.go\<close>, token buckets over exact rationals and the
    interpretation of X-Forwarded-For.
  \<^item> \<open>SigV4\<close>, \<open>SigV4_Correct\<close>, \<open>SigV4_Canonical\<close>, \<open>SigV4_Complete\<close>: \<^verbatim>\<open>sigv4.go\<close>. What is accepted
    is signed, fresh and for this region; canonical requests determine what is signed; a
    correct client is accepted.
  \<^item> \<open>Gateway\<close>, \<open>Gateway_Correct\<close>, \<open>Gateway_Protocol\<close>: \<^verbatim>\<open>handler.go\<close> and \<^verbatim>\<open>xmlout.go\<close>, from
    \<^const>\<open>ServeHTTP\<close> down. The locale \<open>gateway_stores\<close> proves over any stores that keep the contract,
    and \<open>disk\<close> reads off for the disk backend, that a request refines a step of an abstract
    append-only gateway, that acknowledged uploads are stored whole, and that reads and
    listings are confined; paging enumerates every object once.

  \<^bold>\<open>The store and the jobs.\<close>
  \<^item> \<open>Fleet_Store\<close>, \<open>Job_Queue\<close>: every statement of \<^verbatim>\<open>fleet/store\<close> as a function on the record
    \<^typ>\<open>db\<close> of tables, with the keys and references of \<^verbatim>\<open>schema.sql\<close> enforced.
  \<^item> \<open>Fleet_Invariants\<close>: the step relation \<^const>\<open>db_step\<close> of all statements. Keys stay unique and
    references resolved, groups in use stay put, tokens are not over-spent, batch queries
    agree with single ones. The locale \<open>lasting\<close> is what clients rely on for facts that no
    statement undoes; it is interpreted for ended sessions and revoked devices.
  \<^item> \<open>Scheduler\<close>, \<open>Scheduler_Correct\<close>: \<^verbatim>\<open>scheduler.go\<close>. No job is claimed twice without a requeue,
    a tick ends, no interval job is open twice, intervals stay within bounds; and a pending
    reap of one device holds off the daily sweep.
  \<^item> \<open>Reap\<close>, \<open>Reap_Correct\<close>: \<^verbatim>\<open>jobs/reap.go\<close>. Only repositories of devices revoked for the whole
    retention window are removed, and only below their target.
  \<^item> \<open>Mirror\<close>, \<open>Mirror_Correct\<close>, \<open>Mirror_Offsite\<close>: \<^verbatim>\<open>jobs/mirror.go\<close>, the copy of a hosted root in a
    bucket. The job is a client of the contract of its bucket, and devices write to the root
    while it runs. The locale \<open>device_walk\<close> is what a visit of one device promises to the walk
    over all of them; a sublocale of \<open>object_store_contract\<close> gives it for a key the bucket
    has and one for a key it may lack. A live object never leaves the bucket, a run that
    reports success is complete, what is hidden stays within the guard, and the job returns.
  \<^item> \<open>Seal\<close>, \<open>Reseal\<close>, \<open>Passphrase_Rotation\<close>: \<^verbatim>\<open>seal.go\<close>, \<^verbatim>\<open>store/reseal.go\<close>, the rotation of
    \<^verbatim>\<open>admin_passphrase.go\<close> and the start-up of \<^verbatim>\<open>server.go\<close>. A rotation keeps every secret and
    survives a crash at any point, unless a rename fails while the server runs.

  \<^bold>\<open>The API.\<close>
  \<^item> \<open>Enrollment\<close>, \<open>Enrollment_Correct\<close>: \<^verbatim>\<open>enroll/token.go\<close>, the token, enrollment, report and poll
    endpoints. A group can be deleted under an enrollment that has spent its token.
  \<^item> \<open>Login_Limit\<close>, \<open>Admin_Auth\<close>, \<open>Admin_Auth_Correct\<close>: \<^verbatim>\<open>auth.go\<close>, \<^verbatim>\<open>sessions.go\<close>, \<^verbatim>\<open>csrf.go\<close>,
    \<^verbatim>\<open>admin_admins.go\<close>, and the checks around every admin route (\<^const>\<open>adm\<close>). Attempts to
    sign in are bounded per window; a new admin can sign in; an ended session stays dead;
    a route changes nothing for anyone but a signed-in admin.
  \<^item> \<open>Fleet_Server\<close>: \<^verbatim>\<open>gateway_mount.go\<close> and the revocation of a device, the composition of the
    database with the gateway. After \<^const>\<open>handleAgentRevoke\<close> the device is locked out of both
    and its objects stay as they are, whatever else the server does.

  \<^bold>\<open>Bounds.\<close> The two paging loops of the mirror job (\<^const>\<open>mirrored\<close>, \<^const>\<open>m_walk\<close>) count pages and
    are \<^const>\<open>None\<close> when the count is used up; a count above the number of keys that ever appear
    is shown to be enough. No other definition cuts off a loop. \<^const>\<open>drain\<close> consumes a
    list of clock readings, one per iteration, and is shown to return whenever the list is
    longer than the number of pending jobs. The parser of IPv6 groups counts to eight, the
    number of groups an address has. The loops over listings, limiter maps and runes recurse
    on what they consume.

  \<^bold>\<open>Concurrency.\<close> The key cache, the job queue, the database and enrollment are modelled as
    interleavings of their atomic sections. A request to the gateway is one step: what runs
    between its storage call and its lookup is covered for the cache by \<open>Key_Revocation\<close> and
    for a disk target by the contract's invariant.

  \<^bold>\<open>Not modelled.\<close> The cloud backend and the adapter to the backup engine (\<^verbatim>\<open>cloud.go\<close>,
    \<^verbatim>\<open>blobadapter.go\<close>), whose behaviour is that of a remote service and its client; the jobs
    that drive the engine (verification, maintenance, test restores, statistics, digest),
    which are the runner parameter of the scheduler; provisioning, a parameter of
    enrollment; form validation, JSON documents and the dashboards of the other API handlers,
    which sit in front of modelled statements; activation and the set-up token; mail, recovery
    kits, locks and paths; and, outside \<^verbatim>\<open>src/fleet\<close>, the command line, the device agent and
    the Kopia engine with its libraries. Failing disk I/O of SQLite is left out: a statement
    that fails changes no row.
\<close>

end
